theory Spec2Isabelle
  imports Complex_Main "HOL-Library.AList"
begin

section \<open>Pycornetto: the lexical relation graph and its query engine\<close>

text \<open>
  A shallow embedding of \<^verbatim>\<open>lib/cornetto/cornet.py\<close>, \<^verbatim>\<open>lib/cornetto/parse.py\<close> and
  \<^verbatim>\<open>lib/cornetto/simcornet.py\<close>. Python strings are \<^typ>\<open>string\<close>, Python exceptions
  are values of \<open>error\<close> in the left summand of a result, dictionaries whose iteration
  the code relies on are association lists.
\<close>

subsection \<open>Exceptions\<close>

datatype error =
    IndexError
  | KeyError
  | AttributeError
  | AssertionError
  | NameError
  | TypeError
  | ZeroDivisionError
  | ValueError string

subsection \<open>Python string methods\<close>

text \<open>\<^verbatim>\<open>str.upper\<close> and \<^verbatim>\<open>str.lower\<close> on byte strings change the ASCII letters only.\<close>

definition upper_char :: "char \<Rightarrow> char" where
  "upper_char c =
     (case map_of (zip ''abcdefghijklmnopqrstuvwxyz'' ''ABCDEFGHIJKLMNOPQRSTUVWXYZ'') c of
        Some u \<Rightarrow> u
      | None \<Rightarrow> c)"

definition lower_char :: "char \<Rightarrow> char" where
  "lower_char c =
     (case map_of (zip ''ABCDEFGHIJKLMNOPQRSTUVWXYZ'' ''abcdefghijklmnopqrstuvwxyz'') c of
        Some l \<Rightarrow> l
      | None \<Rightarrow> c)"

definition upper :: "string \<Rightarrow> string" where
  "upper s = map upper_char s"

definition lower :: "string \<Rightarrow> string" where
  "lower s = map lower_char s"

text \<open>The characters \<^verbatim>\<open>str.strip()\<close> removes: tab, newline, vertical tab, form feed,
  carriage return and space.\<close>

definition isspace :: "char \<Rightarrow> bool" where
  "isspace c = ((of_char c :: nat) \<in> set [9, 10, 11, 12, 13, 32])"

definition lstrip :: "string \<Rightarrow> string" where
  "lstrip s = dropWhile isspace s"

definition rstrip :: "string \<Rightarrow> string" where
  "rstrip s = rev (dropWhile isspace (rev s))"

definition strip :: "string \<Rightarrow> string" where
  "strip s = rstrip (lstrip s)"

text \<open>\<^verbatim>\<open>s.split(sep)\<close> for a separator of one character: every occurrence separates,
  and the empty string gives one empty field.\<close>

fun str_split :: "char \<Rightarrow> string \<Rightarrow> string list" where
  "str_split sep [] = [[]]"
| "str_split sep (x # xs) =
     (if x = sep then [] # str_split sep xs
      else (case str_split sep xs of
              [] \<Rightarrow> [[x]]
            | w # ws \<Rightarrow> (x # w) # ws))"

text \<open>\<^verbatim>\<open>sep.join(parts)\<close>.\<close>

fun str_join :: "string \<Rightarrow> string list \<Rightarrow> string" where
  "str_join sep [] = []"
| "str_join sep [p] = p"
| "str_join sep (p # q # ps) = p @ sep @ str_join sep (q # ps)"

subsection \<open>Parsing specifications\<close>

definition unit_separator :: string where
  "unit_separator = '':''"

text \<open>
  \<^verbatim>\<open>
  def _split_unit_spec(self, spec):
      spec = spec + 2 * self._unit_separator
      return spec.strip().split(self._unit_separator)[:3]
  \<close>
\<close>

definition split_unit_spec :: "string \<Rightarrow> string list" where
  "split_unit_spec spec =
     take 3 (str_split (CHR '':'') (strip (spec @ unit_separator @ unit_separator)))"

text \<open>Every caller unpacks the result with \<^verbatim>\<open>form, cat, sense = ...\<close>, which raises
  ValueError unless there are exactly three fields.\<close>

fun unpack3 :: "'a list \<Rightarrow> error + ('a \<times> 'a \<times> 'a)" where
  "unpack3 [a, b, c] = Inr (a, b, c)"
| "unpack3 xs = Inl (ValueError ''unpack'')"

text \<open>
  \<^verbatim>\<open>
  def _split_rel_spec(self, spec):
      if spec[-1] in "123456789":
          name, depth = spec[:-1], int(spec[-1])
      elif spec[-1] == "+":
          name, depth  = spec[:-1], 9
      else:
          name, depth = spec, 1
      return name.upper(), depth
  \<close>
  \<^verbatim>\<open>spec[-1]\<close> raises IndexError on the empty string. \<^verbatim>\<open>int\<close> of a digit is its
  value.
\<close>

definition digit_value :: "char \<Rightarrow> int" where
  "digit_value c = (of_char c :: int) - 48"

definition split_rel_spec :: "string \<Rightarrow> error + (string \<times> int)" where
  "split_rel_spec spec =
     (if spec = [] then Inl IndexError
      else if last spec \<in> set ''123456789'' then Inr (upper (butlast spec), digit_value (last spec))
      else if last spec = CHR ''+'' then Inr (upper (butlast spec), 9)
      else Inr (upper spec, 1))"


text \<open>
  \<^verbatim>\<open>
  def _split_query(self, query):
      query = query.strip().split() + 3 * [""]
      # relation are always in upper case
      query[1] = query[1].upper()
      return query[:3]
  \<close>
  \<^verbatim>\<open>s.split()\<close> without a separator: the fields are the maximal runs of characters that
  are not white space. \<open>ws_fields w s\<close> reads \<open>s\<close> while \<open>w\<close> is the field it is in.
\<close>

fun ws_fields :: "string \<Rightarrow> string \<Rightarrow> string list" where
  "ws_fields w [] = (if w = [] then [] else [w])"
| "ws_fields w (x # xs) =
     (if isspace x then (if w = [] then ws_fields [] xs else w # ws_fields [] xs)
      else ws_fields (w @ [x]) xs)"

definition str_split_ws :: "string \<Rightarrow> string list" where
  "str_split_ws s = ws_fields [] s"

definition split_query :: "string \<Rightarrow> string \<times> string \<times> string" where
  "split_query query =
     (let q = str_split_ws (strip query) @ [[], [], []] in (q ! 0, upper (q ! 1), q ! 2))"

subsection \<open>Lexical units and the graph\<close>

text \<open>
  A lexical unit is an ElementTree element \<^verbatim>\<open><cdb_lu c_lu_id=".." c_seq_nr="..">\<close> with
  an optional \<^verbatim>\<open><form form-spelling=".." form-cat=".." count=".." subcount="..">\<close>
  child. Elements are compared and hashed by identity; the unit identifiers are unique
  (\<^verbatim>\<open>_parse_lex_units\<close> asserts it), so that identity is equality of the records.
  The attributes \<^verbatim>\<open>count\<close> and \<^verbatim>\<open>subcount\<close> are kept as the integers their text
  denotes. The truth value of an element is that of its number of children.
\<close>

record form_el =
  form_spelling :: "string option"
  form_cat :: "string option"
  count_attr :: "int option"
  subcount_attr :: "int option"

record lu =
  c_lu_id :: string
  c_seq_nr :: "string option"
  c_sy_id :: "string option"
  form_child :: "form_el option"
  other_children :: nat

definition elem_true :: "lu \<Rightarrow> bool" where
  "elem_true l = (form_child l \<noteq> None \<or> 0 < other_children l)"

text \<open>
  A synset is an element \<^verbatim>\<open><cdb_synset c_sy_id=".." d_synset_id="..">\<close> with the children
  \<^verbatim>\<open><synonyms>\<close>, a list of \<^verbatim>\<open><synonym c_lu_id="..">\<close>, and \<^verbatim>\<open><wn_internal_relations>\<close>,
  a list of \<^verbatim>\<open><relation relation_name=".." target="..">\<close>. The code reads both lists as
  \<^verbatim>\<open>synset.find(..) or []\<close>, which is the empty list for a missing child; a synonym is
  kept as its attribute \<^verbatim>\<open>c_lu_id\<close>. \<open>relation_attr\<close> is the attribute \<^verbatim>\<open>relation\<close> of a
  \<^verbatim>\<open><relation>\<close> element, which \<^verbatim>\<open>_rel_has_name\<close> and \<^verbatim>\<open>_rel_to_spec\<close> read when they are
  given such an element.
\<close>

record relation_el =
  relation_attr :: "string option"
  relation_name :: "string option"
  target :: "string option"

record synset =
  syn_c_sy_id :: "string option"
  d_synset_id :: "string option"
  synonyms :: "string option list"
  wn_internal_relations :: "relation_el list"

text \<open>An edge of the networkx MultiDiGraph as \<^verbatim>\<open>edges_iter(data=True)\<close> yields it: source,
  target and the value of the attribute \<^verbatim>\<open>relation\<close>.\<close>

type_synonym 'n edge = "'n \<times> 'n \<times> string option"

record 'n multidigraph =
  nodes :: "'n list"
  edges :: "'n edge list"

definition out_edges_iter :: "'n multidigraph \<Rightarrow> 'n list \<Rightarrow> 'n edge list" where
  "out_edges_iter g nbunch = concat (map (\<lambda>n. filter (\<lambda>e. fst e = n) (edges g)) nbunch)"

definition in_edges_iter :: "'n multidigraph \<Rightarrow> 'n list \<Rightarrow> 'n edge list" where
  "in_edges_iter g nbunch = concat (map (\<lambda>n. filter (\<lambda>e. fst (snd e) = n) (edges g)) nbunch)"

text \<open>
  \<^verbatim>\<open>
  def _rel_has_name(self, edge, name):
      return not name or edge.get("relation") == name
  \<close>
\<close>

definition rel_has_name :: "string option \<Rightarrow> string \<Rightarrow> bool" where
  "rel_has_name edge name = (name = [] \<or> edge = Some name)"

subsection \<open>Dictionaries\<close>

type_synonym ('k, 'v) dict = "('k \<times> 'v) list"

definition has_key :: "('k, 'v) dict \<Rightarrow> 'k \<Rightarrow> bool" where
  "has_key d k = (map_of d k \<noteq> None)"

definition keys :: "('k, 'v) dict \<Rightarrow> 'k set" where
  "keys d = fst ` set d"

definition fromkeys :: "'k list \<Rightarrow> 'v \<Rightarrow> ('k, 'v) dict" where
  "fromkeys ks v = foldl (\<lambda>d k. AList.update k v d) [] ks"

text \<open>\<^verbatim>\<open>d.setdefault(k, []).append(x)\<close>.\<close>

definition setdefault_append :: "'k \<Rightarrow> 'v \<Rightarrow> ('k, 'v list) dict \<Rightarrow> ('k, 'v list) dict" where
  "setdefault_append k x d =
     (case map_of d k of
        None \<Rightarrow> AList.update k [x] d
      | Some xs \<Rightarrow> AList.update k (xs @ [x]) d)"

subsection \<open>Transitive closure\<close>

text \<open>
  \<^verbatim>\<open>
  def _transitive_closure(self, lus, rel_name):
      queue = lus
      lus = dict.fromkeys(lus)
      next_queue = []
      distance = 0
      successors= {}
      while queue:
          out_edges = self._graph.out_edges_iter(queue, data=True)
          for from_lu, to_lu, edge in out_edges:
              if ( self._rel_has_name(edge, rel_name) and
                   to_lu not in successors):
                  successors[to_lu] = distance + 1
                  if to_lu not in lus:
                      next_queue.append(to_lu)
          queue, next_queue = next_queue, []
          distance += 1
      return successors
  \<close>
  \<open>closure_visit\<close> is the body of the inner loop, \<open>closure_loop\<close> the outer loop.
\<close>

definition closure_visit ::
  "string \<Rightarrow> 'n list \<Rightarrow> nat \<Rightarrow> ('n, nat) dict \<times> 'n list \<Rightarrow> 'n edge \<Rightarrow> ('n, nat) dict \<times> 'n list"
where
  "closure_visit rel_name lus distance st e =
     (case st of (successors, next_queue) \<Rightarrow>
      case e of (from_lu, to_lu, edge) \<Rightarrow>
        if rel_has_name edge rel_name \<and> \<not> has_key successors to_lu
        then (AList.update to_lu (distance + 1) successors,
              if to_lu \<notin> set lus then next_queue @ [to_lu] else next_queue)
        else (successors, next_queue))"

definition targets :: "'n multidigraph \<Rightarrow> 'n set" where
  "targets g = set (map (\<lambda>e. fst (snd e)) (edges g))"

definition sources :: "'n multidigraph \<Rightarrow> 'n set" where
  "sources g = set (map fst (edges g))"

lemma has_key_iff: "has_key d k \<longleftrightarrow> k \<in> keys d"
  by (simp add: has_key_def keys_def map_of_eq_None_iff)

lemma keys_update: "keys (AList.update k v d) = insert k (keys d)"
  by (simp add: keys_def AList.dom_update)

lemma finite_keys: "finite (keys d)"
  by (simp add: keys_def)

lemma closure_visit_keys:
  assumes "closure_visit rel_name lus distance (s, q) e = (s', q')"
  shows "keys s \<subseteq> keys s'"
    and "set q' \<subseteq> set q \<union> (keys s' - keys s)"
    and "keys s' \<subseteq> keys s \<union> {fst (snd e)}"
  using assms
  by (auto simp: closure_visit_def has_key_iff keys_update split: prod.splits if_splits)

lemma closure_fold_keys:
  assumes "foldl (closure_visit rel_name lus distance) (s, q) es = (s', q')"
  shows "keys s \<subseteq> keys s' \<and>
         set q' \<subseteq> set q \<union> (keys s' - keys s) \<and>
         keys s' \<subseteq> keys s \<union> (\<lambda>e. fst (snd e)) ` set es"
  using assms
proof (induction es arbitrary: s q)
  case Nil
  then show ?case by simp
next
  case (Cons e es)
  obtain s1 q1 where st: "closure_visit rel_name lus distance (s, q) e = (s1, q1)"
    by (cases "closure_visit rel_name lus distance (s, q) e")
  with Cons.prems have "foldl (closure_visit rel_name lus distance) (s1, q1) es = (s', q')"
    by simp
  from Cons.IH[OF this] closure_visit_keys[OF st] show ?case
    by (simp add: subset_iff) blast
qed

lemma out_edges_targets: "(\<lambda>e. fst (snd e)) ` set (out_edges_iter g ns) \<subseteq> targets g"
  by (auto simp: out_edges_iter_def targets_def)

lemma in_edges_sources: "fst ` set (in_edges_iter g ns) \<subseteq> sources g"
  by (auto simp: in_edges_iter_def sources_def)

lemma closure_step_decreases:
  assumes q: "queue \<noteq> []"
    and f: "foldl (closure_visit rel_name lus distance) (successors, [])
              (out_edges_iter g queue) = (successors', next_queue)"
  shows "2 * card (targets g - keys successors') + (if next_queue = [] then 0 else 1)
         < 2 * card (targets g - keys successors) + (if queue = [] then 0 else (1::nat))"
proof -
  note k = closure_fold_keys[OF f]
  have fin: "finite (targets g - keys successors)" by (simp add: targets_def)
  have sub: "targets g - keys successors' \<subseteq> targets g - keys successors"
    using k by blast
  have le: "card (targets g - keys successors') \<le> card (targets g - keys successors)"
    by (rule card_mono[OF fin sub])
  have lt: "card (targets g - keys successors') < card (targets g - keys successors)"
    if "next_queue \<noteq> []"
  proof -
    from that obtain v where v: "v \<in> set next_queue" by (cases next_queue) auto
    with k have v1: "v \<in> keys successors'" and v2: "v \<notin> keys successors" by auto
    with k out_edges_targets[of g queue] have v3: "v \<in> targets g" by blast
    have "targets g - keys successors' \<subset> targets g - keys successors"
      using sub v1 v2 v3 by blast
    then show ?thesis by (rule psubset_card_mono[OF fin])
  qed
  show ?thesis using q le lt by (cases "next_queue = []") auto
qed

function closure_loop ::
  "'n multidigraph \<Rightarrow> string \<Rightarrow> 'n list \<Rightarrow> 'n list \<Rightarrow> nat \<Rightarrow> ('n, nat) dict \<Rightarrow> ('n, nat) dict"
where
  "closure_loop g rel_name lus queue distance successors =
     (if queue = [] then successors
      else (case foldl (closure_visit rel_name lus distance) (successors, [])
                   (out_edges_iter g queue) of
              (successors', next_queue) \<Rightarrow>
                closure_loop g rel_name lus next_queue (distance + 1) successors'))"
  by pat_completeness auto
termination
proof (relation "measure (\<lambda>(g, rel_name, lus, queue, distance, successors).
          2 * card (targets g - keys successors) + (if queue = [] then 0 else 1))")
  fix g :: "'n multidigraph" and rel_name lus queue distance successors x y
  assume "queue \<noteq> []"
    and "(x, y) = foldl (closure_visit rel_name lus distance) (successors, [])
                    (out_edges_iter g queue)"
  then show "((g, rel_name, lus, y, distance + 1, x), g, rel_name, lus, queue, distance, successors)
        \<in> measure (\<lambda>(g, rel_name, lus, queue, distance, successors).
          2 * card (targets g - keys successors) + (if queue = [] then 0 else 1))"
    using closure_step_decreases[of queue rel_name lus distance successors g x y] by simp
qed simp

definition transitive_closure :: "'n multidigraph \<Rightarrow> 'n list \<Rightarrow> string \<Rightarrow> ('n, nat) dict" where
  "transitive_closure g lus rel_name = closure_loop g rel_name lus lus 0 []"


subsection \<open>Bidirectional shortest path\<close>

text \<open>
  \<^verbatim>\<open>
  def _bidirectional_shortest_path(self, from_lus, to_lus, rel_name, depth):
      pred = dict.fromkeys(from_lus, (None, None))
      succ = dict.fromkeys(to_lus, (None, None))
      for lu in from_lus:
          if lu in succ:
              return None, lu, None
      forward_fringe = list(from_lus)
      reverse_fringe = list(to_lus)
      level = 0
      while forward_fringe and reverse_fringe and level != depth:
          this_level = forward_fringe
          forward_fringe = []
          out_edges = self._graph.out_edges_iter(this_level, data=True)
          for from_lu, to_lu, edge in out_edges:
              if self._rel_has_name(edge, rel_name):
                  if to_lu not in pred: # prevent cycles
                      forward_fringe.append(to_lu)
                      pred[to_lu] = (from_lu, edge)
                  if to_lu in succ:  return pred, to_lu, succ # found path
          level += 1
          if level == depth: break # max search depth reached
          this_level = reverse_fringe
          reverse_fringe = []
          in_edges = self._graph.in_edges_iter(this_level, data=True)
          for from_lu, to_lu, edge in in_edges:
              if self._rel_has_name(edge, rel_name):
                  if from_lu not in succ:
                      succ[from_lu] = (to_lu, edge)
                      reverse_fringe.append(from_lu)
                  if from_lu in pred:  return pred, from_lu, succ # found path
          level += 1
      return None, None, None  # no path found
  \<close>
  A value of \<^verbatim>\<open>pred\<close> or \<^verbatim>\<open>succ\<close> is \<^verbatim>\<open>(None, None)\<close>, here \<open>None\<close>, or a unit with
  the edge that leads to it. The two inner loops are folds whose state is \<open>Inl\<close> once the
  loop has returned.
\<close>

type_synonym 'n links = "('n, ('n \<times> string option) option) dict"

definition forward_visit ::
  "string \<Rightarrow> 'n links \<Rightarrow> ('n links \<times> 'n) + ('n links \<times> 'n list) \<Rightarrow> 'n edge
     \<Rightarrow> ('n links \<times> 'n) + ('n links \<times> 'n list)"
where
  "forward_visit rel_name succ st e =
     (case st of
        Inl r \<Rightarrow> Inl r
      | Inr (pred, forward_fringe) \<Rightarrow>
          (case e of (from_lu, to_lu, edge) \<Rightarrow>
             if rel_has_name edge rel_name then
               (case (if \<not> has_key pred to_lu
                      then (AList.update to_lu (Some (from_lu, edge)) pred, forward_fringe @ [to_lu])
                      else (pred, forward_fringe)) of
                  (pred', forward_fringe') \<Rightarrow>
                    if has_key succ to_lu then Inl (pred', to_lu)
                    else Inr (pred', forward_fringe'))
             else Inr (pred, forward_fringe)))"

definition reverse_visit ::
  "string \<Rightarrow> 'n links \<Rightarrow> ('n links \<times> 'n) + ('n links \<times> 'n list) \<Rightarrow> 'n edge
     \<Rightarrow> ('n links \<times> 'n) + ('n links \<times> 'n list)"
where
  "reverse_visit rel_name pred st e =
     (case st of
        Inl r \<Rightarrow> Inl r
      | Inr (succ, reverse_fringe) \<Rightarrow>
          (case e of (from_lu, to_lu, edge) \<Rightarrow>
             if rel_has_name edge rel_name then
               (case (if \<not> has_key succ from_lu
                      then (AList.update from_lu (Some (to_lu, edge)) succ, reverse_fringe @ [from_lu])
                      else (succ, reverse_fringe)) of
                  (succ', reverse_fringe') \<Rightarrow>
                    if has_key pred from_lu then Inl (succ', from_lu)
                    else Inr (succ', reverse_fringe'))
             else Inr (succ, reverse_fringe)))"

lemma forward_visit_keys:
  assumes "forward_visit rel_name succ (Inr (p, q)) e = Inr (p', q')"
  shows "keys p \<subseteq> keys p'"
    and "set q' \<subseteq> set q \<union> (keys p' - keys p)"
    and "keys p' \<subseteq> keys p \<union> {fst (snd e)}"
  using assms
  by (auto simp: forward_visit_def has_key_iff keys_update split: prod.splits if_splits)

lemma forward_fold_Inl: "foldl (forward_visit rel_name succ) (Inl r) es = Inl r"
  by (induction es) (simp_all add: forward_visit_def)

lemma forward_fold_keys:
  assumes "foldl (forward_visit rel_name succ) (Inr (p, q)) es = Inr (p', q')"
  shows "keys p \<subseteq> keys p' \<and>
         set q' \<subseteq> set q \<union> (keys p' - keys p) \<and>
         keys p' \<subseteq> keys p \<union> (\<lambda>e. fst (snd e)) ` set es"
  using assms
proof (induction es arbitrary: p q)
  case Nil
  then show ?case by simp
next
  case (Cons e es)
  show ?case
  proof (cases "forward_visit rel_name succ (Inr (p, q)) e")
    case (Inl r)
    with Cons.prems show ?thesis by (simp add: forward_fold_Inl)
  next
    case (Inr st)
    obtain p1 q1 where st: "st = (p1, q1)" by (cases st)
    with Inr Cons.prems have "foldl (forward_visit rel_name succ) (Inr (p1, q1)) es = Inr (p', q')"
      by simp
    from Cons.IH[OF this] forward_visit_keys[OF Inr[unfolded st]] show ?thesis
      by (simp add: subset_iff) blast
  qed
qed

lemma forward_step_decreases:
  assumes q: "forward_fringe \<noteq> []"
    and f: "foldl (forward_visit rel_name succ) (Inr (pred, []))
              (out_edges_iter g forward_fringe) = Inr (pred', forward_fringe')"
  shows "2 * card (targets g - keys pred') + (if forward_fringe' = [] then 0 else 1)
         < 2 * card (targets g - keys pred) + (if forward_fringe = [] then 0 else (1::nat))"
proof -
  note k = forward_fold_keys[OF f]
  have fin: "finite (targets g - keys pred)" by (simp add: targets_def)
  have sub: "targets g - keys pred' \<subseteq> targets g - keys pred"
    using k by blast
  have le: "card (targets g - keys pred') \<le> card (targets g - keys pred)"
    by (rule card_mono[OF fin sub])
  have lt: "card (targets g - keys pred') < card (targets g - keys pred)"
    if "forward_fringe' \<noteq> []"
  proof -
    from that obtain v where v: "v \<in> set forward_fringe'" by (cases forward_fringe') auto
    with k have v1: "v \<in> keys pred'" and v2: "v \<notin> keys pred" by auto
    with k out_edges_targets[of g forward_fringe] have v3: "v \<in> targets g" by blast
    have "targets g - keys pred' \<subset> targets g - keys pred"
      using sub v1 v2 v3 by blast
    then show ?thesis by (rule psubset_card_mono[OF fin])
  qed
  show ?thesis using q le lt by (cases "forward_fringe' = []") auto
qed

function bidir_loop ::
  "'n multidigraph \<Rightarrow> string \<Rightarrow> int \<Rightarrow> 'n links \<Rightarrow> 'n links \<Rightarrow> 'n list \<Rightarrow> 'n list \<Rightarrow> int
     \<Rightarrow> 'n links option \<times> 'n option \<times> 'n links option"
where
  "bidir_loop g rel_name depth pred succ forward_fringe reverse_fringe level =
     (if forward_fringe \<noteq> [] \<and> reverse_fringe \<noteq> [] \<and> level \<noteq> depth then
        (case foldl (forward_visit rel_name succ) (Inr (pred, []))
                (out_edges_iter g forward_fringe) of
           Inl (pred', w) \<Rightarrow> (Some pred', Some w, Some succ)
         | Inr (pred', forward_fringe') \<Rightarrow>
             if level + 1 = depth then (None, None, None)
             else (case foldl (reverse_visit rel_name pred') (Inr (succ, []))
                          (in_edges_iter g reverse_fringe) of
                     Inl (succ', w) \<Rightarrow> (Some pred', Some w, Some succ')
                   | Inr (succ', reverse_fringe') \<Rightarrow>
                       bidir_loop g rel_name depth pred' succ' forward_fringe' reverse_fringe'
                         (level + 2)))
      else (None, None, None))"
  by pat_completeness auto
termination
proof (relation "measure (\<lambda>(g, rel_name, depth, pred, succ, forward_fringe, reverse_fringe, level).
          2 * card (targets g - keys pred) + (if forward_fringe = [] then 0 else 1))")
  fix g :: "'n multidigraph" and rel_name :: string and depth level :: int
    and pred succ x xa :: "'n links" and forward_fringe reverse_fringe y ya :: "'n list"
    and x2 x2a :: "'n links \<times> 'n list"
  assume "forward_fringe \<noteq> [] \<and> reverse_fringe \<noteq> [] \<and> level \<noteq> depth"
    and "foldl (forward_visit rel_name succ) (Inr (pred, [])) (out_edges_iter g forward_fringe) = Inr x2"
    and "(x, y) = x2"
  then show "((g, rel_name, depth, x, xa, y, ya, level + 2), g, rel_name, depth, pred, succ,
              forward_fringe, reverse_fringe, level)
        \<in> measure (\<lambda>(g, rel_name, depth, pred, succ, forward_fringe, reverse_fringe, level).
          2 * card (targets g - keys pred) + (if forward_fringe = [] then 0 else 1))"
    using forward_step_decreases[of forward_fringe rel_name succ pred g x y] by auto
qed simp

definition bidirectional_shortest_path ::
  "'n multidigraph \<Rightarrow> 'n list \<Rightarrow> 'n list \<Rightarrow> string \<Rightarrow> int
     \<Rightarrow> 'n links option \<times> 'n option \<times> 'n links option"
where
  "bidirectional_shortest_path g from_lus to_lus rel_name depth =
     (let pred = fromkeys from_lus None;
          succ = fromkeys to_lus None
      in case find (\<lambda>lu. has_key succ lu) from_lus of
           Some lu \<Rightarrow> (None, Some lu, None)
         | None \<Rightarrow> bidir_loop g rel_name depth pred succ from_lus to_lus 0)"


subsection \<open>The Cornet instance and output formatting\<close>

text \<open>
  The fields of a \<^verbatim>\<open>Cornet\<close> (and \<^verbatim>\<open>SimCornet\<close>) instance that the operations below
  read. \<^verbatim>\<open>_form2lu\<close>, \<^verbatim>\<open>_c_lu_id2lu\<close>, \<^verbatim>\<open>_c_sy_id2synset\<close> and \<^verbatim>\<open>_cat2counts\<close> are only
  looked up by key.
\<close>

record cornet =
  form2lu :: "string \<rightharpoonup> lu list"
  c_lu_id2lu :: "string \<rightharpoonup> lu"
  c_sy_id2synset :: "string \<rightharpoonup> synset"
  graph :: "lu multidigraph"
  output_format :: string
  max_depth :: int
  cat2counts :: "string \<rightharpoonup> int"

text \<open>
  What a formatter returns: a string, \<^verbatim>\<open>None\<close>, the serialisation of a unit by
  ElementTree's \<^verbatim>\<open>tostring\<close> (kept as the unit it serialises), a unit itself, or the
  attribute dictionary of an edge.
\<close>

datatype out =
    OutStr string
  | OutNone
  | OutXml lu
  | OutLu lu
  | OutEdge "string option"

definition get_lu_form :: "lu \<Rightarrow> string" where
  "get_lu_form l =
     (case form_child l of None \<Rightarrow> []
      | Some f \<Rightarrow> (case form_spelling f of None \<Rightarrow> [] | Some s \<Rightarrow> s))"

definition get_lu_cat :: "lu \<Rightarrow> string" where
  "get_lu_cat l =
     (case form_child l of None \<Rightarrow> []
      | Some f \<Rightarrow> (case form_cat f of None \<Rightarrow> [] | Some s \<Rightarrow> s))"

definition get_lu_sense :: "lu \<Rightarrow> string" where
  "get_lu_sense l = (case c_seq_nr l of None \<Rightarrow> [] | Some s \<Rightarrow> s)"

text \<open>
  \<^verbatim>\<open>
  def _lu_has_cat(self, lu, cat):
      try:
          return not cat or lu.find("form").get("form-cat").lower() == cat
      except AttributeError:
          return ""
  def _lu_has_sense(self, lu, sense):
      return not sense or lu.get("c_seq_nr") == sense
  \<close>
\<close>

definition lu_has_cat :: "lu \<Rightarrow> string \<Rightarrow> bool" where
  "lu_has_cat l cat =
     (cat = [] \<or>
      (case form_child l of None \<Rightarrow> False
       | Some f \<Rightarrow> (case form_cat f of None \<Rightarrow> False | Some s \<Rightarrow> lower s = cat)))"

definition lu_has_sense :: "lu \<Rightarrow> string \<Rightarrow> bool" where
  "lu_has_sense l sense = (sense = [] \<or> c_seq_nr l = Some sense)"

definition lu_to_spec :: "lu \<Rightarrow> string" where
  "lu_to_spec l = str_join unit_separator [get_lu_form l, get_lu_cat l, get_lu_sense l]"

text \<open>\<^verbatim>\<open>if not format: format = self._output_format\<close>: \<^verbatim>\<open>None\<close> and the empty string
  select the default of the instance.\<close>

definition selected_format :: "cornet \<Rightarrow> string option \<Rightarrow> string" where
  "selected_format c fmt =
     (case fmt of None \<Rightarrow> output_format c
      | Some f \<Rightarrow> if f = [] then output_format c else f)"

text \<open>
  \<^verbatim>\<open>
  def _get_lex_unit_formatter(self, format=None):
      if not format: format = self._output_format
      if format == "spec":
          return self._lu_to_spec
      elif format == "xml":
          return tostring
      elif format == "raw":
          return lambda lu: lu
      else:
          raise ValueError("unknown output format: " + format)
  \<close>
\<close>

definition unknown_format :: "string \<Rightarrow> error" where
  "unknown_format f = ValueError (''unknown output format: '' @ f)"

definition get_lex_unit_formatter :: "cornet \<Rightarrow> string option \<Rightarrow> error + (lu \<Rightarrow> out)" where
  "get_lex_unit_formatter c fmt =
     (let f = selected_format c fmt in
      if f = ''spec'' then Inr (\<lambda>l. OutStr (lu_to_spec l))
      else if f = ''xml'' then Inr OutXml
      else if f = ''raw'' then Inr OutLu
      else Inl (unknown_format f))"

text \<open>
  \<^verbatim>\<open>
  def _get_relation_formatter(self, format=None):
      if not format: format = self._output_format
      if format == "xml":
          return tostring
      elif format == "spec":
          return self._rel_to_spec
      elif format == "raw":
          return lambda lu: lu
      else:
          raise ValueError("unknown output format: " + format)
  def _rel_to_spec(self, edge):
      return edge.get("relation")
  \<close>
  The argument of a relation formatter is the attribute dictionary of an edge, or
  \<^verbatim>\<open>None\<close>. \<^verbatim>\<open>tostring\<close> serialises elements: on a dictionary or on \<^verbatim>\<open>None\<close> it raises
  AttributeError, as \<^verbatim>\<open>None.get\<close> does.
\<close>

definition rel_to_spec :: "string option option \<Rightarrow> error + out" where
  "rel_to_spec edge =
     (case edge of None \<Rightarrow> Inl AttributeError
      | Some r \<Rightarrow> Inr (case r of None \<Rightarrow> OutNone | Some s \<Rightarrow> OutStr s))"

definition rel_raw :: "string option option \<Rightarrow> error + out" where
  "rel_raw edge = Inr (case edge of None \<Rightarrow> OutNone | Some r \<Rightarrow> OutEdge r)"

definition get_relation_formatter ::
  "cornet \<Rightarrow> string option \<Rightarrow> error + (string option option \<Rightarrow> error + out)"
where
  "get_relation_formatter c fmt =
     (let f = selected_format c fmt in
      if f = ''xml'' then Inr (\<lambda>edge. Inl AttributeError)
      else if f = ''spec'' then Inr rel_to_spec
      else if f = ''raw'' then Inr rel_raw
      else Inl (unknown_format f))"

text \<open>
  \<^verbatim>\<open>
  def set_max_depth(self, max_depth=_default_max_depth):
      if 0 < max_depth < 10:
          self._max_depth = max_depth
      else:
          raise ValueError(...)
  \<close>
\<close>

definition default_max_depth :: int where
  "default_max_depth = 9"


subsection \<open>Operations with a log of the search work\<close>

text \<open>
  A public operation returns or raises; next to its result the model keeps the sequence
  of index lookups and graph searches the operation has started, in the order the code
  starts them: the lookups of a form in \<^verbatim>\<open>_form2lu\<close>, of a unit identifier in
  \<^verbatim>\<open>_c_lu_id2lu\<close> and of a synset identifier in \<^verbatim>\<open>_c_sy_id2synset\<close> (the identifier is
  \<open>None\<close> where the code looks up an attribute that is missing), and the three searches
  of the graph.
\<close>

datatype event =
    FormLookup string
  | UnitLookup "string option"
  | SynsetLookup "string option"
  | ClosureSearch
  | PathSearch
  | RelatedSearch

type_synonym 'a traced = "event list \<times> (error + 'a)"

definition ret :: "'a \<Rightarrow> 'a traced" where
  "ret x = ([], Inr x)"

definition lift :: "error + 'a \<Rightarrow> 'a traced" where
  "lift r = ([], r)"

definition emit :: "event \<Rightarrow> 'a \<Rightarrow> 'a traced" where
  "emit ev x = ([ev], Inr x)"

definition tbind :: "'a traced \<Rightarrow> ('a \<Rightarrow> 'b traced) \<Rightarrow> 'b traced" where
  "tbind m f =
     (case m of
        (t, Inl e) \<Rightarrow> (t, Inl e)
      | (t, Inr x) \<Rightarrow> (case f x of (t', r) \<Rightarrow> (t @ t', r)))"

text \<open>The units among formatted values (the values of format \<^verbatim>\<open>raw\<close>).\<close>

definition raw_lus :: "out list \<Rightarrow> lu list" where
  "raw_lus xs = List.map_filter (\<lambda>x. case x of OutLu l \<Rightarrow> Some l | _ \<Rightarrow> None) xs"

text \<open>
  \<^verbatim>\<open>
  def get_lex_units(self, spec, format=None):
      form, cat, sense = self._split_unit_spec(spec)
      formatter = self._get_lex_unit_formatter(format)
      return [ formatter(lu)
               for lu in self._form2lu.get(form, [])
               if ( self._lu_has_cat(lu, cat) and
                    self._lu_has_sense(lu, sense) ) ]
  \<close>
\<close>

definition get_lex_units :: "cornet \<Rightarrow> string \<Rightarrow> string option \<Rightarrow> out list traced" where
  "get_lex_units c spec fmt =
     tbind (lift (unpack3 (split_unit_spec spec))) (\<lambda>(frm, cat, sense).
     tbind (lift (get_lex_unit_formatter c fmt)) (\<lambda>formatter.
     tbind (emit (FormLookup frm) (case form2lu c frm of None \<Rightarrow> [] | Some ls \<Rightarrow> ls)) (\<lambda>ls.
     ret (map formatter (filter (\<lambda>l. lu_has_cat l cat \<and> lu_has_sense l sense) ls)))))"


subsection \<open>Reconstructing the path\<close>

text \<open>
  \<^verbatim>\<open>
  def _reconstruct_path(self,  pred, common_lu, succ, format=None):
      lu_formatter = self._get_lex_unit_formatter(format)
      rel_formatter = self._get_relation_formatter(format)
      if not pred and not succ:
          if common_lu:
              return [lu_formatter(common_lu)]
          else:
              return []
      path = []
      lu = common_lu
      while lu is not None:
          path.append(lu_formatter(lu))
          lu, edge = succ[lu]
          if edge is not None:
              path.append(rel_formatter(edge))
      lu, edge = pred[common_lu]
      path.insert(0, rel_formatter(edge))
      while lu is not None:
          path.insert(0, lu_formatter(lu))
          lu, edge = pred[lu]
          if edge is not None:
              path.insert(0, rel_formatter(edge))
      return path
  \<close>
  The two \<^verbatim>\<open>while\<close> loops follow the links of a dictionary and do not return when the
  links run in a circle. They are given as many steps as the dictionary has entries, and
  two more: links that are followed for longer have come back to an entry. The value
  \<open>None\<close> of the model is a loop that does not return.
\<close>

fun succ_walk ::
  "nat \<Rightarrow> lu links \<Rightarrow> (lu \<Rightarrow> out) \<Rightarrow> (string option option \<Rightarrow> error + out)
     \<Rightarrow> lu option \<Rightarrow> out list \<Rightarrow> (error + out list) option"
where
  "succ_walk 0 succ lu_formatter rel_formatter lu path = None"
| "succ_walk (Suc n) succ lu_formatter rel_formatter lu path =
     (case lu of
        None \<Rightarrow> Some (Inr path)
      | Some l \<Rightarrow>
          (case map_of succ l of
             None \<Rightarrow> Some (Inl KeyError)
           | Some None \<Rightarrow> succ_walk n succ lu_formatter rel_formatter None (path @ [lu_formatter l])
           | Some (Some (l', edge)) \<Rightarrow>
               (case rel_formatter (Some edge) of
                  Inl e \<Rightarrow> Some (Inl e)
                | Inr r \<Rightarrow>
                    succ_walk n succ lu_formatter rel_formatter (Some l')
                      (path @ [lu_formatter l, r]))))"

fun pred_walk ::
  "nat \<Rightarrow> lu links \<Rightarrow> (lu \<Rightarrow> out) \<Rightarrow> (string option option \<Rightarrow> error + out)
     \<Rightarrow> lu option \<Rightarrow> out list \<Rightarrow> (error + out list) option"
where
  "pred_walk 0 pred lu_formatter rel_formatter lu path = None"
| "pred_walk (Suc n) pred lu_formatter rel_formatter lu path =
     (case lu of
        None \<Rightarrow> Some (Inr path)
      | Some l \<Rightarrow>
          (case map_of pred l of
             None \<Rightarrow> Some (Inl KeyError)
           | Some None \<Rightarrow> pred_walk n pred lu_formatter rel_formatter None (lu_formatter l # path)
           | Some (Some (l', edge)) \<Rightarrow>
               (case rel_formatter (Some edge) of
                  Inl e \<Rightarrow> Some (Inl e)
                | Inr r \<Rightarrow>
                    pred_walk n pred lu_formatter rel_formatter (Some l')
                      (r # lu_formatter l # path))))"

definition falsy_dict :: "('k, 'v) dict option \<Rightarrow> bool" where
  "falsy_dict d = (case d of None \<Rightarrow> True | Some al \<Rightarrow> al = [])"

definition reconstruct_path ::
  "cornet \<Rightarrow> lu links option \<Rightarrow> lu option \<Rightarrow> lu links option \<Rightarrow> string option
     \<Rightarrow> (error + out list) option"
where
  "reconstruct_path c pred common_lu succ fmt =
     (case get_lex_unit_formatter c fmt of
        Inl e \<Rightarrow> Some (Inl e)
      | Inr lu_formatter \<Rightarrow>
     (case get_relation_formatter c fmt of
        Inl e \<Rightarrow> Some (Inl e)
      | Inr rel_formatter \<Rightarrow>
          if falsy_dict pred \<and> falsy_dict succ then
            (case common_lu of
               None \<Rightarrow> Some (Inr [])
             | Some l \<Rightarrow> if elem_true l then Some (Inr [lu_formatter l]) else Some (Inr []))
          else
            (case (case common_lu of
                     None \<Rightarrow> Some (Inr [])
                   | Some l \<Rightarrow>
                       (case succ of
                          None \<Rightarrow> Some (Inl TypeError)
                        | Some sd \<Rightarrow>
                            succ_walk (length sd + 2) sd lu_formatter rel_formatter (Some l) [])) of
               None \<Rightarrow> None
             | Some (Inl e) \<Rightarrow> Some (Inl e)
             | Some (Inr path) \<Rightarrow>
                 (case pred of
                    None \<Rightarrow> Some (Inl TypeError)
                  | Some pd \<Rightarrow>
                      (case common_lu of
                         None \<Rightarrow> Some (Inl KeyError)
                       | Some l \<Rightarrow>
                           (case map_of pd l of
                              None \<Rightarrow> Some (Inl KeyError)
                            | Some None \<Rightarrow>
                                (case rel_formatter None of
                                   Inl e \<Rightarrow> Some (Inl e)
                                 | Inr r \<Rightarrow> Some (Inr (r # path)))
                            | Some (Some (l', edge)) \<Rightarrow>
                                (case rel_formatter (Some edge) of
                                   Inl e \<Rightarrow> Some (Inl e)
                                 | Inr r \<Rightarrow>
                                     pred_walk (length pd + 2) pd lu_formatter rel_formatter
                                       (Some l') (r # path))))))))"

text \<open>
  \<^verbatim>\<open>
  def test_lex_units_relation(self, from_lu_spec, rel_spec, to_lu_spec, format=None):
      rel_name, depth = self._split_rel_spec(rel_spec)
      from_lus = self.get_lex_units(from_lu_spec, format="raw")
      to_lus = self.get_lex_units(to_lu_spec, format="raw")
      pred, common_lu, succ = self._bidirectional_shortest_path(from_lus, to_lus, rel_name, depth)
      path = self._reconstruct_path(pred, common_lu, succ, format)
      return path
  \<close>
\<close>

definition test_lex_units_relation ::
  "cornet \<Rightarrow> string \<Rightarrow> string \<Rightarrow> string \<Rightarrow> string option
     \<Rightarrow> event list \<times> (error + out list) option"
where
  "test_lex_units_relation c from_lu_spec rel_spec to_lu_spec fmt =
     (case tbind (lift (split_rel_spec rel_spec)) (\<lambda>(rel_name, depth).
           tbind (get_lex_units c from_lu_spec (Some ''raw'')) (\<lambda>from_lus.
           tbind (get_lex_units c to_lu_spec (Some ''raw'')) (\<lambda>to_lus.
           emit PathSearch
             (bidirectional_shortest_path (graph c) (raw_lus from_lus) (raw_lus to_lus)
                rel_name depth)))) of
        (t, Inl e) \<Rightarrow> (t, Some (Inl e))
      | (t, Inr (pred, common_lu, succ)) \<Rightarrow> (t, reconstruct_path c pred common_lu succ fmt))"

subsection \<open>Related lexical units\<close>

text \<open>The nested dictionaries that \<^verbatim>\<open>get_related_lex_units\<close> returns: relation, then
  related unit, then the related units of that unit.\<close>

datatype reltree = RelTree "(out \<times> (out \<times> reltree) list) list"

text \<open>A dictionary (the value of format \<^verbatim>\<open>raw\<close> for a relation) is not hashable and
  cannot be a key.\<close>

definition hashable :: "out \<Rightarrow> bool" where
  "hashable x = (case x of OutEdge r \<Rightarrow> False | _ \<Rightarrow> True)"

text \<open>
  \<^verbatim>\<open>
  try:
      from_lu_related[rel_repr][to_lu_repr] = to_lu_related
  except KeyError:
      from_lu_related[rel_repr] = {to_lu_repr: to_lu_related}
  \<close>
\<close>

definition add_related ::
  "out \<Rightarrow> out \<Rightarrow> reltree \<Rightarrow> (out, (out, reltree) dict) dict
     \<Rightarrow> error + (out, (out, reltree) dict) dict"
where
  "add_related rel_repr to_lu_repr to_lu_related from_lu_related =
     (if \<not> hashable rel_repr then Inl TypeError
      else (case map_of from_lu_related rel_repr of
              Some inner \<Rightarrow>
                Inr (AList.update rel_repr (AList.update to_lu_repr to_lu_related inner)
                       from_lu_related)
            | None \<Rightarrow>
                Inr (AList.update rel_repr [(to_lu_repr, to_lu_related)] from_lu_related)))"

text \<open>
  \<^verbatim>\<open>
  def _search_related_lex_units(self, from_lu, rel_name, depth, lu_formatter,
                                rel_formatter, path=[]):
      from_lu_related = {}
      if len(path) <= depth:
          for from_lu, to_lu, edge in self._graph.out_edges_iter(from_lu, data=True):
              if ( to_lu not in path and
                   self._rel_has_name(edge, rel_name)):
                  to_lu_related = \
                  self._search_related_lex_units(to_lu, rel_name, depth,
                                                 lu_formatter, rel_formatter,
                                                 path + [to_lu])
                  to_lu_repr = lu_formatter(to_lu)
                  rel_repr = rel_formatter(edge)
                  try:
                      from_lu_related[rel_repr][to_lu_repr] = to_lu_related
                  except KeyError:
                      from_lu_related[rel_repr] = {to_lu_repr: to_lu_related}
      return from_lu_related
  \<close>
\<close>

function search_related_lex_units ::
  "lu multidigraph \<Rightarrow> lu \<Rightarrow> string \<Rightarrow> int \<Rightarrow> (lu \<Rightarrow> out)
     \<Rightarrow> (string option option \<Rightarrow> error + out) \<Rightarrow> lu list \<Rightarrow> error + reltree"
where
  "search_related_lex_units g from_lu rel_name depth lu_formatter rel_formatter path =
     (if int (length path) \<le> depth then
        (case foldl
                (\<lambda>acc e.
                   case acc of
                     Inl err \<Rightarrow> Inl err
                   | Inr from_lu_related \<Rightarrow>
                       if fst (snd e) \<notin> set path \<and> rel_has_name (snd (snd e)) rel_name then
                         (case search_related_lex_units g (fst (snd e)) rel_name depth
                                 lu_formatter rel_formatter (path @ [fst (snd e)]) of
                            Inl err \<Rightarrow> Inl err
                          | Inr to_lu_related \<Rightarrow>
                              (case rel_formatter (Some (snd (snd e))) of
                                 Inl err \<Rightarrow> Inl err
                               | Inr rel_repr \<Rightarrow>
                                   add_related rel_repr (lu_formatter (fst (snd e)))
                                     to_lu_related from_lu_related))
                       else Inr from_lu_related)
                (Inr []) (out_edges_iter g [from_lu]) of
           Inl err \<Rightarrow> Inl err
         | Inr from_lu_related \<Rightarrow> Inr (RelTree from_lu_related))
      else Inr (RelTree []))"
  by pat_completeness auto
termination
  by (relation "measure (\<lambda>(g, from_lu, rel_name, depth, lu_formatter, rel_formatter, path).
          nat (depth + 1 - int (length path)))") auto


text \<open>
  \<^verbatim>\<open>
  def get_related_lex_units(self, lu_spec, rel_spec, format=None):
      rel_name, depth = self._split_rel_spec(rel_spec)
      if not rel_name:
          if rel_spec == "+":
              # silently change to max allowed search depth
              depth = self._max_depth
          elif depth > self._max_depth:
              raise ValueError(...)
      lu_formatter = self._get_lex_unit_formatter(format)
      rel_formatter = self._get_relation_formatter(format)
      related_lus = {}
      for from_lu in self.get_lex_units(lu_spec, format="raw"):
          from_lu_repr = lu_formatter(from_lu)
          related_lus[from_lu_repr] = \
          self._search_related_lex_units(from_lu, rel_name, depth,
                                         lu_formatter, rel_formatter, [from_lu])
      return related_lus
  \<close>
  \<open>related_loop\<close> is the \<^verbatim>\<open>for\<close> loop, \<open>related_lex_units_from\<close> the function from the
  line that fetches the formatters on, with the relation name and the depth it has
  settled on.
\<close>

fun related_loop ::
  "cornet \<Rightarrow> string \<Rightarrow> int \<Rightarrow> (lu \<Rightarrow> out) \<Rightarrow> (string option option \<Rightarrow> error + out)
     \<Rightarrow> lu list \<Rightarrow> (out, reltree) dict \<Rightarrow> (out, reltree) dict traced"
where
  "related_loop c rel_name depth lu_formatter rel_formatter [] related_lus = ret related_lus"
| "related_loop c rel_name depth lu_formatter rel_formatter (from_lu # rest) related_lus =
     tbind (emit RelatedSearch
              (search_related_lex_units (graph c) from_lu rel_name depth lu_formatter
                 rel_formatter [from_lu])) (\<lambda>r.
     tbind (lift r) (\<lambda>related.
     related_loop c rel_name depth lu_formatter rel_formatter rest
       (AList.update (lu_formatter from_lu) related related_lus)))"

definition related_lex_units_from ::
  "cornet \<Rightarrow> string \<Rightarrow> string \<Rightarrow> int \<Rightarrow> string option \<Rightarrow> (out, reltree) dict traced"
where
  "related_lex_units_from c lu_spec rel_name depth fmt =
     tbind (lift (get_lex_unit_formatter c fmt)) (\<lambda>lu_formatter.
     tbind (lift (get_relation_formatter c fmt)) (\<lambda>rel_formatter.
     tbind (get_lex_units c lu_spec (Some ''raw'')) (\<lambda>from_lus.
     related_loop c rel_name depth lu_formatter rel_formatter (raw_lus from_lus) [])))"

definition get_related_lex_units ::
  "cornet \<Rightarrow> string \<Rightarrow> string \<Rightarrow> string option \<Rightarrow> (out, reltree) dict traced"
where
  "get_related_lex_units c lu_spec rel_spec fmt =
     tbind (lift (split_rel_spec rel_spec)) (\<lambda>(rel_name, depth).
     tbind (lift (if rel_name = [] then
                    (if rel_spec = ''+'' then Inr (max_depth c)
                     else if depth > max_depth c
                       then Inl (ValueError ''requested search depth is larger than maximum search depth'')
                       else Inr depth)
                  else Inr depth)) (\<lambda>depth'.
     related_lex_units_from c lu_spec rel_name depth' fmt))"

subsection \<open>Queries\<close>

text \<open>
  \<^verbatim>\<open>
  def ask(self, query, format=None):
      from_spec, rel, to_spec = self._split_query(query)
      if to_spec:
          return self.test_lex_units_relation(from_spec, rel, to_spec, format)
      elif rel:
          return self.get_related_lex_units(from_spec, rel, format)
      else:
          return self.get_lex_units(from_spec, format)
  \<close>
\<close>

datatype answer =
    Units "out list"
  | Related "(out, reltree) dict"
  | Path "out list"

definition ask :: "cornet \<Rightarrow> string \<Rightarrow> string option \<Rightarrow> event list \<times> (error + answer) option" where
  "ask c query fmt =
     (case split_query query of
        (from_spec, rel, to_spec) \<Rightarrow>
          if to_spec \<noteq> [] then
            (case test_lex_units_relation c from_spec rel to_spec fmt of
               (t, None) \<Rightarrow> (t, None)
             | (t, Some (Inl e)) \<Rightarrow> (t, Some (Inl e))
             | (t, Some (Inr path)) \<Rightarrow> (t, Some (Inr (Path path))))
          else if rel \<noteq> [] then
            (case get_related_lex_units c from_spec rel fmt of
               (t, Inl e) \<Rightarrow> (t, Some (Inl e))
             | (t, Inr related) \<Rightarrow> (t, Some (Inr (Related related))))
          else
            (case get_lex_units c from_spec fmt of
               (t, Inl e) \<Rightarrow> (t, Some (Inl e))
             | (t, Inr us) \<Rightarrow> (t, Some (Inr (Units us)))))"

subsection \<open>Synsets\<close>

text \<open>
  \<^verbatim>\<open>self._c_lu_id2lu[key]\<close> and \<^verbatim>\<open>self._c_sy_id2synset[key]\<close> for a key that is the value of
  an attribute, \<^verbatim>\<open>None\<close> when the attribute is missing. \<^verbatim>\<open>None\<close> is not a key of these
  dictionaries (the parser enters identifiers that are not empty); the result \<open>None\<close> is the
  KeyError.
\<close>

definition lu_by_id :: "cornet \<Rightarrow> string option \<Rightarrow> lu option" where
  "lu_by_id c key = (case key of None \<Rightarrow> None | Some i \<Rightarrow> c_lu_id2lu c i)"

definition synset_by_id :: "cornet \<Rightarrow> string option \<Rightarrow> synset option" where
  "synset_by_id c key = (case key of None \<Rightarrow> None | Some i \<Rightarrow> c_sy_id2synset c i)"

text \<open>
  \<^verbatim>\<open>
  def _get_synset_formatter(self, format=None):
      if not format: format = self._output_format
      if format == "spec":
          return self._synset_to_specs
      elif format == "xml":
          return tostring
      elif format == "raw":
          return lambda lu: lu
      else:
          raise ValueError("unknown output format: " + format)
  def _synset_to_specs(self, synset):
      specs = []
      seen_lu_ids = []
      for syn in synset.find("synonyms") or []:
          c_lu_id = syn.get("c_lu_id")
          try:
              lu = self._c_lu_id2lu[c_lu_id]
          except KeyError:
              continue
          if c_lu_id not in seen_lu_ids:
              specs.append(self._lu_to_spec(lu))
              seen_lu_ids.append(c_lu_id)
      return specs
  \<close>
  What a synset formatter returns: the list of the specifications of the units, the
  serialisation of the synset (kept as the synset it serialises), or the synset itself.
  \<^verbatim>\<open>_synset_to_specs\<close> looks units up, so a synset formatter returns its lookups next to
  its value.
\<close>

datatype syn_out =
    SynSpecs "string list"
  | SynXml synset
  | SynRaw synset

fun specs_loop ::
  "cornet \<Rightarrow> string option list \<Rightarrow> string list \<Rightarrow> string option list \<Rightarrow> event list \<times> string list"
where
  "specs_loop c [] specs seen_lu_ids = ([], specs)"
| "specs_loop c (lu_id # rest) specs seen_lu_ids =
     (case (case lu_by_id c lu_id of
              None \<Rightarrow> specs_loop c rest specs seen_lu_ids
            | Some l \<Rightarrow>
                if lu_id \<notin> set seen_lu_ids
                then specs_loop c rest (specs @ [lu_to_spec l]) (seen_lu_ids @ [lu_id])
                else specs_loop c rest specs seen_lu_ids) of
        (t, r) \<Rightarrow> (UnitLookup lu_id # t, r))"

definition synset_to_specs :: "cornet \<Rightarrow> synset \<Rightarrow> event list \<times> string list" where
  "synset_to_specs c sy = specs_loop c (synonyms sy) [] []"

definition get_synset_formatter ::
  "cornet \<Rightarrow> string option \<Rightarrow> error + (synset \<Rightarrow> event list \<times> syn_out)"
where
  "get_synset_formatter c fmt =
     (let f = selected_format c fmt in
      if f = ''spec'' then Inr (\<lambda>sy. case synset_to_specs c sy of (t, specs) \<Rightarrow> (t, SynSpecs specs))
      else if f = ''xml'' then Inr (\<lambda>sy. ([], SynXml sy))
      else if f = ''raw'' then Inr (\<lambda>sy. ([], SynRaw sy))
      else Inl (unknown_format f))"

text \<open>
  \<^verbatim>\<open>
  def get_synsets(self, spec, format=None):
      form, cat, sense = self._split_unit_spec(spec)
      synsets = []
      formatter = self._get_synset_formatter(format)
      for lu in self._form2lu.get(form, []):
          if ( self._lu_has_cat(lu, cat) and
               self._lu_has_sense(lu, sense) ):
              for c_sy_id in lu.get("c_sy_id", "").split(","):
                  try:
                      sy = self._c_sy_id2synset[c_sy_id]
                  except KeyError:
                      continue
                  synsets.append(formatter(sy))
      return synsets
  \<close>
  \<open>synsets_loop\<close> is the inner loop, over the synset identifiers of all the units that
  match.
\<close>

fun synsets_loop ::
  "cornet \<Rightarrow> (synset \<Rightarrow> event list \<times> syn_out) \<Rightarrow> string list \<Rightarrow> syn_out list
     \<Rightarrow> event list \<times> syn_out list"
where
  "synsets_loop c formatter [] synsets = ([], synsets)"
| "synsets_loop c formatter (sy_id # rest) synsets =
     (case c_sy_id2synset c sy_id of
        None \<Rightarrow>
          (case synsets_loop c formatter rest synsets of
             (t, r) \<Rightarrow> (SynsetLookup (Some sy_id) # t, r))
      | Some sy \<Rightarrow>
          (case formatter sy of
             (t1, x) \<Rightarrow>
               (case synsets_loop c formatter rest (synsets @ [x]) of
                  (t, r) \<Rightarrow> (SynsetLookup (Some sy_id) # t1 @ t, r))))"

definition get_synsets :: "cornet \<Rightarrow> string \<Rightarrow> string option \<Rightarrow> syn_out list traced" where
  "get_synsets c spec fmt =
     tbind (lift (unpack3 (split_unit_spec spec))) (\<lambda>(frm, cat, sense).
     tbind (lift (get_synset_formatter c fmt)) (\<lambda>formatter.
     tbind (emit (FormLookup frm) (case form2lu c frm of None \<Rightarrow> [] | Some ls \<Rightarrow> ls)) (\<lambda>ls.
       case synsets_loop c formatter
              (concat (map (\<lambda>l. str_split (CHR '','') (case c_sy_id l of None \<Rightarrow> [] | Some s \<Rightarrow> s))
                         (filter (\<lambda>l. lu_has_cat l cat \<and> lu_has_sense l sense) ls))) [] of
         (t, synsets) \<Rightarrow> (t, Inr synsets))))"

text \<open>
  \<^verbatim>\<open>
  def get_related_synsets(self, lu_spec, rel_name=None, format=None):
      form, cat, sense = self._split_unit_spec(lu_spec)
      if rel_name: rel_name = rel_name.upper()
      syn_formatter = self._get_synset_formatter(format)
      rel_formatter = self._get_relation_formatter(format)
      related_syns = {}
      for from_syn in self.get_synsets(lu_spec, format="raw"):
          for rel in from_syn.find("wn_internal_relations") or []:
              if self._rel_has_name(rel, rel_name):
                  to_syn_id = rel.get("target")
                  to_syn = self._c_sy_id2synset[to_syn_id]
                  syn_repr = syn_formatter(to_syn)
                  rel_repr = rel_formatter(rel)
                  related_syns.setdefault(rel_repr, []).append(syn_repr)
      return related_syns
  \<close>
  Here \<^verbatim>\<open>_rel_has_name\<close> and the relation formatter are given a \<^verbatim>\<open><relation>\<close> element, not
  the attribute dictionary of an edge: \<open>rel_el_has_name\<close> and \<open>get_relation_formatter_el\<close>
  are these two functions on an element, where \<^verbatim>\<open>tostring\<close> serialises the element,
  \<^verbatim>\<open>_rel_to_spec\<close> is its attribute \<^verbatim>\<open>relation\<close> and the format \<^verbatim>\<open>raw\<close> is the element.
\<close>

definition rel_el_has_name :: "relation_el \<Rightarrow> string option \<Rightarrow> bool" where
  "rel_el_has_name rel name =
     (case name of None \<Rightarrow> True | Some n \<Rightarrow> n = [] \<or> relation_attr rel = Some n)"

datatype rel_out =
    RelNone
  | RelStr string
  | RelXml relation_el
  | RelRaw relation_el

definition get_relation_formatter_el ::
  "cornet \<Rightarrow> string option \<Rightarrow> error + (relation_el \<Rightarrow> rel_out)"
where
  "get_relation_formatter_el c fmt =
     (let f = selected_format c fmt in
      if f = ''xml'' then Inr RelXml
      else if f = ''spec''
        then Inr (\<lambda>rel. case relation_attr rel of None \<Rightarrow> RelNone | Some s \<Rightarrow> RelStr s)
      else if f = ''raw'' then Inr RelRaw
      else Inl (unknown_format f))"

text \<open>The synsets among formatted values (the values of format \<^verbatim>\<open>raw\<close>).\<close>

definition raw_synsets :: "syn_out list \<Rightarrow> synset list" where
  "raw_synsets xs = List.map_filter (\<lambda>x. case x of SynRaw sy \<Rightarrow> Some sy | _ \<Rightarrow> None) xs"

fun related_synsets_loop ::
  "cornet \<Rightarrow> string option \<Rightarrow> (synset \<Rightarrow> event list \<times> syn_out) \<Rightarrow> (relation_el \<Rightarrow> rel_out)
     \<Rightarrow> relation_el list \<Rightarrow> (rel_out, syn_out list) dict \<Rightarrow> (rel_out, syn_out list) dict traced"
where
  "related_synsets_loop c rel_name syn_formatter rel_formatter [] related_syns =
     ([], Inr related_syns)"
| "related_synsets_loop c rel_name syn_formatter rel_formatter (rel # rest) related_syns =
     (if rel_el_has_name rel rel_name then
        (case synset_by_id c (target rel) of
           None \<Rightarrow> ([SynsetLookup (target rel)], Inl KeyError)
         | Some to_syn \<Rightarrow>
             (case syn_formatter to_syn of
                (t1, syn_repr) \<Rightarrow>
                  (case related_synsets_loop c rel_name syn_formatter rel_formatter rest
                          (setdefault_append (rel_formatter rel) syn_repr related_syns) of
                     (t, r) \<Rightarrow> (SynsetLookup (target rel) # t1 @ t, r))))
      else related_synsets_loop c rel_name syn_formatter rel_formatter rest related_syns)"

definition get_related_synsets ::
  "cornet \<Rightarrow> string \<Rightarrow> string option \<Rightarrow> string option \<Rightarrow> (rel_out, syn_out list) dict traced"
where
  "get_related_synsets c lu_spec rel_name fmt =
     tbind (lift (unpack3 (split_unit_spec lu_spec))) (\<lambda>(frm, cat, sense).
     tbind (lift (get_synset_formatter c fmt)) (\<lambda>syn_formatter.
     tbind (lift (get_relation_formatter_el c fmt)) (\<lambda>rel_formatter.
     tbind (get_synsets c lu_spec (Some ''raw'')) (\<lambda>from_syns.
       related_synsets_loop c (map_option upper rel_name) syn_formatter rel_formatter
         (concat (map wn_internal_relations (raw_synsets from_syns))) []))))"

text \<open>
  \<^verbatim>\<open>
  def get_lex_unit_by_id(self, c_lu_id, format=None):
      formatter = self._get_lex_unit_formatter(format)
      try:
          return formatter(self._c_lu_id2lu[c_lu_id])
      except KeyError:
          return None
  def get_synset_by_id(self, c_sy_id, format=None):
      formatter = self._get_synset_formatter(format)
      try:
          return formatter(self._c_sy_id2synset[c_sy_id])
      except KeyError:
          return None
  \<close>
\<close>

definition get_lex_unit_by_id :: "cornet \<Rightarrow> string \<Rightarrow> string option \<Rightarrow> out option traced" where
  "get_lex_unit_by_id c lu_id fmt =
     tbind (lift (get_lex_unit_formatter c fmt)) (\<lambda>formatter.
     tbind (emit (UnitLookup (Some lu_id)) (c_lu_id2lu c lu_id)) (\<lambda>r.
     ret (map_option formatter r)))"

definition get_synset_by_id :: "cornet \<Rightarrow> string \<Rightarrow> string option \<Rightarrow> syn_out option traced" where
  "get_synset_by_id c sy_id fmt =
     tbind (lift (get_synset_formatter c fmt)) (\<lambda>formatter.
     tbind (emit (SynsetLookup (Some sy_id)) (c_sy_id2synset c sy_id)) (\<lambda>r.
       case r of
         None \<Rightarrow> ret None
       | Some sy \<Rightarrow> (case formatter sy of (t, x) \<Rightarrow> (t, Inr (Some x)))))"

text \<open>
  \<^verbatim>\<open>
  def get_lex_unit_from_synset(self, c_sy_id, lemma, format=None):
      try:
          synset = self._c_sy_id2synset[c_sy_id]
      except KeyError:
          return None
      formatter = self._get_lex_unit_formatter(format)
      c_lu_id = None
      for syn in synset.find("synonyms") or []:
          c_lu_id = syn.get("c_lu_id")
          try:
              lu = self._c_lu_id2lu[c_lu_id]
              luform = self._get_lu_form(lu)
              if luform == lemma:
                  return formatter(lu)
          except KeyError:
              continue
      return None
  \<close>
\<close>

fun from_synset_loop ::
  "cornet \<Rightarrow> (lu \<Rightarrow> out) \<Rightarrow> string \<Rightarrow> string option list \<Rightarrow> event list \<times> out option"
where
  "from_synset_loop c formatter lemma_arg [] = ([], None)"
| "from_synset_loop c formatter lemma_arg (lu_id # rest) =
     (case (case lu_by_id c lu_id of
              None \<Rightarrow> from_synset_loop c formatter lemma_arg rest
            | Some l \<Rightarrow>
                if get_lu_form l = lemma_arg then ([], Some (formatter l))
                else from_synset_loop c formatter lemma_arg rest) of
        (t, r) \<Rightarrow> (UnitLookup lu_id # t, r))"

definition get_lex_unit_from_synset ::
  "cornet \<Rightarrow> string \<Rightarrow> string \<Rightarrow> string option \<Rightarrow> out option traced"
where
  "get_lex_unit_from_synset c sy_id lemma_arg fmt =
     tbind (emit (SynsetLookup (Some sy_id)) (c_sy_id2synset c sy_id)) (\<lambda>r.
       case r of
         None \<Rightarrow> ret None
       | Some sy \<Rightarrow>
           tbind (lift (get_lex_unit_formatter c fmt)) (\<lambda>formatter.
             case from_synset_loop c formatter lemma_arg (synonyms sy) of
               (t, x) \<Rightarrow> (t, Inr x)))"

subsection \<open>Common subsumers\<close>

text \<open>
  \<^verbatim>\<open>
  def all_common_subsumers(self, lu_spec1, lu_spec2,
                           rel_name="HAS_HYPERONYM", format=None):
      rel_name = rel_name.upper()
      formatter = self._get_lex_unit_formatter(format)
      lus1 = self.get_lex_units(lu_spec1, format="raw")
      sucs1 = self._transitive_closure(lus1, rel_name)
      for lu in lus1:
          sucs1[lu] = 0
      lus2 = self.get_lex_units(lu_spec2, format="raw")
      sucs2 = self._transitive_closure(lus2, rel_name)
      for lu in lus2:
          sucs2[lu] = 0
      acs = dict()
      for lu, dist in sucs1.items():
          try:
              sum_of_dist = dist + sucs2[lu]
          except KeyError:
              continue
          acs.setdefault(sum_of_dist, []).append(formatter(lu))
      return acs
  \<close>
\<close>

definition zero_seeds :: "'n list \<Rightarrow> ('n, nat) dict \<Rightarrow> ('n, nat) dict" where
  "zero_seeds lus sucs = foldl (\<lambda>d l. AList.update l 0 d) sucs lus"

definition acs_visit ::
  "('n \<Rightarrow> 'o) \<Rightarrow> ('n, nat) dict \<Rightarrow> (nat, 'o list) dict \<Rightarrow> 'n \<times> nat \<Rightarrow> (nat, 'o list) dict"
where
  "acs_visit formatter sucs2 acs item =
     (case item of (l, dist1) \<Rightarrow>
        (case map_of sucs2 l of
           None \<Rightarrow> acs
         | Some dist2 \<Rightarrow> setdefault_append (dist1 + dist2) (formatter l) acs))"

definition all_common_subsumers ::
  "cornet \<Rightarrow> string \<Rightarrow> string \<Rightarrow> string \<Rightarrow> string option \<Rightarrow> (nat, out list) dict traced"
where
  "all_common_subsumers c lu_spec1 lu_spec2 rel_name fmt =
     tbind (lift (get_lex_unit_formatter c fmt)) (\<lambda>formatter.
     tbind (get_lex_units c lu_spec1 (Some ''raw'')) (\<lambda>lus1.
     tbind (emit ClosureSearch (transitive_closure (graph c) (raw_lus lus1) (upper rel_name))) (\<lambda>sucs1.
     tbind (get_lex_units c lu_spec2 (Some ''raw'')) (\<lambda>lus2.
     tbind (emit ClosureSearch (transitive_closure (graph c) (raw_lus lus2) (upper rel_name))) (\<lambda>sucs2.
     ret (foldl (acs_visit formatter (zero_seeds (raw_lus lus2) sucs2)) []
            (zero_seeds (raw_lus lus1) sucs1)))))))"

text \<open>
  \<^verbatim>\<open>
  def least_common_subsumers(self, lu_spec1, lu_spec2,
                             rel_name="HAS_HYPERONYM", format=None):
      acs = self.all_common_subsumers(lu_spec1, lu_spec2, rel_name, format)
      if acs:
          minimum = min(acs.keys())
          return acs[minimum]
      else:
          return []
  \<close>
\<close>

definition least_common_subsumers ::
  "cornet \<Rightarrow> string \<Rightarrow> string \<Rightarrow> string \<Rightarrow> string option \<Rightarrow> out list traced"
where
  "least_common_subsumers c lu_spec1 lu_spec2 rel_name fmt =
     tbind (all_common_subsumers c lu_spec1 lu_spec2 rel_name fmt) (\<lambda>acs.
       if acs \<noteq> [] then
         (case map_of acs (min_list (map fst acs)) of
            None \<Rightarrow> lift (Inl KeyError)
          | Some lcs \<Rightarrow> ret lcs)
       else ret [])"


subsection \<open>Probability and information content\<close>

text \<open>
  \<^verbatim>\<open>
  def _get_lu_count(self, lu, subcount=False):
      try:
          if subcount:
              return int(lu.find("form").get("subcount"))
          else:
              return int(lu.find("form").get("count"))
      except AttributeError:
          return None
      except TypeError:
          return None
  def _p(self, lu, subcount=False, smooth=False, cat_totals=False):
      lu_count = self._get_lu_count(lu, subcount)
      if lu_count is None:
          return None
      if lu_count == 0 and smooth:
          lu_count = 1
      if cat_totals:
          cat = self._get_lu_cat(lu) or "all"
      else:
          cat = "all"
      count_total = float(self._cat2counts[cat])
      return lu_count / float(count_total)
  def _IC(self, lu, subcount=False, smooth=False, cat_totals=False, base=2):
      try:
          return -log(self._p(lu, subcount, smooth, cat_totals), base)
      except OverflowError:
          # zero probability: log(0) not defined
          return None
      except TypeError:
          # _prob returned None because no count was found
          return None
  \<close>
  Floating point numbers are the real numbers they stand for. \<^verbatim>\<open>math.log\<close> is the
  logarithm on the positive numbers; at zero it raises what the handler of \<^verbatim>\<open>_IC\<close>
  catches, and at a negative number ValueError. \<open>p_lu\<close> is \<^verbatim>\<open>_p\<close>.
\<close>

definition get_lu_count :: "lu \<Rightarrow> bool \<Rightarrow> int option" where
  "get_lu_count l subcount =
     (case form_child l of
        None \<Rightarrow> None
      | Some f \<Rightarrow> if subcount then subcount_attr f else count_attr f)"

definition p_lu :: "cornet \<Rightarrow> lu \<Rightarrow> bool \<Rightarrow> bool \<Rightarrow> bool \<Rightarrow> error + real option" where
  "p_lu c l subcount smooth cat_totals =
     (case get_lu_count l subcount of
        None \<Rightarrow> Inr None
      | Some n \<Rightarrow>
          (let lu_count = (if n = 0 \<and> smooth then 1 else n);
               cat = (if cat_totals then (if get_lu_cat l = [] then ''all'' else get_lu_cat l)
                      else ''all'')
           in case cat2counts c cat of
                None \<Rightarrow> Inl KeyError
              | Some count_total \<Rightarrow>
                  if count_total = 0 then Inl ZeroDivisionError
                  else Inr (Some (real_of_int lu_count / real_of_int count_total))))"

definition IC :: "cornet \<Rightarrow> lu \<Rightarrow> bool \<Rightarrow> bool \<Rightarrow> bool \<Rightarrow> error + real option" where
  "IC c l subcount smooth cat_totals =
     (case p_lu c l subcount smooth cat_totals of
        Inl e \<Rightarrow> Inl e
      | Inr None \<Rightarrow> Inr None
      | Inr (Some x) \<Rightarrow>
          if x = 0 then Inr None
          else if x < 0 then Inl (ValueError ''math domain error'')
          else Inr (Some (- log 2 x)))"

subsection \<open>Counts, probabilities and information content of specifications\<close>

text \<open>
  \<^verbatim>\<open>
  def get_count(self, lu_spec, subcount=False, format=None):
      formatter = self._get_lex_unit_formatter(format)
      lu2count = dict()
      for lu in self.get_lex_units(lu_spec, "raw"):
          lu2count[formatter(lu)] = self._get_lu_count(lu, subcount)
      return lu2count
  def get_probability(self, lu_spec, subcount=False, smooth=False,
                      cat_totals=False, format=None):
      formatter = self._get_lex_unit_formatter(format)
      lu2prob = {}
      for lu in self.get_lex_units(lu_spec, format="raw"):
          lu2prob[formatter(lu)] = self._p(lu, subcount, smooth, cat_totals)
      return lu2prob
  def get_info_content(self, lu_spec, subcount=False, smooth=False, cat_totals=False,
                       format=None):
      formatter = self._get_lex_unit_formatter(format)
      lu2ic = {}
      for lu in self.get_lex_units(lu_spec, format="raw"):
          lu2ic[formatter(lu)] = self._IC(lu, subcount, smooth, cat_totals)
      return lu2ic
  \<close>
  \<open>lu_table\<close> is the loop of the three functions.
\<close>

fun lu_table ::
  "(lu \<Rightarrow> out) \<Rightarrow> (lu \<Rightarrow> error + 'v) \<Rightarrow> lu list \<Rightarrow> (out, 'v) dict \<Rightarrow> error + (out, 'v) dict"
where
  "lu_table formatter f [] d = Inr d"
| "lu_table formatter f (l # ls) d =
     (case f l of
        Inl e \<Rightarrow> Inl e
      | Inr v \<Rightarrow> lu_table formatter f ls (AList.update (formatter l) v d))"

definition get_count ::
  "cornet \<Rightarrow> string \<Rightarrow> bool \<Rightarrow> string option \<Rightarrow> (out, int option) dict traced"
where
  "get_count c lu_spec subcount fmt =
     tbind (lift (get_lex_unit_formatter c fmt)) (\<lambda>formatter.
     tbind (get_lex_units c lu_spec (Some ''raw'')) (\<lambda>lus.
     lift (lu_table formatter (\<lambda>l. Inr (get_lu_count l subcount)) (raw_lus lus) [])))"

definition get_probability ::
  "cornet \<Rightarrow> string \<Rightarrow> bool \<Rightarrow> bool \<Rightarrow> bool \<Rightarrow> string option \<Rightarrow> (out, real option) dict traced"
where
  "get_probability c lu_spec subcount smooth cat_totals fmt =
     tbind (lift (get_lex_unit_formatter c fmt)) (\<lambda>formatter.
     tbind (get_lex_units c lu_spec (Some ''raw'')) (\<lambda>lus.
     lift (lu_table formatter (\<lambda>l. p_lu c l subcount smooth cat_totals) (raw_lus lus) [])))"

definition get_info_content ::
  "cornet \<Rightarrow> string \<Rightarrow> bool \<Rightarrow> bool \<Rightarrow> bool \<Rightarrow> string option \<Rightarrow> (out, real option) dict traced"
where
  "get_info_content c lu_spec subcount smooth cat_totals fmt =
     tbind (lift (get_lex_unit_formatter c fmt)) (\<lambda>formatter.
     tbind (get_lex_units c lu_spec (Some ''raw'')) (\<lambda>lus.
     lift (lu_table formatter (\<lambda>l. IC c l subcount smooth cat_totals) (raw_lus lus) [])))"

subsection \<open>Similarity measures\<close>

text \<open>The first error in a list of results, or all the values.\<close>

fun collect :: "(error + 'a) list \<Rightarrow> error + 'a list" where
  "collect [] = Inr []"
| "collect (Inl e # rs) = Inl e"
| "collect (Inr x # rs) = (case collect rs of Inl e \<Rightarrow> Inl e | Inr xs \<Rightarrow> Inr (x # xs))"

text \<open>\<^verbatim>\<open>max\<close> of Python 2 on numbers and \<^verbatim>\<open>None\<close>: \<^verbatim>\<open>None\<close> is smaller than every
  number.\<close>

fun max_opt :: "real option \<Rightarrow> real option \<Rightarrow> real option" where
  "max_opt None y = y"
| "max_opt (Some a) None = Some a"
| "max_opt (Some a) (Some b) = Some (max a b)"

definition py_max :: "real option list \<Rightarrow> real option" where
  "py_max xs = foldl max_opt (hd xs) (tl xs)"

text \<open>
  \<^verbatim>\<open>
  def resnik_sim(self, lu_spec1, lu_spec2, smooth=False, cat_totals=False,
                 format=None):
      max_sim = None
      if self.get_lex_units(lu_spec1) and self.get_lex_units(lu_spec2):
          lcs_ics = [ self._IC(lcs, True, smooth, cat_totals)
                      for lcs in self.least_common_subsumers(lu_spec1,
                                                             lu_spec2,
                                                             format="raw") ]
          if lcs_ics:
              max_sim = max(lcs_ics)
          else:
              max_sim = 0.0
      return max_sim
  \<close>
  \<^verbatim>\<open>py_max\<close> is applied to a list that is not empty.
\<close>

definition hyperonym :: string where
  "hyperonym = ''HAS_HYPERONYM''"

definition resnik_sim ::
  "cornet \<Rightarrow> string \<Rightarrow> string \<Rightarrow> bool \<Rightarrow> bool \<Rightarrow> string option \<Rightarrow> error + real option"
where
  "resnik_sim c lu_spec1 lu_spec2 smooth cat_totals fmt =
     (case snd (get_lex_units c lu_spec1 None) of
        Inl e \<Rightarrow> Inl e
      | Inr us1 \<Rightarrow>
          if us1 = [] then Inr None
          else (case snd (get_lex_units c lu_spec2 None) of
                  Inl e \<Rightarrow> Inl e
                | Inr us2 \<Rightarrow>
                    if us2 = [] then Inr None
                    else (case snd (least_common_subsumers c lu_spec1 lu_spec2 hyperonym
                                      (Some ''raw'')) of
                            Inl e \<Rightarrow> Inl e
                          | Inr lcss \<Rightarrow>
                              (case collect (map (\<lambda>lcs. IC c lcs True smooth cat_totals)
                                              (raw_lus lcss)) of
                                 Inl e \<Rightarrow> Inl e
                               | Inr lcs_ics \<Rightarrow>
                                   if lcs_ics \<noteq> [] then Inr (py_max lcs_ics)
                                   else Inr (Some 0)))))"

text \<open>
  \<^verbatim>\<open>
  def jiang_conrath_dist(self, lu_spec1, lu_spec2, smooth=False,
                         cat_totals=False, format=None):
      lus1 = self.get_lex_units(lu_spec1, format="raw")
      lus2 = self.get_lex_units(lu_spec2, format="raw")
      min_dist = None
      for lu1 in lus1:
          ic1 = self._IC(lu1, True, smooth, cat_totals)
          if ic1 is None:
              continue
          for lu2 in lus2:
              ic2 = self._IC(lu2, True, smooth, cat_totals)
              if ic2 is None:
                  continue
              # hmmm, conversion back to spec stinks
              for lcs in self.least_common_subsumers(self._lu_to_spec(lu1),
                                                     self._lu_to_spec(lu2),
                                                     format="raw"):
                  lcs_ic = self._IC(lcs, True, smooth, cat_totals)
                  if lcs_ic is None:
                      continue
                  new_dist = ic1 + ic2 - 2 * lcs_ic
                  if min_dist is None or new_dist < min_dist:
                      min_dist = new_dist
              # At this point we are sure that we have valid ic1 and ic2.
              # If no lcs was found, we assume lcs_ic is zero,
              # and thus the sim score is ic1 + ic2.
              new_dist = ic1 + ic2
              if min_dist is None or new_dist < min_dist:
                  min_dist = new_dist
      return min_dist
  \<close>
  \<open>lower_dist\<close> is the update of \<^verbatim>\<open>min_dist\<close>; the three loops are \<open>jc_lcs_loop\<close>,
  \<open>jc_lu2_loop\<close> and \<open>jc_lu1_loop\<close>, from the innermost.
\<close>

definition lower_dist :: "real \<Rightarrow> real option \<Rightarrow> real option" where
  "lower_dist new_dist min_dist =
     (case min_dist of
        None \<Rightarrow> Some new_dist
      | Some m \<Rightarrow> if new_dist < m then Some new_dist else Some m)"

fun jc_lcs_loop ::
  "cornet \<Rightarrow> bool \<Rightarrow> bool \<Rightarrow> real \<Rightarrow> real \<Rightarrow> lu list \<Rightarrow> real option \<Rightarrow> error + real option"
where
  "jc_lcs_loop c smooth cat_totals ic1 ic2 [] min_dist = Inr min_dist"
| "jc_lcs_loop c smooth cat_totals ic1 ic2 (lcs # rest) min_dist =
     (case IC c lcs True smooth cat_totals of
        Inl e \<Rightarrow> Inl e
      | Inr None \<Rightarrow> jc_lcs_loop c smooth cat_totals ic1 ic2 rest min_dist
      | Inr (Some lcs_ic) \<Rightarrow>
          jc_lcs_loop c smooth cat_totals ic1 ic2 rest
            (lower_dist (ic1 + ic2 - 2 * lcs_ic) min_dist))"

fun jc_lu2_loop ::
  "cornet \<Rightarrow> bool \<Rightarrow> bool \<Rightarrow> lu \<Rightarrow> real \<Rightarrow> lu list \<Rightarrow> real option \<Rightarrow> error + real option"
where
  "jc_lu2_loop c smooth cat_totals lu1 ic1 [] min_dist = Inr min_dist"
| "jc_lu2_loop c smooth cat_totals lu1 ic1 (lu2 # rest) min_dist =
     (case IC c lu2 True smooth cat_totals of
        Inl e \<Rightarrow> Inl e
      | Inr None \<Rightarrow> jc_lu2_loop c smooth cat_totals lu1 ic1 rest min_dist
      | Inr (Some ic2) \<Rightarrow>
          (case snd (least_common_subsumers c (lu_to_spec lu1) (lu_to_spec lu2) hyperonym
                       (Some ''raw'')) of
             Inl e \<Rightarrow> Inl e
           | Inr lcss \<Rightarrow>
               (case jc_lcs_loop c smooth cat_totals ic1 ic2 (raw_lus lcss) min_dist of
                  Inl e \<Rightarrow> Inl e
                | Inr min_dist' \<Rightarrow>
                    jc_lu2_loop c smooth cat_totals lu1 ic1 rest
                      (lower_dist (ic1 + ic2) min_dist'))))"

fun jc_lu1_loop ::
  "cornet \<Rightarrow> bool \<Rightarrow> bool \<Rightarrow> lu list \<Rightarrow> lu list \<Rightarrow> real option \<Rightarrow> error + real option"
where
  "jc_lu1_loop c smooth cat_totals [] lus2 min_dist = Inr min_dist"
| "jc_lu1_loop c smooth cat_totals (lu1 # rest) lus2 min_dist =
     (case IC c lu1 True smooth cat_totals of
        Inl e \<Rightarrow> Inl e
      | Inr None \<Rightarrow> jc_lu1_loop c smooth cat_totals rest lus2 min_dist
      | Inr (Some ic1) \<Rightarrow>
          (case jc_lu2_loop c smooth cat_totals lu1 ic1 lus2 min_dist of
             Inl e \<Rightarrow> Inl e
           | Inr min_dist' \<Rightarrow> jc_lu1_loop c smooth cat_totals rest lus2 min_dist'))"

definition jiang_conrath_dist ::
  "cornet \<Rightarrow> string \<Rightarrow> string \<Rightarrow> bool \<Rightarrow> bool \<Rightarrow> string option \<Rightarrow> error + real option"
where
  "jiang_conrath_dist c lu_spec1 lu_spec2 smooth cat_totals fmt =
     (case snd (get_lex_units c lu_spec1 (Some ''raw'')) of
        Inl e \<Rightarrow> Inl e
      | Inr lus1 \<Rightarrow>
          (case snd (get_lex_units c lu_spec2 (Some ''raw'')) of
             Inl e \<Rightarrow> Inl e
           | Inr lus2 \<Rightarrow>
               jc_lu1_loop c smooth cat_totals (raw_lus lus1) (raw_lus lus2) None))"


text \<open>
  \<^verbatim>\<open>
  def jiang_conrath_sim(self, lu_spec1, lu_spec2, smooth=False,
                        cat_totals=False, format=None):
      sim = self.jiang_conrath_dist(lu_spec1, lu_spec2, smooth, cat_totals,
                                    format)
      if sim is not None:
          return 1 / ( 1 + sim)
  \<close>
\<close>

definition jiang_conrath_sim ::
  "cornet \<Rightarrow> string \<Rightarrow> string \<Rightarrow> bool \<Rightarrow> bool \<Rightarrow> string option \<Rightarrow> error + real option"
where
  "jiang_conrath_sim c lu_spec1 lu_spec2 smooth cat_totals fmt =
     (case jiang_conrath_dist c lu_spec1 lu_spec2 smooth cat_totals fmt of
        Inl e \<Rightarrow> Inl e
      | Inr None \<Rightarrow> Inr None
      | Inr (Some sim) \<Rightarrow>
          if 1 + sim = 0 then Inl ZeroDivisionError else Inr (Some (1 / (1 + sim))))"

text \<open>
  \<^verbatim>\<open>
  def lin_sim(self, lu_spec1, lu_spec2, smooth=False, cat_totals=False,
              format=None):
      lus1 = self.get_lex_units(lu_spec1, format="raw")
      lus2 = self.get_lex_units(lu_spec2, format="raw")
      max_sim = None
      for lu1 in lus1:
          ic1 = self._IC(lu1, True, smooth, cat_totals)
          if ic1 is None:
              continue
          for lu2 in lus2:
              ic2 = self._IC(lu2, True, smooth, cat_totals)
              if ic2 is None:
                  continue
              for lcs in self.least_common_subsumers(self._lu_to_spec(lu1),
                                                     self._lu_to_spec(lu2),
                                                     format="raw"):
                  lcs_ic = self._IC(lcs, True, smooth, cat_totals)
                  if lcs_ic is None:
                      continue
                  new_sim = (2 * lcs_ic) / float(ic1 + ic2)
                  max_sim = max(max_sim, new_sim)
              max_sim = max(max_sim, 0.0)
      return max_sim
  \<close>
  The three loops are \<open>lin_lcs_loop\<close>, \<open>lin_lu2_loop\<close> and \<open>lin_lu1_loop\<close>, from the
  innermost.
\<close>

fun lin_lcs_loop ::
  "cornet \<Rightarrow> bool \<Rightarrow> bool \<Rightarrow> real \<Rightarrow> real \<Rightarrow> lu list \<Rightarrow> real option \<Rightarrow> error + real option"
where
  "lin_lcs_loop c smooth cat_totals ic1 ic2 [] max_sim = Inr max_sim"
| "lin_lcs_loop c smooth cat_totals ic1 ic2 (lcs # rest) max_sim =
     (case IC c lcs True smooth cat_totals of
        Inl e \<Rightarrow> Inl e
      | Inr None \<Rightarrow> lin_lcs_loop c smooth cat_totals ic1 ic2 rest max_sim
      | Inr (Some lcs_ic) \<Rightarrow>
          if ic1 + ic2 = 0 then Inl ZeroDivisionError
          else lin_lcs_loop c smooth cat_totals ic1 ic2 rest
                 (max_opt max_sim (Some ((2 * lcs_ic) / (ic1 + ic2)))))"

fun lin_lu2_loop ::
  "cornet \<Rightarrow> bool \<Rightarrow> bool \<Rightarrow> lu \<Rightarrow> real \<Rightarrow> lu list \<Rightarrow> real option \<Rightarrow> error + real option"
where
  "lin_lu2_loop c smooth cat_totals lu1 ic1 [] max_sim = Inr max_sim"
| "lin_lu2_loop c smooth cat_totals lu1 ic1 (lu2 # rest) max_sim =
     (case IC c lu2 True smooth cat_totals of
        Inl e \<Rightarrow> Inl e
      | Inr None \<Rightarrow> lin_lu2_loop c smooth cat_totals lu1 ic1 rest max_sim
      | Inr (Some ic2) \<Rightarrow>
          (case snd (least_common_subsumers c (lu_to_spec lu1) (lu_to_spec lu2) hyperonym
                       (Some ''raw'')) of
             Inl e \<Rightarrow> Inl e
           | Inr lcss \<Rightarrow>
               (case lin_lcs_loop c smooth cat_totals ic1 ic2 (raw_lus lcss) max_sim of
                  Inl e \<Rightarrow> Inl e
                | Inr max_sim' \<Rightarrow>
                    lin_lu2_loop c smooth cat_totals lu1 ic1 rest
                      (max_opt max_sim' (Some 0)))))"

fun lin_lu1_loop ::
  "cornet \<Rightarrow> bool \<Rightarrow> bool \<Rightarrow> lu list \<Rightarrow> lu list \<Rightarrow> real option \<Rightarrow> error + real option"
where
  "lin_lu1_loop c smooth cat_totals [] lus2 max_sim = Inr max_sim"
| "lin_lu1_loop c smooth cat_totals (lu1 # rest) lus2 max_sim =
     (case IC c lu1 True smooth cat_totals of
        Inl e \<Rightarrow> Inl e
      | Inr None \<Rightarrow> lin_lu1_loop c smooth cat_totals rest lus2 max_sim
      | Inr (Some ic1) \<Rightarrow>
          (case lin_lu2_loop c smooth cat_totals lu1 ic1 lus2 max_sim of
             Inl e \<Rightarrow> Inl e
           | Inr max_sim' \<Rightarrow> lin_lu1_loop c smooth cat_totals rest lus2 max_sim'))"

definition lin_sim ::
  "cornet \<Rightarrow> string \<Rightarrow> string \<Rightarrow> bool \<Rightarrow> bool \<Rightarrow> string option \<Rightarrow> error + real option"
where
  "lin_sim c lu_spec1 lu_spec2 smooth cat_totals fmt =
     (case snd (get_lex_units c lu_spec1 (Some ''raw'')) of
        Inl e \<Rightarrow> Inl e
      | Inr lus1 \<Rightarrow>
          (case snd (get_lex_units c lu_spec2 (Some ''raw'')) of
             Inl e \<Rightarrow> Inl e
           | Inr lus2 \<Rightarrow>
               lin_lu1_loop c smooth cat_totals (raw_lus lus1) (raw_lus lus2) None))"


section \<open>Building the graph\<close>

subsection \<open>The input files as sequences of parser events\<close>

text \<open>
  \<^verbatim>\<open>iterparse\<close> yields the elements of a file as they end. Of the file of the lexical
  units the parser reads the \<^verbatim>\<open><form>\<close> and the \<^verbatim>\<open><cdb_lu>\<close> elements, of the file of the
  synsets the \<^verbatim>\<open><synonym>\<close> elements (their attribute \<^verbatim>\<open>c_lu_id\<close>) and the
  \<^verbatim>\<open><cdb_synset>\<close> elements (their attributes \<^verbatim>\<open>c_sy_id\<close> and \<^verbatim>\<open>d_synset_id\<close>, and the
  attributes \<^verbatim>\<open>relation_name\<close> and \<^verbatim>\<open>target\<close> of the children of
  \<^verbatim>\<open><wn_internal_relations>\<close>). While the graph is built a lexical unit is changed (it
  gets the attribute \<^verbatim>\<open>c_sy_id\<close>), and elements are compared by identity, so a node of
  the graph is the identifier of the unit, which \<^verbatim>\<open>_parse_lex_units\<close> asserts to be unique,
  and \<^verbatim>\<open>c_lu_id2lu\<close> holds the unit at its identifier. The model is the one of
  \<^verbatim>\<open>verbose=False\<close>, the default of \<^verbatim>\<open>Cornet.open\<close>; with \<^verbatim>\<open>verbose=True\<close> the code also
  prints warnings and rewrites the attribute \<^verbatim>\<open>form-cat\<close>, and adds the same nodes and
  edges.
\<close>

datatype lu_event = FormEnd form_el | CdbLuEnd lu | OtherLuEnd

datatype syn_event = SynonymEnd "string option" | CdbSynsetEnd synset | OtherSynEnd

text \<open>\<^verbatim>\<open>add_node\<close> and \<^verbatim>\<open>add_edge\<close> of networkx: an edge adds its end points to the nodes
  and is added even when an edge between them exists.\<close>

definition add_node :: "'n multidigraph \<Rightarrow> 'n \<Rightarrow> 'n multidigraph" where
  "add_node g n = (if n \<in> set (nodes g) then g else g\<lparr>nodes := nodes g @ [n]\<rparr>)"

definition nx_add_edge :: "'n multidigraph \<Rightarrow> 'n \<Rightarrow> 'n \<Rightarrow> string option \<Rightarrow> 'n multidigraph" where
  "nx_add_edge g u v relation =
     (let g' = add_node (add_node g u) v in g'\<lparr>edges := edges g' @ [(u, v, relation)]\<rparr>)"

text \<open>
  \<^verbatim>\<open>
  def add_edge(graph, from_node, to_node, relation, verbose=False):
      # 1. prevent self-refering relations
      if from_node == to_node:
          return
      # 2. prevent multi-edges with identical relations
      try:
          for attr in graph[from_node][to_node].values():
              if attr["relation"] == relation:
                  return
      except KeyError:
          # no edge yet
          pass
      graph.add_edge(from_node, to_node, relation=relation)
  \<close>
\<close>

definition add_edge :: "'n multidigraph \<Rightarrow> 'n \<Rightarrow> 'n \<Rightarrow> string option \<Rightarrow> 'n multidigraph" where
  "add_edge g from_node to_node relation =
     (if from_node = to_node then g
      else if (from_node, to_node, relation) \<in> set (edges g) then g
      else nx_add_edge g from_node to_node relation)"

text \<open>The truth value of an attribute: it is there and not empty.\<close>

definition truthy :: "string option \<Rightarrow> bool" where
  "truthy a = (case a of None \<Rightarrow> False | Some s \<Rightarrow> s \<noteq> [])"

text \<open>
  \<^verbatim>\<open>
  def _parse_lex_units(parser, graph, verbose=False):
      form2lu = {}
      c_lu_id2lu = {}
      for event, elem in parser:
          if elem.tag == "cdb_lu":
              assert not elem.get("c_sy_id")
              c_lu_id = elem.get("c_lu_id")
              assert c_lu_id and c_lu_id not in c_lu_id2lu
              graph.add_node(elem)
              c_lu_id2lu[c_lu_id] = elem
              form = form_elem.get("form-spelling")
              if form:
                  form2lu.setdefault(form, []).append(elem)
              ...
          elif elem.tag == "form":
              form_elem = elem
      return form2lu, c_lu_id2lu
  \<close>
  \<^verbatim>\<open>form_elem\<close> is the form that has ended last, whatever unit it belongs to; it is not
  bound before the first form.
\<close>

type_synonym lex_state =
  "(string, string list) dict \<times> (string, lu) dict \<times> string multidigraph \<times> form_el option"

definition lex_unit_step :: "error + lex_state \<Rightarrow> lu_event \<Rightarrow> error + lex_state" where
  "lex_unit_step st ev =
     (case st of
        Inl e \<Rightarrow> Inl e
      | Inr (f2l, ids, g, form_elem) \<Rightarrow>
          (case ev of
             FormEnd f \<Rightarrow> Inr (f2l, ids, g, Some f)
           | OtherLuEnd \<Rightarrow> Inr (f2l, ids, g, form_elem)
           | CdbLuEnd elem \<Rightarrow>
               if truthy (c_sy_id elem) then Inl AssertionError
               else if c_lu_id elem = [] \<or> has_key ids (c_lu_id elem) then Inl AssertionError
               else (case form_elem of
                       None \<Rightarrow> Inl NameError
                     | Some f \<Rightarrow>
                         Inr (if truthy (form_spelling f)
                              then setdefault_append (the (form_spelling f)) (c_lu_id elem) f2l
                              else f2l,
                              AList.update (c_lu_id elem) elem ids,
                              add_node g (c_lu_id elem),
                              form_elem))))"

definition parse_lex_units ::
  "lu_event list \<Rightarrow> string multidigraph
     \<Rightarrow> error + ((string, string list) dict \<times> (string, lu) dict \<times> string multidigraph)"
where
  "parse_lex_units parser g =
     (case foldl lex_unit_step (Inr ([], [], g, None)) parser of
        Inl e \<Rightarrow> Inl e
      | Inr (f2l, ids, g', form_elem) \<Rightarrow> Inr (f2l, ids, g'))"

text \<open>
  \<^verbatim>\<open>
  def _parse_cdb_syn(file, c_lu_id2lu, verbose=False):
      sy_id2synset = {}
      sy_id2lus = {}
      lus = []
      seen_lu_ids = []
      for event, elem in parser:
          if elem.tag == "cdb_synset":
              c_sy_id = elem.get("c_sy_id")
              if c_sy_id and c_sy_id not in sy_id2synset:
                  sy_id2synset[c_sy_id] = elem
                  sy_id2lus[c_sy_id] = lus[:]
              d_synset_id = elem.get("d_synset_id")
              if d_synset_id and d_synset_id != c_sy_id:
                  sy_id2synset[d_synset_id] = elem
                  sy_id2lus[d_synset_id] = sy_id2lus[c_sy_id]
              lus = []
              seen_lu_ids = []
          elif elem.tag == "synonym":
              c_lu_id = elem.get("c_lu_id")
              try:
                  lu = c_lu_id2lu[c_lu_id]
              except KeyError:
                  continue
              if c_lu_id not in seen_lu_ids:
                  lus.append(lu)
                  seen_lu_ids.append(c_lu_id)
      return sy_id2synset, sy_id2lus
  \<close>
\<close>

type_synonym syn_state =
  "(string, synset) dict \<times> (string, string list) dict \<times> string list \<times> string list"

definition syn_step :: "(string, lu) dict \<Rightarrow> error + syn_state \<Rightarrow> syn_event \<Rightarrow> error + syn_state" where
  "syn_step ids st ev =
     (case st of
        Inl e \<Rightarrow> Inl e
      | Inr (sy_id2synset, sy_id2lus, lus, seen_lu_ids) \<Rightarrow>
          (case ev of
             OtherSynEnd \<Rightarrow> Inr (sy_id2synset, sy_id2lus, lus, seen_lu_ids)
           | SynonymEnd a \<Rightarrow>
               (case a of
                  None \<Rightarrow> Inr (sy_id2synset, sy_id2lus, lus, seen_lu_ids)
                | Some i \<Rightarrow>
                    if \<not> has_key ids i then Inr (sy_id2synset, sy_id2lus, lus, seen_lu_ids)
                    else if i \<notin> set seen_lu_ids
                      then Inr (sy_id2synset, sy_id2lus, lus @ [i], seen_lu_ids @ [i])
                      else Inr (sy_id2synset, sy_id2lus, lus, seen_lu_ids))
           | CdbSynsetEnd elem \<Rightarrow>
               (case (if truthy (syn_c_sy_id elem) \<and> \<not> has_key sy_id2synset (the (syn_c_sy_id elem))
                      then (AList.update (the (syn_c_sy_id elem)) elem sy_id2synset,
                            AList.update (the (syn_c_sy_id elem)) lus sy_id2lus)
                      else (sy_id2synset, sy_id2lus)) of
                  (s2s, s2l) \<Rightarrow>
                    if truthy (d_synset_id elem) \<and> d_synset_id elem \<noteq> syn_c_sy_id elem then
                      (case (case syn_c_sy_id elem of None \<Rightarrow> None | Some cs \<Rightarrow> map_of s2l cs) of
                         None \<Rightarrow> Inl KeyError
                       | Some l \<Rightarrow>
                           Inr (AList.update (the (d_synset_id elem)) elem s2s,
                                AList.update (the (d_synset_id elem)) l s2l, [], []))
                    else Inr (s2s, s2l, [], []))))"

definition parse_cdb_syn ::
  "syn_event list \<Rightarrow> (string, lu) dict
     \<Rightarrow> error + ((string, synset) dict \<times> (string, string list) dict)"
where
  "parse_cdb_syn parser ids =
     (case foldl (syn_step ids) (Inr ([], [], [], [])) parser of
        Inl e \<Rightarrow> Inl e
      | Inr (sy_id2synset, sy_id2lus, lus, seen_lu_ids) \<Rightarrow> Inr (sy_id2synset, sy_id2lus))"

text \<open>
  \<^verbatim>\<open>
  def _synonym_relations_to_edges(synset_el, c_lu_id2lu, sy_id2lus, graph, verbose=False):
      c_sy_id = synset_el.get("c_sy_id")
      nodes = sy_id2lus[c_sy_id]
      for from_node in nodes:
          try:
              from_node.set("c_sy_id", from_node.get("c_sy_id") + "," + c_sy_id)
          except TypeError:
              from_node.set("c_sy_id", c_sy_id)
          for to_node in nodes:
              if from_node is not to_node:
                  add_edge(graph, from_node, to_node, relation="SYNONYM", verbose=verbose)
  \<close>
\<close>

definition append_c_sy_id :: "string \<Rightarrow> lu \<Rightarrow> lu" where
  "append_c_sy_id cs l =
     l\<lparr>c_sy_id := (case c_sy_id l of None \<Rightarrow> Some cs | Some old \<Rightarrow> Some (old @ '','' @ cs))\<rparr>"

definition synonym_edges_from :: "string list \<Rightarrow> string multidigraph \<Rightarrow> string \<Rightarrow> string multidigraph" where
  "synonym_edges_from nds g from_node =
     foldl (\<lambda>g' to_node. if from_node \<noteq> to_node
                           then add_edge g' from_node to_node (Some ''SYNONYM'') else g')
       g nds"

definition synonym_relations_to_edges ::
  "synset \<Rightarrow> (string, string list) dict \<Rightarrow> (string, lu) dict \<times> string multidigraph
     \<Rightarrow> error + ((string, lu) dict \<times> string multidigraph)"
where
  "synonym_relations_to_edges synset_el sy_id2lus st =
     (case (case syn_c_sy_id synset_el of None \<Rightarrow> None | Some cs \<Rightarrow> map_of sy_id2lus cs) of
        None \<Rightarrow> Inl KeyError
      | Some nds \<Rightarrow>
          Inr (foldl (\<lambda>(ids, g) from_node.
                        (AList.map_entry from_node (append_c_sy_id (the (syn_c_sy_id synset_el))) ids,
                         synonym_edges_from nds g from_node))
                 st nds))"

text \<open>
  \<^verbatim>\<open>
  def _wn_internal_relations_to_edges(synset_el, c_lu_id2lu, sy_id2lus, graph, verbose=False):
      c_sy_id = synset_el.get("c_sy_id")
      from_nodes = sy_id2lus[c_sy_id]
      for relation_el in synset_el.find("wn_internal_relations") or []:
          relation = relation_el.get("relation_name")
          target = relation_el.get("target")
          try:
              to_nodes = sy_id2lus[target]
          except KeyError:
              continue
          for from_node in from_nodes:
              for to_node in to_nodes:
                  add_edge(graph, from_node, to_node, relation=relation, verbose=verbose)
  \<close>
\<close>

definition relation_edges ::
  "string list \<Rightarrow> string list \<Rightarrow> string option \<Rightarrow> string multidigraph \<Rightarrow> string multidigraph"
where
  "relation_edges from_nodes to_nodes relation g =
     foldl (\<lambda>g1 from_node. foldl (\<lambda>g2 to_node. add_edge g2 from_node to_node relation) g1 to_nodes)
       g from_nodes"

definition wn_internal_relations_to_edges ::
  "synset \<Rightarrow> (string, string list) dict \<Rightarrow> string multidigraph \<Rightarrow> error + string multidigraph"
where
  "wn_internal_relations_to_edges synset_el sy_id2lus g =
     (case (case syn_c_sy_id synset_el of None \<Rightarrow> None | Some cs \<Rightarrow> map_of sy_id2lus cs) of
        None \<Rightarrow> Inl KeyError
      | Some from_nodes \<Rightarrow>
          Inr (foldl (\<lambda>g' relation_el.
                        case (case target relation_el of None \<Rightarrow> None
                              | Some t \<Rightarrow> map_of sy_id2lus t) of
                          None \<Rightarrow> g'
                        | Some to_nodes \<Rightarrow> relation_edges from_nodes to_nodes (relation_name relation_el) g')
                 g (wn_internal_relations synset_el)))"

text \<open>
  \<^verbatim>\<open>
  def _relations_to_edges(c_lu_id2lu, sy_id2synset, sy_id2lus, graph, verbose=False):
      for synset_el in set(sy_id2synset.values()):
          _synonym_relations_to_edges(synset_el, c_lu_id2lu, sy_id2lus, graph, verbose=False)
          _wn_internal_relations_to_edges(synset_el, c_lu_id2lu, sy_id2lus, graph, verbose=verbose)
  \<close>
  The order in which a Python set is iterated is not fixed: \<open>set_order\<close>, a parameter,
  turns the values of the dictionary into the sequence that is iterated.
\<close>

definition relations_step ::
  "(string, string list) dict \<Rightarrow> error + ((string, lu) dict \<times> string multidigraph) \<Rightarrow> synset
     \<Rightarrow> error + ((string, lu) dict \<times> string multidigraph)"
where
  "relations_step sy_id2lus st synset_el =
     (case st of
        Inl e \<Rightarrow> Inl e
      | Inr s \<Rightarrow>
          (case synonym_relations_to_edges synset_el sy_id2lus s of
             Inl e \<Rightarrow> Inl e
           | Inr (ids, g) \<Rightarrow>
               (case wn_internal_relations_to_edges synset_el sy_id2lus g of
                  Inl e \<Rightarrow> Inl e
                | Inr g' \<Rightarrow> Inr (ids, g'))))"

definition relations_to_edges ::
  "(synset list \<Rightarrow> synset list) \<Rightarrow> (string, lu) dict \<Rightarrow> (string, synset) dict
     \<Rightarrow> (string, string list) dict \<Rightarrow> string multidigraph
     \<Rightarrow> error + ((string, lu) dict \<times> string multidigraph)"
where
  "relations_to_edges set_order ids sy_id2synset sy_id2lus g =
     foldl (relations_step sy_id2lus) (Inr (ids, g)) (set_order (map snd sy_id2synset))"

text \<open>
  \<^verbatim>\<open>
  def parse_cdb(cdb_lu, cdb_syn, verbose=False):
      graph = networkx.MultiDiGraph()
      form2lu, c_lu_id2lu = _parse_cdb_lu(cdb_lu, graph, verbose=verbose)
      sy_id2synset, sy_id2lus = _parse_cdb_syn(cdb_syn, c_lu_id2lu, verbose=verbose)
      _relations_to_edges(c_lu_id2lu, sy_id2synset, sy_id2lus, graph, verbose=verbose)
      return form2lu, c_lu_id2lu, sy_id2synset, graph
  \<close>
\<close>

definition parse_cdb ::
  "(synset list \<Rightarrow> synset list) \<Rightarrow> lu_event list \<Rightarrow> syn_event list
     \<Rightarrow> error + ((string, string list) dict \<times> (string, lu) dict \<times> (string, synset) dict
                  \<times> string multidigraph)"
where
  "parse_cdb set_order cdb_lu cdb_syn =
     (case parse_lex_units cdb_lu \<lparr>nodes = [], edges = []\<rparr> of
        Inl e \<Rightarrow> Inl e
      | Inr (f2l, ids, g) \<Rightarrow>
          (case parse_cdb_syn cdb_syn ids of
             Inl e \<Rightarrow> Inl e
           | Inr (sy_id2synset, sy_id2lus) \<Rightarrow>
               (case relations_to_edges set_order ids sy_id2synset sy_id2lus g of
                  Inl e \<Rightarrow> Inl e
                | Inr (ids', g') \<Rightarrow> Inr (f2l, ids', sy_id2synset, g'))))"

text \<open>A graph without loops in which no edge occurs twice.\<close>

definition simple_edges :: "'n multidigraph \<Rightarrow> bool" where
  "simple_edges g = (distinct (edges g) \<and> (\<forall>e \<in> set (edges g). fst e \<noteq> fst (snd e)))"


section \<open>Example databases\<close>

text \<open>
  The units \<^verbatim>\<open>lamp:noun:1\<close>, \<^verbatim>\<open>lamp:noun:2\<close> and \<^verbatim>\<open>gloeilamp:noun:1\<close>, with one edge
  \<^verbatim>\<open>HAS_HYPONYM\<close> from \<^verbatim>\<open>lamp:noun:2\<close> to \<^verbatim>\<open>gloeilamp:noun:1\<close>.
\<close>

definition noun_unit :: "string \<Rightarrow> string \<Rightarrow> string \<Rightarrow> lu" where
  "noun_unit ident spelling sense =
     \<lparr>c_lu_id = ident, c_seq_nr = Some sense, c_sy_id = None,
      form_child = Some \<lparr>form_spelling = Some spelling, form_cat = Some ''noun'',
                         count_attr = None, subcount_attr = None\<rparr>,
      other_children = 0\<rparr>"

definition lamp1 :: lu where
  "lamp1 = noun_unit ''1'' ''lamp'' ''1''"

definition lamp2 :: lu where
  "lamp2 = noun_unit ''2'' ''lamp'' ''2''"

definition gloeilamp1 :: lu where
  "gloeilamp1 = noun_unit ''3'' ''gloeilamp'' ''1''"

definition lamp_db :: cornet where
  "lamp_db =
     \<lparr>form2lu = [''lamp'' \<mapsto> [lamp1, lamp2], ''gloeilamp'' \<mapsto> [gloeilamp1]],
      c_lu_id2lu = [''1'' \<mapsto> lamp1, ''2'' \<mapsto> lamp2, ''3'' \<mapsto> gloeilamp1],
      c_sy_id2synset = Map.empty,
      graph = \<lparr>nodes = [lamp1, lamp2, gloeilamp1],
               edges = [(lamp2, gloeilamp1, Some ''HAS_HYPONYM'')]\<rparr>,
      output_format = ''spec'',
      max_depth = 3,
      cat2counts = Map.empty\<rparr>"

text \<open>
  Six nouns with subsumed counts and the edges \<^verbatim>\<open>HAS_HYPERONYM\<close>
  \<^verbatim>\<open>a:noun:1 -> h:noun:1\<close>, \<^verbatim>\<open>b:noun:1 -> h:noun:1\<close>, \<^verbatim>\<open>a:noun:2 -> k:noun:1\<close>,
  \<^verbatim>\<open>b:noun:1 -> y:noun:1\<close> and \<^verbatim>\<open>y:noun:1 -> k:noun:1\<close>; the total count is 4.
\<close>

definition counted_noun :: "string \<Rightarrow> string \<Rightarrow> string \<Rightarrow> int \<Rightarrow> lu" where
  "counted_noun ident spelling sense n =
     \<lparr>c_lu_id = ident, c_seq_nr = Some sense, c_sy_id = None,
      form_child = Some \<lparr>form_spelling = Some spelling, form_cat = Some ''noun'',
                         count_attr = Some n, subcount_attr = Some n\<rparr>,
      other_children = 0\<rparr>"

definition a1 :: lu where
  "a1 = counted_noun ''1'' ''a'' ''1'' 1"

definition a2 :: lu where
  "a2 = counted_noun ''2'' ''a'' ''2'' 1"

definition b1 :: lu where
  "b1 = counted_noun ''3'' ''b'' ''1'' 1"

definition h1 :: lu where
  "h1 = counted_noun ''4'' ''h'' ''1'' 2"

definition k1 :: lu where
  "k1 = counted_noun ''5'' ''k'' ''1'' 1"

definition y1 :: lu where
  "y1 = counted_noun ''6'' ''y'' ''1'' 1"

definition sim_db :: cornet where
  "sim_db =
     \<lparr>form2lu = [''a'' \<mapsto> [a1, a2], ''b'' \<mapsto> [b1], ''h'' \<mapsto> [h1], ''k'' \<mapsto> [k1],
                 ''y'' \<mapsto> [y1]],
      c_lu_id2lu = [''1'' \<mapsto> a1, ''2'' \<mapsto> a2, ''3'' \<mapsto> b1, ''4'' \<mapsto> h1, ''5'' \<mapsto> k1,
                    ''6'' \<mapsto> y1],
      c_sy_id2synset = Map.empty,
      graph = \<lparr>nodes = [a1, a2, b1, h1, k1, y1],
               edges = [(a1, h1, Some ''HAS_HYPERONYM''), (b1, h1, Some ''HAS_HYPERONYM''),
                        (a2, k1, Some ''HAS_HYPERONYM''), (b1, y1, Some ''HAS_HYPERONYM''),
                        (y1, k1, Some ''HAS_HYPERONYM'')]\<rparr>,
      output_format = ''spec'',
      max_depth = 9,
      cat2counts = [''noun'' \<mapsto> 4, ''verb'' \<mapsto> 0, ''adj'' \<mapsto> 0, ''other'' \<mapsto> 0,
                    ''all'' \<mapsto> 4]\<rparr>"

text \<open>
  A unit without child elements that follows \<^verbatim>\<open>lamp:noun:1\<close> in the file of the lexical
  units: \<^verbatim>\<open>_parse_lex_units\<close> files it under the form it has seen last.
\<close>

definition bare2 :: lu where
  "bare2 = \<lparr>c_lu_id = ''2'', c_seq_nr = Some ''2'', c_sy_id = None, form_child = None,
             other_children = 0\<rparr>"

definition bare_db :: cornet where
  "bare_db =
     \<lparr>form2lu = [''lamp'' \<mapsto> [lamp1, bare2]],
      c_lu_id2lu = [''1'' \<mapsto> lamp1, ''2'' \<mapsto> bare2],
      c_sy_id2synset = Map.empty,
      graph = \<lparr>nodes = [lamp1, bare2], edges = []\<rparr>,
      output_format = ''spec'',
      max_depth = 9,
      cat2counts = Map.empty\<rparr>"

text \<open>One unit whose subsumed count, 8, is larger than the total count, 4.\<close>

definition n1 :: lu where
  "n1 = counted_noun ''1'' ''u'' ''1'' 8"

definition neg_db :: cornet where
  "neg_db =
     \<lparr>form2lu = [''u'' \<mapsto> [n1]],
      c_lu_id2lu = [''1'' \<mapsto> n1],
      c_sy_id2synset = Map.empty,
      graph = \<lparr>nodes = [n1], edges = []\<rparr>,
      output_format = ''spec'',
      max_depth = 9,
      cat2counts = [''noun'' \<mapsto> 4, ''verb'' \<mapsto> 0, ''adj'' \<mapsto> 0, ''other'' \<mapsto> 0,
                    ''all'' \<mapsto> 4]\<rparr>"

text \<open>One unit whose category is written in upper case; the total count is 4.\<close>

definition big1 :: lu where
  "big1 = \<lparr>c_lu_id = ''1'', c_seq_nr = Some ''1'', c_sy_id = None,
            form_child = Some \<lparr>form_spelling = Some ''a'', form_cat = Some ''NOUN'',
                               count_attr = Some 1, subcount_attr = Some 1\<rparr>,
            other_children = 0\<rparr>"

definition case_db :: cornet where
  "case_db =
     \<lparr>form2lu = [''a'' \<mapsto> [big1]],
      c_lu_id2lu = [''1'' \<mapsto> big1],
      c_sy_id2synset = Map.empty,
      graph = \<lparr>nodes = [big1], edges = []\<rparr>,
      output_format = ''spec'',
      max_depth = 9,
      cat2counts = [''noun'' \<mapsto> 4, ''verb'' \<mapsto> 0, ''adj'' \<mapsto> 0, ''other'' \<mapsto> 0,
                    ''all'' \<mapsto> 4]\<rparr>"

text \<open>
  Three nouns in two synsets: \<^verbatim>\<open>pin:noun:1\<close> and \<^verbatim>\<open>tang:noun:1\<close> are the synonyms of the
  synset \<^verbatim>\<open>s1\<close>, also known as \<^verbatim>\<open>d1\<close>, which has the relation \<^verbatim>\<open>HAS_HYPERONYM\<close> to the
  synset \<^verbatim>\<open>s2\<close> of \<^verbatim>\<open>gereedschap:noun:1\<close>.
\<close>

definition syn_unit :: "string \<Rightarrow> string \<Rightarrow> string \<Rightarrow> lu" where
  "syn_unit ident spelling sy =
     \<lparr>c_lu_id = ident, c_seq_nr = Some ''1'', c_sy_id = Some sy,
      form_child = Some \<lparr>form_spelling = Some spelling, form_cat = Some ''noun'',
                         count_attr = None, subcount_attr = None\<rparr>,
      other_children = 0\<rparr>"

definition pin1 :: lu where
  "pin1 = syn_unit ''1'' ''pin'' ''s1''"

definition tang1 :: lu where
  "tang1 = syn_unit ''2'' ''tang'' ''s1''"

definition gereedschap1 :: lu where
  "gereedschap1 = syn_unit ''3'' ''gereedschap'' ''s2''"

definition pin_synset :: synset where
  "pin_synset =
     \<lparr>syn_c_sy_id = Some ''s1'', d_synset_id = Some ''d1'',
      synonyms = [Some ''1'', Some ''2''],
      wn_internal_relations =
        [\<lparr>relation_attr = None, relation_name = Some ''HAS_HYPERONYM'', target = Some ''s2''\<rparr>]\<rparr>"

definition gereedschap_synset :: synset where
  "gereedschap_synset =
     \<lparr>syn_c_sy_id = Some ''s2'', d_synset_id = None, synonyms = [Some ''3''],
      wn_internal_relations = []\<rparr>"

definition syn_db :: cornet where
  "syn_db =
     \<lparr>form2lu = [''pin'' \<mapsto> [pin1], ''tang'' \<mapsto> [tang1], ''gereedschap'' \<mapsto> [gereedschap1]],
      c_lu_id2lu = [''1'' \<mapsto> pin1, ''2'' \<mapsto> tang1, ''3'' \<mapsto> gereedschap1],
      c_sy_id2synset = [''s1'' \<mapsto> pin_synset, ''d1'' \<mapsto> pin_synset, ''s2'' \<mapsto> gereedschap_synset],
      graph = \<lparr>nodes = [pin1, tang1, gereedschap1],
               edges = [(pin1, tang1, Some ''SYNONYM''), (tang1, pin1, Some ''SYNONYM''),
                        (pin1, gereedschap1, Some ''HAS_HYPERONYM''),
                        (tang1, gereedschap1, Some ''HAS_HYPERONYM'')]\<rparr>,
      output_format = ''spec'',
      max_depth = 9,
      cat2counts = Map.empty\<rparr>"

text \<open>
  Two nouns of the form \<^verbatim>\<open>x\<close> without sense number (no attribute \<^verbatim>\<open>c_seq_nr\<close>), with the
  subsumed counts 2 and 1; the total count is 4 and there are no edges.
\<close>

definition senseless_noun :: "string \<Rightarrow> string \<Rightarrow> int \<Rightarrow> lu" where
  "senseless_noun ident spelling n =
     \<lparr>c_lu_id = ident, c_seq_nr = None, c_sy_id = None,
      form_child = Some \<lparr>form_spelling = Some spelling, form_cat = Some ''noun'',
                         count_attr = Some n, subcount_attr = Some n\<rparr>,
      other_children = 0\<rparr>"

definition x1 :: lu where
  "x1 = senseless_noun ''1'' ''x'' 2"

definition x2 :: lu where
  "x2 = senseless_noun ''2'' ''x'' 1"

definition nosense_db :: cornet where
  "nosense_db =
     \<lparr>form2lu = [''x'' \<mapsto> [x1, x2]],
      c_lu_id2lu = [''1'' \<mapsto> x1, ''2'' \<mapsto> x2],
      c_sy_id2synset = Map.empty,
      graph = \<lparr>nodes = [x1, x2], edges = []\<rparr>,
      output_format = ''spec'',
      max_depth = 9,
      cat2counts = [''noun'' \<mapsto> 4, ''verb'' \<mapsto> 0, ''adj'' \<mapsto> 0, ''other'' \<mapsto> 0,
                    ''all'' \<mapsto> 4]\<rparr>"

text \<open>
  Input files for \<open>parse_cdb\<close>: two units, and one synset with both of them that is known
  under two identifiers and has the relation \<^verbatim>\<open>NEAR\<close> to itself, once under each
  identifier. \<open>demo_graph\<close> is the graph that is built from them.
\<close>

definition demo_form :: "string \<Rightarrow> form_el" where
  "demo_form spelling =
     \<lparr>form_spelling = Some spelling, form_cat = Some ''noun'', count_attr = None,
      subcount_attr = None\<rparr>"

definition demo_unit :: "string \<Rightarrow> string \<Rightarrow> lu" where
  "demo_unit ident spelling =
     \<lparr>c_lu_id = ident, c_seq_nr = Some ''1'', c_sy_id = None,
      form_child = Some (demo_form spelling), other_children = 0\<rparr>"

definition demo_cdb_lu :: "lu_event list" where
  "demo_cdb_lu =
     [FormEnd (demo_form ''a''), CdbLuEnd (demo_unit ''1'' ''a''),
      FormEnd (demo_form ''b''), CdbLuEnd (demo_unit ''2'' ''b'')]"

definition demo_synset :: synset where
  "demo_synset =
     \<lparr>syn_c_sy_id = Some ''s1'', d_synset_id = Some ''d1'',
      synonyms = [Some ''1'', Some ''2''],
      wn_internal_relations =
        [\<lparr>relation_attr = None, relation_name = Some ''NEAR'', target = Some ''s1''\<rparr>,
         \<lparr>relation_attr = None, relation_name = Some ''NEAR'', target = Some ''d1''\<rparr>]\<rparr>"

definition demo_cdb_syn :: "syn_event list" where
  "demo_cdb_syn = [SynonymEnd (Some ''1''), SynonymEnd (Some ''2''), CdbSynsetEnd demo_synset]"

definition demo_graph :: "string multidigraph" where
  "demo_graph =
     \<lparr>nodes = [''1'', ''2''],
      edges = [(''1'', ''2'', Some ''SYNONYM''), (''2'', ''1'', Some ''SYNONYM''),
               (''1'', ''2'', Some ''NEAR''), (''2'', ''1'', Some ''NEAR'')]\<rparr>"

section \<open>The distance of Jiang and Conrath as a minimum\<close>

text \<open>The information content of a unit from its subsumed count, where it is defined.\<close>

definition ic_of :: "cornet \<Rightarrow> bool \<Rightarrow> bool \<Rightarrow> lu \<Rightarrow> real option" where
  "ic_of c smooth cat_totals l =
     (case IC c l True smooth cat_totals of Inl e \<Rightarrow> None | Inr v \<Rightarrow> v)"

text \<open>
  The common subsumers and the least common subsumers of two units: what
  \<^verbatim>\<open>all_common_subsumers\<close> and \<^verbatim>\<open>least_common_subsumers\<close> compute over
  \<^verbatim>\<open>HAS_HYPERONYM\<close> when each specification resolves to one unit.
\<close>

definition unit_acs :: "cornet \<Rightarrow> lu \<Rightarrow> lu \<Rightarrow> (nat, out list) dict" where
  "unit_acs c u1 u2 =
     foldl (acs_visit OutLu (zero_seeds [u2] (transitive_closure (graph c) [u2] hyperonym))) []
       (zero_seeds [u1] (transitive_closure (graph c) [u1] hyperonym))"

definition unit_lcs :: "cornet \<Rightarrow> lu \<Rightarrow> lu \<Rightarrow> lu list" where
  "unit_lcs c u1 u2 =
     (let acs = unit_acs c u1 u2
      in if acs = [] then []
         else (case map_of acs (Min (keys acs)) of None \<Rightarrow> [] | Some g \<Rightarrow> raw_lus g))"

text \<open>
  The candidate distances of a pair of units with defined information content:
  \<open>lcs_dists\<close> for the least common subsumers with defined information content;
  \<open>pair_candidates\<close> with the sum of the two information contents added for every pair;
  \<open>pair_claimed\<close> with that sum only for a pair without least common subsumer.
\<close>

definition lcs_dists :: "cornet \<Rightarrow> bool \<Rightarrow> bool \<Rightarrow> lu \<Rightarrow> lu \<Rightarrow> real \<Rightarrow> real \<Rightarrow> real list" where
  "lcs_dists c smooth cat_totals u1 u2 ic1 ic2 =
     map (\<lambda>x. ic1 + ic2 - 2 * x) (List.map_filter (ic_of c smooth cat_totals) (unit_lcs c u1 u2))"

definition pair_candidates :: "cornet \<Rightarrow> bool \<Rightarrow> bool \<Rightarrow> lu \<Rightarrow> lu \<Rightarrow> real list" where
  "pair_candidates c smooth cat_totals u1 u2 =
     (case ic_of c smooth cat_totals u1 of
        None \<Rightarrow> []
      | Some ic1 \<Rightarrow>
          (case ic_of c smooth cat_totals u2 of
             None \<Rightarrow> []
           | Some ic2 \<Rightarrow> lcs_dists c smooth cat_totals u1 u2 ic1 ic2 @ [ic1 + ic2]))"

definition pair_claimed :: "cornet \<Rightarrow> bool \<Rightarrow> bool \<Rightarrow> lu \<Rightarrow> lu \<Rightarrow> real list" where
  "pair_claimed c smooth cat_totals u1 u2 =
     (case ic_of c smooth cat_totals u1 of
        None \<Rightarrow> []
      | Some ic1 \<Rightarrow>
          (case ic_of c smooth cat_totals u2 of
             None \<Rightarrow> []
           | Some ic2 \<Rightarrow>
               if unit_lcs c u1 u2 = [] then [ic1 + ic2]
               else lcs_dists c smooth cat_totals u1 u2 ic1 ic2))"

definition over_pairs :: "(lu \<Rightarrow> lu \<Rightarrow> real list) \<Rightarrow> lu list \<Rightarrow> lu list \<Rightarrow> real list" where
  "over_pairs f lus1 lus2 = concat (map (\<lambda>u1. concat (map (f u1) lus2)) lus1)"

text \<open>The minimum of a list of numbers, \<open>None\<close> for the empty list.\<close>

definition least :: "real list \<Rightarrow> real option" where
  "least xs = (if xs = [] then None else Some (Min (set xs)))"

definition lower_all :: "real list \<Rightarrow> real option \<Rightarrow> real option" where
  "lower_all xs m = foldl (\<lambda>m d. lower_dist d m) m xs"

section \<open>Parsing specifications: properties\<close>

lemma str_split_ne: "str_split c s \<noteq> []"
  by (induction s) (auto split: list.splits)

lemma str_split_append_sep: "str_split c (s @ c # t) = str_split c s @ str_split c t"
proof (induction s)
  case Nil
  then show ?case by simp
next
  case (Cons x s)
  then show ?case using str_split_ne[of c s]
    by (cases "str_split c s") auto
qed

lemma not_isspace_colon: "\<not> isspace CHR '':''"
  by (simp add: isspace_def)

lemma lstrip_append_colon: "lstrip (s @ CHR '':'' # t) = lstrip s @ CHR '':'' # t"
  unfolding lstrip_def by (induction s) (auto simp: not_isspace_colon)

lemma rstrip_snoc_colon: "rstrip (s @ [CHR '':'']) = s @ [CHR '':'']"
  unfolding rstrip_def by (simp add: not_isspace_colon)

lemma strip_unit_spec: "strip (spec @ unit_separator @ unit_separator) = lstrip spec @ ''::''"
proof -
  have "lstrip (spec @ ''::'') = lstrip spec @ ''::''"
    using lstrip_append_colon[of spec "'':''"] by simp
  moreover have "rstrip (lstrip spec @ ''::'') = lstrip spec @ ''::''"
    using rstrip_snoc_colon[of "lstrip spec @ '':''"] by simp
  ultimately show ?thesis by (simp add: strip_def unit_separator_def)
qed

lemma str_split_padded: "str_split (CHR '':'') (s @ ''::'') = str_split (CHR '':'') s @ [[], []]"
  using str_split_append_sep[of "CHR '':''" s "'':''"] by simp

lemma take3_padded: "fs \<noteq> [] \<Longrightarrow> \<exists>a b c. take 3 (fs @ [[], []]) = [a, b, c]"
proof (cases fs)
  case Nil
  assume "fs \<noteq> []"
  with Nil show ?thesis by simp
next
  case (Cons a t)
  show ?thesis
  proof (cases t)
    case Nil
    with Cons show ?thesis by simp
  next
    case (Cons b u)
    with \<open>fs = a # t\<close> show ?thesis by (cases u) simp_all
  qed
qed

lemma unpack3_split_unit_spec: "\<exists>a b c. unpack3 (split_unit_spec spec) = Inr (a, b, c)"
proof -
  let ?fs = "str_split (CHR '':'') (lstrip spec)"
  have eq: "split_unit_spec spec = take 3 (?fs @ [[], []])"
    by (simp add: split_unit_spec_def strip_unit_spec str_split_padded)
  obtain a b c where "take 3 (?fs @ [[], []]) = [a, b, c]"
    using take3_padded[OF str_split_ne] by blast
  with eq show ?thesis by simp
qed

text \<open>
  C8. Parsing a lexical unit specification never fails. The specification, without its
  leading white space, is split at every colon; the result is the first three fields,
  where fields that are missing are empty, and it unpacks into form, category and sense.
  A specification with more than two colons is not rejected: its fields after the third
  are dropped.
\<close>

theorem split_unit_spec_fields:
  "split_unit_spec spec = take 3 (str_split (CHR '':'') (lstrip spec) @ [[], []]) \<and>
   length (split_unit_spec spec) = 3 \<and>
   (\<exists>frm cat sense. unpack3 (split_unit_spec spec) = Inr (frm, cat, sense))"
proof -
  let ?fs = "str_split (CHR '':'') (lstrip spec)"
  have eq: "split_unit_spec spec = take 3 (?fs @ [[], []])"
    by (simp add: split_unit_spec_def strip_unit_spec str_split_padded)
  obtain a b c where "take 3 (?fs @ [[], []]) = [a, b, c]"
    using take3_padded[OF str_split_ne] by blast
  with eq show ?thesis by simp
qed

theorem split_unit_spec_fields_witness:
  "split_unit_spec ''slang:noun:1:x:y'' = [''slang'', ''noun'', ''1''] \<and>
   unpack3 (split_unit_spec ''slang:noun:1:x:y'') = Inr (''slang'', ''noun'', ''1'') \<and>
   split_unit_spec ''slang'' = [''slang'', [], []]"
  using split_unit_spec_fields[of "''slang:noun:1:x:y''"] split_unit_spec_fields[of "''slang''"]
  by (simp add: lstrip_def isspace_def)

lemma upper_Nil_iff: "upper s = [] \<longleftrightarrow> s = []"
  by (simp add: upper_def)

lemma butlast_Nil_iff: "spec \<noteq> [] \<Longrightarrow> butlast spec = [] \<longleftrightarrow> length spec = 1"
  by (cases spec rule: rev_cases) simp_all

lemma single_last: "length spec = 1 \<Longrightarrow> spec = [last spec]"
  by (cases spec) simp_all

lemma get_related_lex_units_cases:
  assumes ne: "spec \<noteq> []"
  shows "get_related_lex_units c lu_spec spec fmt =
       (if spec = ''+'' then related_lex_units_from c lu_spec [] (max_depth c) fmt
        else if length spec = 1 \<and> last spec \<in> set ''123456789'' then
          (if digit_value (last spec) > max_depth c
           then ([], Inl (ValueError ''requested search depth is larger than maximum search depth''))
           else related_lex_units_from c lu_spec [] (digit_value (last spec)) fmt)
        else if last spec \<in> set ''123456789''
          then related_lex_units_from c lu_spec (upper (butlast spec)) (digit_value (last spec)) fmt
        else if last spec = CHR ''+''
          then related_lex_units_from c lu_spec (upper (butlast spec)) 9 fmt
        else related_lex_units_from c lu_spec (upper spec) 1 fmt)"
proof (cases "length spec = 1")
  case True
  then have s: "spec = [last spec]" by (rule single_last)
  have b: "butlast spec = []" using True ne by (simp add: butlast_Nil_iff)
  show ?thesis
  proof (cases "last spec \<in> set ''123456789''")
    case d: True
    then have "spec \<noteq> ''+''" by auto
    with d True b ne show ?thesis
      by (simp add: get_related_lex_units_def split_rel_spec_def tbind_def lift_def upper_def)
  next
    case nd: False
    show ?thesis
    proof (cases "last spec = CHR ''+''")
      case p: True
      with s have "spec = ''+''" by simp
      then show ?thesis
        by (simp add: get_related_lex_units_def split_rel_spec_def tbind_def lift_def upper_def)
    next
      case np: False
      with s have "spec \<noteq> ''+''" by auto
      with nd np ne show ?thesis
        by (simp add: get_related_lex_units_def split_rel_spec_def tbind_def lift_def
            upper_Nil_iff)
    qed
  qed
next
  case False
  then have b: "butlast spec \<noteq> []" using ne by (simp add: butlast_Nil_iff)
  from False have "spec \<noteq> ''+''" by auto
  with False b ne show ?thesis
    by (simp add: get_related_lex_units_def split_rel_spec_def tbind_def lift_def upper_Nil_iff)
qed









text \<open>
  C10. The empty relation specification raises IndexError in \<^verbatim>\<open>_split_rel_spec\<close>, and
  so do \<^verbatim>\<open>test_lex_units_relation\<close> and \<^verbatim>\<open>get_related_lex_units\<close>, before they look
  anything up.
\<close>

theorem empty_rel_spec_raises:
  "split_rel_spec [] = Inl IndexError \<and>
   test_lex_units_relation c from_lu_spec [] to_lu_spec fmt = ([], Some (Inl IndexError)) \<and>
   get_related_lex_units c lu_spec [] fmt = ([], Inl IndexError)"
  by (simp add: split_rel_spec_def test_lex_units_relation_def get_related_lex_units_def
      tbind_def lift_def)

theorem empty_rel_spec_raises_witness:
  "test_lex_units_relation lamp_db ''lamp'' [] ''gloeilamp'' None = ([], Some (Inl IndexError)) \<and>
   get_related_lex_units lamp_db ''lamp'' [] None = ([], Inl IndexError)"
  using empty_rel_spec_raises[of lamp_db "''lamp''" "''gloeilamp''" None "''lamp''"]
  by simp


section \<open>Common subsumers: properties\<close>

lemma raw_lus_map: "raw_lus (map OutLu ls) = ls"
  by (induction ls) (simp_all add: raw_lus_def List.map_filter_simps)

lemma get_lex_units_raw:
  "\<exists>frm ls. get_lex_units c spec (Some ''raw'') = ([FormLookup frm], Inr (map OutLu ls))"
proof -
  obtain a b d where u: "unpack3 (split_unit_spec spec) = Inr (a, b, d)"
    using unpack3_split_unit_spec by blast
  have f: "get_lex_unit_formatter c (Some ''raw'') = Inr OutLu"
    by (simp add: get_lex_unit_formatter_def selected_format_def)
  show ?thesis
    by (simp add: get_lex_units_def u f tbind_def lift_def emit_def ret_def) blast
qed

lemma map_of_update_alist: "map_of (AList.update k v d) = (map_of d)(k \<mapsto> v)"
  by (rule AList.update_conv')

lemma keys_dom: "keys d = dom (map_of d)"
  by (simp add: keys_def dom_map_of_conv_image_fst)

lemma setdefault_append_keeps:
  assumes "map_of acs k = Some g" "x \<in> set g"
  shows "\<exists>g'. map_of (setdefault_append k' y acs) k = Some g' \<and> x \<in> set g'"
  using assms by (auto simp: setdefault_append_def map_of_update_alist split: option.splits)

lemma setdefault_append_adds:
  "\<exists>g'. map_of (setdefault_append k y acs) k = Some g' \<and> y \<in> set g'"
  by (auto simp: setdefault_append_def map_of_update_alist split: option.splits)

lemma acs_visit_keeps:
  assumes "map_of acs k = Some g" "x \<in> set g"
  shows "\<exists>g'. map_of (acs_visit formatter sucs2 acs item) k = Some g' \<and> x \<in> set g'"
  using assms setdefault_append_keeps[OF assms]
  by (auto simp: acs_visit_def split: prod.splits option.splits)

lemma acs_fold_keeps:
  assumes "map_of acs k = Some g" "x \<in> set g"
  shows "\<exists>g'. map_of (foldl (acs_visit formatter sucs2) acs items) k = Some g' \<and> x \<in> set g'"
  using assms
proof (induction items arbitrary: acs g)
  case Nil
  then show ?case by simp
next
  case (Cons item items)
  from acs_visit_keeps[OF Cons.prems, of formatter sucs2 item]
  obtain g1 where "map_of (acs_visit formatter sucs2 acs item) k = Some g1" "x \<in> set g1" by blast
  from Cons.IH[OF this] show ?case by simp
qed

lemma acs_fold_shared:
  assumes "(u, 0) \<in> set items" "map_of sucs2 u = Some 0"
  shows "\<exists>g. map_of (foldl (acs_visit formatter sucs2) acs items) 0 = Some g \<and> formatter u \<in> set g"
  using assms(1)
proof (induction items arbitrary: acs)
  case Nil
  then show ?case by simp
next
  case (Cons item items)
  show ?case
  proof (cases "item = (u, 0)")
    case True
    have "acs_visit formatter sucs2 acs item = setdefault_append 0 (formatter u) acs"
      using True assms(2) by (simp add: acs_visit_def)
    with setdefault_append_adds[of 0 "formatter u" acs]
    obtain g1 where "map_of (acs_visit formatter sucs2 acs item) 0 = Some g1" "formatter u \<in> set g1"
      by auto
    from acs_fold_keeps[OF this] show ?thesis by simp
  next
    case False
    with Cons.prems have "(u, 0) \<in> set items" by auto
    from Cons.IH[OF this] show ?thesis by simp
  qed
qed

lemma zero_seeds_map_of:
  "map_of (zero_seeds lus sucs) u = (if u \<in> set lus then Some 0 else map_of sucs u)"
  unfolding zero_seeds_def
  by (induction lus arbitrary: sucs) (auto simp: map_of_update_alist)

lemma min_list_zero:
  assumes "(0::nat) \<in> set xs"
  shows "min_list xs = 0"
proof -
  from assms have "xs \<noteq> []" by auto
  then have "min_list xs = Min (set xs)" by (rule min_list_Min)
  also have "\<dots> = 0" using assms by (simp add: Min_eqI)
  finally show ?thesis .
qed


lemma all_common_subsumers_shape:
  assumes "get_lex_unit_formatter c fmt = Inr formatter"
    and "get_lex_units c A (Some ''raw'') = (ta, Inr (map OutLu lus1))"
    and "get_lex_units c B (Some ''raw'') = (tb, Inr (map OutLu lus2))"
  shows "all_common_subsumers c A B r fmt =
     (ta @ ClosureSearch # tb @ [ClosureSearch],
      Inr (foldl (acs_visit formatter
                    (zero_seeds lus2 (transitive_closure (graph c) lus2 (upper r)))) []
             (zero_seeds lus1 (transitive_closure (graph c) lus1 (upper r)))))"
  using assms
  by (simp add: all_common_subsumers_def tbind_def lift_def emit_def ret_def raw_lus_map)

lemma least_common_subsumers_of:
  assumes "all_common_subsumers c A B r fmt = (t, res)"
  shows "least_common_subsumers c A B r fmt =
     (case res of
        Inl e \<Rightarrow> (t, Inl e)
      | Inr acs \<Rightarrow>
          if acs \<noteq> [] then
            (case map_of acs (min_list (map fst acs)) of
               None \<Rightarrow> (t, Inl KeyError)
             | Some lcs \<Rightarrow> (t, Inr lcs))
          else (t, Inr []))"
  using assms
  by (auto simp: least_common_subsumers_def tbind_def lift_def ret_def split: sum.splits option.splits)

lemma min_key_present:
  assumes "acs \<noteq> []"
  shows "min_list (map fst acs) = Min (keys acs) \<and> (\<exists>g. map_of acs (Min (keys acs)) = Some g)"
proof -
  from assms have ne: "map fst acs \<noteq> []" by simp
  have m: "min_list (map fst acs) = Min (keys acs)"
    using min_list_Min[OF ne] by (simp add: keys_def)
  have "Min (keys acs) \<in> keys acs"
    using assms by (intro Min_in) (auto simp: keys_def)
  then have "Min (keys acs) \<in> dom (map_of acs)" by (simp add: keys_dom)
  with m show ?thesis by auto
qed

text \<open>
  C4. When \<^verbatim>\<open>all_common_subsumers\<close> returns a dictionary that is not empty,
  \<^verbatim>\<open>least_common_subsumers\<close> returns the list stored under its least key; when the
  dictionary is empty, it returns the empty list. A unit that both specifications resolve
  to is, formatted, in the list under the key 0, which is then the least key, so that
  \<^verbatim>\<open>least_common_subsumers\<close> returns that list.
\<close>

theorem least_common_subsumers_min_group:
  "(\<forall>t acs. all_common_subsumers c A B r fmt = (t, Inr acs) \<and> acs \<noteq> [] \<longrightarrow>
      (\<exists>g. map_of acs (Min (keys acs)) = Some g \<and>
           least_common_subsumers c A B r fmt = (t, Inr g))) \<and>
   (\<forall>t. all_common_subsumers c A B r fmt = (t, Inr []) \<longrightarrow>
      least_common_subsumers c A B r fmt = (t, Inr [])) \<and>
   (\<forall>formatter ta tb lus1 lus2 u.
      get_lex_unit_formatter c fmt = Inr formatter \<and>
      get_lex_units c A (Some ''raw'') = (ta, Inr lus1) \<and>
      get_lex_units c B (Some ''raw'') = (tb, Inr lus2) \<and>
      OutLu u \<in> set lus1 \<and> OutLu u \<in> set lus2 \<longrightarrow>
      (\<exists>t acs g. all_common_subsumers c A B r fmt = (t, Inr acs) \<and>
         Min (keys acs) = 0 \<and> map_of acs 0 = Some g \<and> formatter u \<in> set g \<and>
         least_common_subsumers c A B r fmt = (t, Inr g)))"
proof (intro conjI allI impI)
  fix t acs
  assume a: "all_common_subsumers c A B r fmt = (t, Inr acs) \<and> acs \<noteq> []"
  then obtain g where g: "min_list (map fst acs) = Min (keys acs)" "map_of acs (Min (keys acs)) = Some g"
    using min_key_present by blast
  with a least_common_subsumers_of[of c A B r fmt t "Inr acs"]
  show "\<exists>g. map_of acs (Min (keys acs)) = Some g \<and> least_common_subsumers c A B r fmt = (t, Inr g)"
    by simp
next
  fix t
  assume "all_common_subsumers c A B r fmt = (t, Inr [])"
  from least_common_subsumers_of[OF this]
  show "least_common_subsumers c A B r fmt = (t, Inr [])" by simp
next
  fix formatter ta tb lus1 lus2 u
  assume h: "get_lex_unit_formatter c fmt = Inr formatter \<and>
      get_lex_units c A (Some ''raw'') = (ta, Inr lus1) \<and>
      get_lex_units c B (Some ''raw'') = (tb, Inr lus2) \<and>
      OutLu u \<in> set lus1 \<and> OutLu u \<in> set lus2"
  obtain fa ls1 where l1: "get_lex_units c A (Some ''raw'') = ([FormLookup fa], Inr (map OutLu ls1))"
    using get_lex_units_raw by blast
  obtain fb ls2 where l2: "get_lex_units c B (Some ''raw'') = ([FormLookup fb], Inr (map OutLu ls2))"
    using get_lex_units_raw by blast
  from h l1 l2 have u1: "u \<in> set ls1" and u2: "u \<in> set ls2" by auto
  let ?s1 = "zero_seeds ls1 (transitive_closure (graph c) ls1 (upper r))"
  let ?s2 = "zero_seeds ls2 (transitive_closure (graph c) ls2 (upper r))"
  let ?acs = "foldl (acs_visit formatter ?s2) [] ?s1"
  let ?t = "[FormLookup fa] @ ClosureSearch # [FormLookup fb] @ [ClosureSearch]"
  have shape: "all_common_subsumers c A B r fmt = (?t, Inr ?acs)"
    using all_common_subsumers_shape[OF _ l1 l2] h by blast
  have "map_of ?s1 u = Some 0" using u1 by (simp add: zero_seeds_map_of)
  then have i1: "(u, 0) \<in> set ?s1" by (rule map_of_SomeD)
  have i2: "map_of ?s2 u = Some 0" using u2 by (simp add: zero_seeds_map_of)
  from acs_fold_shared[OF i1 i2, of formatter "[]"]
  obtain g where g: "map_of ?acs 0 = Some g" "formatter u \<in> set g" by blast
  then have ne: "?acs \<noteq> []" by auto
  have "(0::nat) \<in> keys ?acs" using g by (auto simp: keys_dom)
  then have k0: "(0::nat) \<in> set (map fst ?acs)" by (simp add: keys_def)
  have m0: "min_list (map fst ?acs) = 0" by (rule min_list_zero[OF k0])
  have M0: "Min (keys ?acs) = 0" using min_key_present[OF ne] m0 by simp
  have "least_common_subsumers c A B r fmt = (?t, Inr g)"
    using least_common_subsumers_of[OF shape] ne g m0 by simp
  with shape g M0
  show "\<exists>t acs g. all_common_subsumers c A B r fmt = (t, Inr acs) \<and>
         Min (keys acs) = 0 \<and> map_of acs 0 = Some g \<and> formatter u \<in> set g \<and>
         least_common_subsumers c A B r fmt = (t, Inr g)"
    by blast
qed


theorem least_common_subsumers_min_group_witness:
  "all_common_subsumers sim_db ''a'' ''b'' ''has_hyperonym'' None =
     ([FormLookup ''a'', ClosureSearch, FormLookup ''b'', ClosureSearch],
      Inr [(2, [OutStr ''h:noun:1'']), (3, [OutStr ''k:noun:1''])]) \<and>
   least_common_subsumers sim_db ''a'' ''b'' ''has_hyperonym'' None =
     ([FormLookup ''a'', ClosureSearch, FormLookup ''b'', ClosureSearch],
      Inr [OutStr ''h:noun:1''])"
proof -
  let ?t = "[FormLookup ''a'', ClosureSearch, FormLookup ''b'', ClosureSearch]"
  let ?acs = "[(2::nat, [OutStr ''h:noun:1'']), (3, [OutStr ''k:noun:1''])]"
  have e: "all_common_subsumers sim_db ''a'' ''b'' ''has_hyperonym'' None = (?t, Inr ?acs)"
    by code_simp
  have ne: "?acs \<noteq> []" by simp
  from least_common_subsumers_min_group[of sim_db "''a''" "''b''" "''has_hyperonym''" None] e ne
  obtain g where g: "map_of ?acs (Min (keys ?acs)) = Some g"
    "least_common_subsumers sim_db ''a'' ''b'' ''has_hyperonym'' None = (?t, Inr g)"
    by blast
  have "Min (keys ?acs) = 2" by (simp add: keys_def)
  with g have "g = [OutStr ''h:noun:1'']" by simp
  with g e show ?thesis by simp
qed


section \<open>Testing a relation: where the path is not returned\<close>

text \<open>
  C1, where the code departs from it. On the database with the edge \<^verbatim>\<open>HAS_HYPONYM\<close> from
  \<^verbatim>\<open>lamp:noun:2\<close> to \<^verbatim>\<open>gloeilamp:noun:1\<close>, the test of \<^verbatim>\<open>lamp HAS_HYPONYM gloeilamp\<close>
  with the format \<^verbatim>\<open>xml\<close> raises AttributeError, where the default format returns the
  path of one edge. On the database where \<^verbatim>\<open>lamp::2\<close> resolves to one unit without child
  elements, source and target are that unit and the result is the empty path.
\<close>

theorem test_lex_units_relation_xml_raises:
  "test_lex_units_relation lamp_db ''lamp'' ''HAS_HYPONYM'' ''gloeilamp'' (Some ''xml'') =
     ([FormLookup ''lamp'', FormLookup ''gloeilamp'', PathSearch], Some (Inl AttributeError)) \<and>
   test_lex_units_relation lamp_db ''lamp'' ''HAS_HYPONYM'' ''gloeilamp'' None =
     ([FormLookup ''lamp'', FormLookup ''gloeilamp'', PathSearch],
      Some (Inr [OutStr ''lamp:noun:2'', OutStr ''HAS_HYPONYM'', OutStr ''gloeilamp:noun:1''])) \<and>
   get_lex_units bare_db ''lamp::2'' (Some ''raw'') = ([FormLookup ''lamp''], Inr [OutLu bare2]) \<and>
   test_lex_units_relation bare_db ''lamp::2'' ''SYNONYM'' ''lamp::2'' None =
     ([FormLookup ''lamp'', FormLookup ''lamp'', PathSearch], Some (Inr []))"
  by code_simp

section \<open>Similarity: properties\<close>

lemma log2_quarter: "log 2 (1 / 4) = - 2"
proof -
  have "log 2 (1 / 4) = - log 2 (2 ^ 2)" by (simp add: log_divide)
  also have "log 2 (2 ^ 2) = (2::real)" by (subst log_nat_power) simp_all
  finally show ?thesis by simp
qed

lemma log2_half: "log 2 (1 / 2) = - 1"
  by (simp add: log_divide)

lemma ic_k1: "IC sim_db k1 True False False = Inr (Some 2)"
  by (simp add: IC_def p_lu_def get_lu_count_def sim_db_def k1_def counted_noun_def log2_quarter)

lemma ic_h1: "IC sim_db h1 True False False = Inr (Some 1)"
  by (simp add: IC_def p_lu_def get_lu_count_def sim_db_def h1_def counted_noun_def log2_half)

lemma lcs_a_b: "snd (least_common_subsumers sim_db ''a'' ''b'' hyperonym (Some ''raw'')) = Inr [OutLu h1]"
  by code_simp

lemma lcs_a2_b: "snd (least_common_subsumers sim_db (lu_to_spec a2) (lu_to_spec b1) hyperonym (Some ''raw'')) = Inr [OutLu k1]"
  by code_simp

lemma units_a: "snd (get_lex_units sim_db ''a'' None) = Inr [OutStr ''a:noun:1'', OutStr ''a:noun:2'']"
  by code_simp

lemma units_b: "snd (get_lex_units sim_db ''b'' None) = Inr [OutStr ''b:noun:1'']"
  by code_simp

text \<open>
  C5, where the code departs from it. \<^verbatim>\<open>a\<close> resolves to \<^verbatim>\<open>a:noun:1\<close> and \<^verbatim>\<open>a:noun:2\<close>,
  \<^verbatim>\<open>b\<close> to \<^verbatim>\<open>b:noun:1\<close>. The least common subsumer of the pair \<^verbatim>\<open>a:noun:2\<close>,
  \<^verbatim>\<open>b:noun:1\<close> is \<^verbatim>\<open>k:noun:1\<close>, of information content 2; \<^verbatim>\<open>resnik_sim\<close> of \<^verbatim>\<open>a\<close> and
  \<^verbatim>\<open>b\<close> is 1, the information content of \<^verbatim>\<open>h:noun:1\<close>.
\<close>

theorem resnik_sim_set_level:
  "resnik_sim sim_db ''a'' ''b'' False False None = Inr (Some 1) \<and>
   snd (get_lex_units sim_db ''a'' (Some ''raw'')) = Inr [OutLu a1, OutLu a2] \<and>
   snd (get_lex_units sim_db ''b'' (Some ''raw'')) = Inr [OutLu b1] \<and>
   snd (least_common_subsumers sim_db (lu_to_spec a2) (lu_to_spec b1) hyperonym (Some ''raw'')) =
     Inr [OutLu k1] \<and>
   IC sim_db k1 True False False = Inr (Some 2)"
proof -
  have r: "resnik_sim sim_db ''a'' ''b'' False False None = Inr (Some 1)"
    by (simp add: resnik_sim_def units_a units_b lcs_a_b raw_lus_def List.map_filter_simps ic_h1
        py_max_def)
  have u1: "snd (get_lex_units sim_db ''a'' (Some ''raw'')) = Inr [OutLu a1, OutLu a2]"
    by code_simp
  have u2: "snd (get_lex_units sim_db ''b'' (Some ''raw'')) = Inr [OutLu b1]"
    by code_simp
  from r u1 u2 lcs_a2_b ic_k1 show ?thesis by simp
qed



section \<open>Output formats: properties\<close>

lemma formatter_unknown:
  assumes "f \<noteq> []" "f \<notin> set [''spec'', ''xml'', ''raw'']"
  shows "get_lex_unit_formatter c (Some f) = Inl (unknown_format f)"
    and "get_relation_formatter c (Some f) = Inl (unknown_format f)"
  using assms by (auto simp: get_lex_unit_formatter_def get_relation_formatter_def selected_format_def)

lemma synset_formatter_unknown:
  assumes "f \<noteq> []" "f \<notin> set [''spec'', ''xml'', ''raw'']"
  shows "get_synset_formatter c (Some f) = Inl (unknown_format f)"
    and "get_relation_formatter_el c (Some f) = Inl (unknown_format f)"
  using assms
  by (auto simp: get_synset_formatter_def get_relation_formatter_el_def selected_format_def)

lemma reconstruct_path_unknown:
  assumes "f \<noteq> []" "f \<notin> set [''spec'', ''xml'', ''raw'']"
  shows "reconstruct_path c pred common_lu succ (Some f) = Some (Inl (unknown_format f))"
  by (simp add: reconstruct_path_def formatter_unknown[OF assms])

lemma split_rel_spec_ok: "spec \<noteq> [] \<Longrightarrow> \<exists>name d. split_rel_spec spec = Inr (name, d)"
  by (simp add: split_rel_spec_def)

lemma test_lex_units_relation_unknown:
  assumes "f \<noteq> []" "f \<notin> set [''spec'', ''xml'', ''raw'']" "rel_spec \<noteq> []"
  shows "\<exists>frm1 frm2. test_lex_units_relation c A rel_spec B (Some f) =
           ([FormLookup frm1, FormLookup frm2, PathSearch], Some (Inl (unknown_format f)))"
proof -
  obtain fa ls1 where l1: "get_lex_units c A (Some ''raw'') = ([FormLookup fa], Inr (map OutLu ls1))"
    using get_lex_units_raw by blast
  obtain fb ls2 where l2: "get_lex_units c B (Some ''raw'') = ([FormLookup fb], Inr (map OutLu ls2))"
    using get_lex_units_raw by blast
  obtain name d where r: "split_rel_spec rel_spec = Inr (name, d)"
    using split_rel_spec_ok[OF assms(3)] by blast
  obtain pr cm su where b: "bidirectional_shortest_path (graph c) ls1 ls2 name d = (pr, cm, su)"
    by (cases "bidirectional_shortest_path (graph c) ls1 ls2 name d")
  have "test_lex_units_relation c A rel_spec B (Some f) =
     ([FormLookup fa, FormLookup fb, PathSearch], Some (Inl (unknown_format f)))"
    by (simp add: test_lex_units_relation_def r l1 l2 b tbind_def lift_def emit_def raw_lus_map
        reconstruct_path_unknown[OF assms(1,2)])
  then show ?thesis by blast
qed

lemma related_lex_units_from_unknown:
  assumes "f \<noteq> []" "f \<notin> set [''spec'', ''xml'', ''raw'']"
  shows "related_lex_units_from c lu_spec rel_name depth (Some f) = ([], Inl (unknown_format f))"
  by (simp add: related_lex_units_from_def formatter_unknown[OF assms] tbind_def lift_def)

lemma get_related_lex_units_unknown:
  assumes "f \<noteq> []" "f \<notin> set [''spec'', ''xml'', ''raw'']"
  shows "get_related_lex_units c lu_spec rel_spec (Some f) =
     ([], Inl (if rel_spec = [] then IndexError
               else if length rel_spec = 1 \<and> last rel_spec \<in> set ''123456789'' \<and>
                       digit_value (last rel_spec) > max_depth c
                 then ValueError ''requested search depth is larger than maximum search depth''
               else unknown_format f))"
proof (cases "rel_spec = []")
  case True
  then show ?thesis
    by (simp add: get_related_lex_units_def split_rel_spec_def tbind_def lift_def)
next
  case False
  show ?thesis
    unfolding get_related_lex_units_cases[OF False]
    using False by (simp add: related_lex_units_from_unknown[OF assms])
qed

lemma ws_fields_nonempty: "x \<in> set (ws_fields w s) \<Longrightarrow> x \<noteq> []"
  by (induction s arbitrary: w) (auto split: if_splits)

lemma split_query_third:
  assumes "snd (snd (split_query query)) \<noteq> []"
  shows "fst (snd (split_query query)) \<noteq> []"
proof -
  let ?ws = "str_split_ws (strip query)"
  have t: "snd (snd (split_query query)) = (?ws @ [[], [], []]) ! 2"
    and r: "fst (snd (split_query query)) = upper ((?ws @ [[], [], []]) ! 1)"
    by (simp_all add: split_query_def Let_def)
  have "2 < length ?ws"
  proof (rule ccontr)
    assume "\<not> 2 < length ?ws"
    then have "length ?ws = 0 \<or> length ?ws = 1 \<or> length ?ws = 2" by arith
    then have "(?ws @ [[], [], []]) ! 2 = []"
      by (auto simp: nth_append)
    with assms t show False by simp
  qed
  then have "(?ws @ [[], [], []]) ! 1 = ?ws ! 1" and "?ws ! 1 \<in> set ?ws"
    by (simp_all add: nth_append)
  then have "(?ws @ [[], [], []]) ! 1 \<noteq> []"
    using ws_fields_nonempty[of "?ws ! 1" "[]" "strip query"] by (simp add: str_split_ws_def)
  with r show ?thesis by (simp add: upper_def)
qed

lemma ask_unknown:
  assumes f: "f \<noteq> []" "f \<notin> set [''spec'', ''xml'', ''raw'']"
  shows "snd (snd (split_query query)) = [] \<Longrightarrow> \<exists>e. ask c query (Some f) = ([], Some (Inl e))"
    and "snd (snd (split_query query)) \<noteq> [] \<Longrightarrow>
           \<exists>frm1 frm2. ask c query (Some f) =
             ([FormLookup frm1, FormLookup frm2, PathSearch], Some (Inl (unknown_format f)))"
proof -
  obtain a r b where q: "split_query query = (a, r, b)" by (cases "split_query query")
  obtain x y z where u: "unpack3 (split_unit_spec a) = Inr (x, y, z)"
    using unpack3_split_unit_spec by blast
  have g: "get_lex_units c a (Some f) = ([], Inl (unknown_format f))"
    by (simp add: get_lex_units_def u formatter_unknown[OF f] tbind_def lift_def)
  {
    assume "snd (snd (split_query query)) = []"
    with q have b: "b = []" by simp
    show "\<exists>e. ask c query (Some f) = ([], Some (Inl e))"
      using b by (simp add: ask_def q g get_related_lex_units_unknown[OF f])
  }
  {
    assume t: "snd (snd (split_query query)) \<noteq> []"
    with q have b: "b \<noteq> []" by simp
    from split_query_third[OF t] q have r: "r \<noteq> []" by simp
    from test_lex_units_relation_unknown[OF f r, of c a b] obtain frm1 frm2 where
      "test_lex_units_relation c a r b (Some f) =
         ([FormLookup frm1, FormLookup frm2, PathSearch], Some (Inl (unknown_format f)))"
      by blast
    then have "ask c query (Some f) =
         ([FormLookup frm1, FormLookup frm2, PathSearch], Some (Inl (unknown_format f)))"
      using b by (simp add: ask_def q)
    then show "\<exists>frm1 frm2. ask c query (Some f) =
             ([FormLookup frm1, FormLookup frm2, PathSearch], Some (Inl (unknown_format f)))"
      by blast
  }
qed

lemma similarity_ignores_format:
  "resnik_sim c A B sm ct fa = resnik_sim c A B sm ct fb"
  "jiang_conrath_dist c A B sm ct fa = jiang_conrath_dist c A B sm ct fb"
  "jiang_conrath_sim c A B sm ct fa = jiang_conrath_sim c A B sm ct fb"
  "lin_sim c A B sm ct fa = lin_sim c A B sm ct fb"
  by (simp_all add: resnik_sim_def jiang_conrath_dist_def jiang_conrath_sim_def lin_sim_def)

lemma selected_format_default:
  "d = None \<or> d = Some [] \<Longrightarrow> selected_format c d = output_format c"
  by (auto simp: selected_format_def)

lemma selected_format_own: "selected_format c (Some (output_format c)) = output_format c"
  by (simp add: selected_format_def)

lemma formatters_default:
  assumes "d = None \<or> d = Some []"
  shows "get_lex_unit_formatter c d = get_lex_unit_formatter c (Some (output_format c))"
    and "get_relation_formatter c d = get_relation_formatter c (Some (output_format c))"
    and "get_synset_formatter c d = get_synset_formatter c (Some (output_format c))"
    and "get_relation_formatter_el c d = get_relation_formatter_el c (Some (output_format c))"
  by (simp_all add: get_lex_unit_formatter_def get_relation_formatter_def
      get_synset_formatter_def get_relation_formatter_el_def
      selected_format_default[OF assms] selected_format_own)

lemma operations_default:
  assumes d: "d = None \<or> d = Some []"
  shows "get_lex_units c spec d = get_lex_units c spec (Some (output_format c))"
    and "get_related_lex_units c lu_spec rel_spec d =
           get_related_lex_units c lu_spec rel_spec (Some (output_format c))"
    and "test_lex_units_relation c A rel_spec B d =
           test_lex_units_relation c A rel_spec B (Some (output_format c))"
    and "get_synsets c spec d = get_synsets c spec (Some (output_format c))"
    and "get_related_synsets c lu_spec rn d = get_related_synsets c lu_spec rn (Some (output_format c))"
    and "get_lex_unit_by_id c i d = get_lex_unit_by_id c i (Some (output_format c))"
    and "get_synset_by_id c i d = get_synset_by_id c i (Some (output_format c))"
    and "get_lex_unit_from_synset c i lm d = get_lex_unit_from_synset c i lm (Some (output_format c))"
    and "all_common_subsumers c A B r d = all_common_subsumers c A B r (Some (output_format c))"
    and "least_common_subsumers c A B r d = least_common_subsumers c A B r (Some (output_format c))"
    and "get_count c lu_spec sub d = get_count c lu_spec sub (Some (output_format c))"
    and "get_probability c lu_spec sub sm ct d =
           get_probability c lu_spec sub sm ct (Some (output_format c))"
    and "get_info_content c lu_spec sub sm ct d =
           get_info_content c lu_spec sub sm ct (Some (output_format c))"
    and "ask c query d = ask c query (Some (output_format c))"
proof -
  note fd = formatters_default[OF d]
  show g: "get_lex_units c spec d = get_lex_units c spec (Some (output_format c))" for spec
    by (simp add: get_lex_units_def fd cong: sum.case_cong prod.case_cong option.case_cong)
  have rf: "related_lex_units_from c lu_spec n k d =
      related_lex_units_from c lu_spec n k (Some (output_format c))" for n k lu_spec
    by (simp add: related_lex_units_from_def fd cong: sum.case_cong prod.case_cong option.case_cong)
  show r: "get_related_lex_units c lu_spec rel_spec d =
           get_related_lex_units c lu_spec rel_spec (Some (output_format c))" for lu_spec rel_spec
    by (simp add: get_related_lex_units_def rf cong: sum.case_cong prod.case_cong option.case_cong)
  have rp: "reconstruct_path c pr cm su d = reconstruct_path c pr cm su (Some (output_format c))"
    for pr cm su
    by (simp add: reconstruct_path_def fd cong: sum.case_cong prod.case_cong option.case_cong)
  show t: "test_lex_units_relation c A rel_spec B d =
           test_lex_units_relation c A rel_spec B (Some (output_format c))" for A rel_spec B
    by (simp add: test_lex_units_relation_def rp cong: sum.case_cong prod.case_cong option.case_cong)
  show "get_synsets c spec d = get_synsets c spec (Some (output_format c))"
    by (simp add: get_synsets_def fd cong: sum.case_cong prod.case_cong option.case_cong)
  show "get_related_synsets c lu_spec rn d = get_related_synsets c lu_spec rn (Some (output_format c))"
    by (simp add: get_related_synsets_def fd cong: sum.case_cong prod.case_cong option.case_cong)
  show "get_lex_unit_by_id c i d = get_lex_unit_by_id c i (Some (output_format c))"
    by (simp add: get_lex_unit_by_id_def fd cong: sum.case_cong prod.case_cong option.case_cong)
  show "get_synset_by_id c i d = get_synset_by_id c i (Some (output_format c))"
    by (simp add: get_synset_by_id_def fd cong: sum.case_cong prod.case_cong option.case_cong)
  show "get_lex_unit_from_synset c i lm d = get_lex_unit_from_synset c i lm (Some (output_format c))"
    by (simp add: get_lex_unit_from_synset_def fd cong: sum.case_cong prod.case_cong option.case_cong)
  show a: "all_common_subsumers c A B r d = all_common_subsumers c A B r (Some (output_format c))"
    by (simp add: all_common_subsumers_def fd cong: sum.case_cong prod.case_cong option.case_cong)
  show "least_common_subsumers c A B r d = least_common_subsumers c A B r (Some (output_format c))"
    by (simp add: least_common_subsumers_def a cong: sum.case_cong prod.case_cong option.case_cong)
  show "get_count c lu_spec sub d = get_count c lu_spec sub (Some (output_format c))"
    by (simp add: get_count_def fd cong: sum.case_cong prod.case_cong option.case_cong)
  show "get_probability c lu_spec sub sm ct d =
           get_probability c lu_spec sub sm ct (Some (output_format c))"
    by (simp add: get_probability_def fd cong: sum.case_cong prod.case_cong option.case_cong)
  show "get_info_content c lu_spec sub sm ct d =
           get_info_content c lu_spec sub sm ct (Some (output_format c))"
    by (simp add: get_info_content_def fd cong: sum.case_cong prod.case_cong option.case_cong)
  show "ask c query d = ask c query (Some (output_format c))"
    by (simp add: ask_def g r t split: prod.splits)
qed

lemma operations_unknown:
  assumes f: "f \<noteq> []" "f \<notin> set [''spec'', ''xml'', ''raw'']"
  shows "get_lex_units c spec (Some f) = ([], Inl (unknown_format f))"
    and "all_common_subsumers c A B r (Some f) = ([], Inl (unknown_format f))"
    and "least_common_subsumers c A B r (Some f) = ([], Inl (unknown_format f))"
    and "get_synsets c spec (Some f) = ([], Inl (unknown_format f))"
    and "get_related_synsets c spec rn (Some f) = ([], Inl (unknown_format f))"
    and "get_lex_unit_by_id c i (Some f) = ([], Inl (unknown_format f))"
    and "get_synset_by_id c i (Some f) = ([], Inl (unknown_format f))"
    and "get_count c spec sub (Some f) = ([], Inl (unknown_format f))"
    and "get_probability c spec sub sm ct (Some f) = ([], Inl (unknown_format f))"
    and "get_info_content c spec sub sm ct (Some f) = ([], Inl (unknown_format f))"
    and "get_lex_unit_from_synset c i lm (Some f) =
           ([SynsetLookup (Some i)],
            if c_sy_id2synset c i = None then Inr None else Inl (unknown_format f))"
proof -
  note fu = formatter_unknown[OF f] synset_formatter_unknown[OF f]
  obtain x y z where u: "unpack3 (split_unit_spec spec) = Inr (x, y, z)"
    using unpack3_split_unit_spec by blast
  show "get_lex_units c spec (Some f) = ([], Inl (unknown_format f))"
    by (simp add: get_lex_units_def u fu tbind_def lift_def)
  show a: "all_common_subsumers c A B r (Some f) = ([], Inl (unknown_format f))"
    by (simp add: all_common_subsumers_def fu tbind_def lift_def)
  show "least_common_subsumers c A B r (Some f) = ([], Inl (unknown_format f))"
    by (simp add: least_common_subsumers_def a tbind_def)
  show "get_synsets c spec (Some f) = ([], Inl (unknown_format f))"
    by (simp add: get_synsets_def u fu tbind_def lift_def)
  show "get_related_synsets c spec rn (Some f) = ([], Inl (unknown_format f))"
    by (simp add: get_related_synsets_def u fu tbind_def lift_def)
  show "get_lex_unit_by_id c i (Some f) = ([], Inl (unknown_format f))"
    by (simp add: get_lex_unit_by_id_def fu tbind_def lift_def)
  show "get_synset_by_id c i (Some f) = ([], Inl (unknown_format f))"
    by (simp add: get_synset_by_id_def fu tbind_def lift_def)
  show "get_count c spec sub (Some f) = ([], Inl (unknown_format f))"
    by (simp add: get_count_def fu tbind_def lift_def)
  show "get_probability c spec sub sm ct (Some f) = ([], Inl (unknown_format f))"
    by (simp add: get_probability_def fu tbind_def lift_def)
  show "get_info_content c spec sub sm ct (Some f) = ([], Inl (unknown_format f))"
    by (simp add: get_info_content_def fu tbind_def lift_def)
  show "get_lex_unit_from_synset c i lm (Some f) =
           ([SynsetLookup (Some i)],
            if c_sy_id2synset c i = None then Inr None else Inl (unknown_format f))"
    by (cases "c_sy_id2synset c i")
      (simp_all add: get_lex_unit_from_synset_def fu tbind_def lift_def emit_def ret_def)
qed

text \<open>
  The operations on the synsets on the example with two synsets, in the default format:
  what they return and what they look up.
\<close>

lemma syn_db_queries:
  "get_synsets syn_db ''pin'' None =
     ([FormLookup ''pin'', SynsetLookup (Some ''s1''), UnitLookup (Some ''1''), UnitLookup (Some ''2'')],
      Inr [SynSpecs [''pin:noun:1'', ''tang:noun:1'']]) \<and>
   get_related_synsets syn_db ''pin'' None None =
     ([FormLookup ''pin'', SynsetLookup (Some ''s1''), SynsetLookup (Some ''s2''),
       UnitLookup (Some ''3'')],
      Inr [(RelNone, [SynSpecs [''gereedschap:noun:1'']])]) \<and>
   get_related_synsets syn_db ''pin'' (Some ''has_hyperonym'') None =
     ([FormLookup ''pin'', SynsetLookup (Some ''s1'')], Inr []) \<and>
   get_lex_unit_by_id syn_db ''2'' None = ([UnitLookup (Some ''2'')], Inr (Some (OutStr ''tang:noun:1''))) \<and>
   get_synset_by_id syn_db ''d1'' (Some ''raw'') =
     ([SynsetLookup (Some ''d1'')], Inr (Some (SynRaw pin_synset))) \<and>
   get_lex_unit_from_synset syn_db ''s1'' ''tang'' None =
     ([SynsetLookup (Some ''s1''), UnitLookup (Some ''1''), UnitLookup (Some ''2'')],
      Inr (Some (OutStr ''tang:noun:1''))) \<and>
   ask syn_db ''pin synonym tang'' None =
     ([FormLookup ''pin'', FormLookup ''tang'', PathSearch],
      Some (Inr (Path [OutStr ''pin:noun:1'', OutStr ''SYNONYM'', OutStr ''tang:noun:1'']))) \<and>
   ask syn_db '' pin  has_hyperonym '' None =
     ([FormLookup ''pin'', RelatedSearch],
      Some (Inr (Related [(OutStr ''pin:noun:1'',
         RelTree [(OutStr ''HAS_HYPERONYM'', [(OutStr ''gereedschap:noun:1'', RelTree [])])])]))) \<and>
   ask syn_db ''pin'' None = ([FormLookup ''pin''], Some (Inr (Units [OutStr ''pin:noun:1''])))"
  by code_simp

lemma resnik_a_b: "resnik_sim sim_db ''a'' ''b'' False False fmt = Inr (Some 1)"
  by (simp add: resnik_sim_def units_a units_b lcs_a_b raw_lus_def List.map_filter_simps ic_h1
      py_max_def)

lemma query_two: "split_query ''pin synonym'' = (''pin'', ''SYNONYM'', [])"
  by code_simp

lemma query_three: "split_query ''pin synonym tang'' = (''pin'', ''SYNONYM'', ''tang'')"
  by code_simp

text \<open>
  C9, as the code has it. Let the format selector be not empty and none of \<^verbatim>\<open>spec\<close>,
  \<^verbatim>\<open>xml\<close> and \<^verbatim>\<open>raw\<close>. Then \<^verbatim>\<open>get_lex_units\<close>, \<^verbatim>\<open>get_synsets\<close>, \<^verbatim>\<open>get_related_synsets\<close>,
  \<^verbatim>\<open>get_lex_unit_by_id\<close>, \<^verbatim>\<open>get_synset_by_id\<close>, \<^verbatim>\<open>all_common_subsumers\<close>,
  \<^verbatim>\<open>least_common_subsumers\<close>, \<^verbatim>\<open>get_count\<close>, \<^verbatim>\<open>get_probability\<close> and \<^verbatim>\<open>get_info_content\<close>
  raise the error of the unknown output format before any lookup or search.
  \<^verbatim>\<open>get_related_lex_units\<close> raises before any lookup or search as well: the error of its
  relation specification, if that is empty or a digit above the maximal depth, and else
  the error of the unknown output format. \<^verbatim>\<open>test_lex_units_relation\<close>, for a relation
  specification that is not empty, raises the error of the unknown output format only
  after its two lookups and its bidirectional search. \<^verbatim>\<open>get_lex_unit_from_synset\<close> looks
  its synset up first: it returns \<^verbatim>\<open>None\<close> when there is no such synset and raises the error
  of the unknown output format, right after that lookup, when there is one. \<^verbatim>\<open>ask\<close> does as
  the operation it passes the query to: for a query of one or two parts it raises before
  any lookup or search, for a query of three parts after two lookups and the search. The
  similarity measures \<^verbatim>\<open>resnik_sim\<close>, \<^verbatim>\<open>jiang_conrath_dist\<close>, \<^verbatim>\<open>jiang_conrath_sim\<close> and
  \<^verbatim>\<open>lin_sim\<close> do not read the selector: their result is the same for every selector. With
  the selector \<^verbatim>\<open>None\<close> or the empty selector every operation does what it does with the
  default format of the instance as selector.
\<close>

theorem unknown_format_raised:
  "(f \<noteq> [] \<and> f \<notin> set [''spec'', ''xml'', ''raw''] \<longrightarrow>
      get_lex_units c spec (Some f) = ([], Inl (unknown_format f)) \<and>
      get_synsets c spec (Some f) = ([], Inl (unknown_format f)) \<and>
      get_related_synsets c spec rn (Some f) = ([], Inl (unknown_format f)) \<and>
      get_lex_unit_by_id c i (Some f) = ([], Inl (unknown_format f)) \<and>
      get_synset_by_id c i (Some f) = ([], Inl (unknown_format f)) \<and>
      all_common_subsumers c A B r (Some f) = ([], Inl (unknown_format f)) \<and>
      least_common_subsumers c A B r (Some f) = ([], Inl (unknown_format f)) \<and>
      get_count c spec sub (Some f) = ([], Inl (unknown_format f)) \<and>
      get_probability c spec sub sm ct (Some f) = ([], Inl (unknown_format f)) \<and>
      get_info_content c spec sub sm ct (Some f) = ([], Inl (unknown_format f)) \<and>
      related_lex_units_from c spec rel_name depth (Some f) = ([], Inl (unknown_format f)) \<and>
      get_related_lex_units c spec rel_spec (Some f) =
        ([], Inl (if rel_spec = [] then IndexError
                  else if length rel_spec = 1 \<and> last rel_spec \<in> set ''123456789'' \<and>
                          digit_value (last rel_spec) > max_depth c
                    then ValueError ''requested search depth is larger than maximum search depth''
                  else unknown_format f)) \<and>
      (rel_spec \<noteq> [] \<longrightarrow>
         (\<exists>frm1 frm2. test_lex_units_relation c A rel_spec B (Some f) =
            ([FormLookup frm1, FormLookup frm2, PathSearch], Some (Inl (unknown_format f))))) \<and>
      get_lex_unit_from_synset c i lm (Some f) =
        ([SynsetLookup (Some i)],
         if c_sy_id2synset c i = None then Inr None else Inl (unknown_format f)) \<and>
      (snd (snd (split_query query)) = [] \<longrightarrow>
         (\<exists>e. ask c query (Some f) = ([], Some (Inl e)))) \<and>
      (snd (snd (split_query query)) \<noteq> [] \<longrightarrow>
         (\<exists>frm1 frm2. ask c query (Some f) =
            ([FormLookup frm1, FormLookup frm2, PathSearch], Some (Inl (unknown_format f)))))) \<and>
   resnik_sim c A B sm ct fa = resnik_sim c A B sm ct fb \<and>
   jiang_conrath_dist c A B sm ct fa = jiang_conrath_dist c A B sm ct fb \<and>
   jiang_conrath_sim c A B sm ct fa = jiang_conrath_sim c A B sm ct fb \<and>
   lin_sim c A B sm ct fa = lin_sim c A B sm ct fb \<and>
   (d = None \<or> d = Some [] \<longrightarrow>
      selected_format c d = output_format c \<and>
      get_lex_units c spec d = get_lex_units c spec (Some (output_format c)) \<and>
      get_related_lex_units c spec rel_spec d =
        get_related_lex_units c spec rel_spec (Some (output_format c)) \<and>
      test_lex_units_relation c A rel_spec B d =
        test_lex_units_relation c A rel_spec B (Some (output_format c)) \<and>
      get_synsets c spec d = get_synsets c spec (Some (output_format c)) \<and>
      get_related_synsets c spec rn d = get_related_synsets c spec rn (Some (output_format c)) \<and>
      get_lex_unit_by_id c i d = get_lex_unit_by_id c i (Some (output_format c)) \<and>
      get_synset_by_id c i d = get_synset_by_id c i (Some (output_format c)) \<and>
      get_lex_unit_from_synset c i lm d =
        get_lex_unit_from_synset c i lm (Some (output_format c)) \<and>
      all_common_subsumers c A B r d = all_common_subsumers c A B r (Some (output_format c)) \<and>
      least_common_subsumers c A B r d =
        least_common_subsumers c A B r (Some (output_format c)) \<and>
      get_count c spec sub d = get_count c spec sub (Some (output_format c)) \<and>
      get_probability c spec sub sm ct d =
        get_probability c spec sub sm ct (Some (output_format c)) \<and>
      get_info_content c spec sub sm ct d =
        get_info_content c spec sub sm ct (Some (output_format c)) \<and>
      ask c query d = ask c query (Some (output_format c)))"
proof (intro conjI impI)
  assume h: "f \<noteq> [] \<and> f \<notin> set [''spec'', ''xml'', ''raw'']"
  then have f: "f \<noteq> []" "f \<notin> set [''spec'', ''xml'', ''raw'']" by auto
  note u = operations_unknown[OF f]
  show "get_lex_units c spec (Some f) = ([], Inl (unknown_format f))" by (rule u)
  show "get_synsets c spec (Some f) = ([], Inl (unknown_format f))" by (rule u)
  show "get_related_synsets c spec rn (Some f) = ([], Inl (unknown_format f))" by (rule u)
  show "get_lex_unit_by_id c i (Some f) = ([], Inl (unknown_format f))" by (rule u)
  show "get_synset_by_id c i (Some f) = ([], Inl (unknown_format f))" by (rule u)
  show "all_common_subsumers c A B r (Some f) = ([], Inl (unknown_format f))" by (rule u)
  show "least_common_subsumers c A B r (Some f) = ([], Inl (unknown_format f))" by (rule u)
  show "get_count c spec sub (Some f) = ([], Inl (unknown_format f))" by (rule u)
  show "get_probability c spec sub sm ct (Some f) = ([], Inl (unknown_format f))" by (rule u)
  show "get_info_content c spec sub sm ct (Some f) = ([], Inl (unknown_format f))" by (rule u)
  show "related_lex_units_from c spec rel_name depth (Some f) = ([], Inl (unknown_format f))"
    by (rule related_lex_units_from_unknown[OF f])
  show "get_related_lex_units c spec rel_spec (Some f) =
        ([], Inl (if rel_spec = [] then IndexError
                  else if length rel_spec = 1 \<and> last rel_spec \<in> set ''123456789'' \<and>
                          digit_value (last rel_spec) > max_depth c
                    then ValueError ''requested search depth is larger than maximum search depth''
                  else unknown_format f))"
    by (rule get_related_lex_units_unknown[OF f])
  show "get_lex_unit_from_synset c i lm (Some f) =
        ([SynsetLookup (Some i)],
         if c_sy_id2synset c i = None then Inr None else Inl (unknown_format f))"
    by (rule u)
  {
    assume "rel_spec \<noteq> []"
    then show "\<exists>frm1 frm2. test_lex_units_relation c A rel_spec B (Some f) =
            ([FormLookup frm1, FormLookup frm2, PathSearch], Some (Inl (unknown_format f)))"
      by (rule test_lex_units_relation_unknown[OF f])
  }
  {
    assume "snd (snd (split_query query)) = []"
    then show "\<exists>e. ask c query (Some f) = ([], Some (Inl e))"
      by (rule ask_unknown(1)[OF f])
  }
  {
    assume "snd (snd (split_query query)) \<noteq> []"
    then show "\<exists>frm1 frm2. ask c query (Some f) =
            ([FormLookup frm1, FormLookup frm2, PathSearch], Some (Inl (unknown_format f)))"
      by (rule ask_unknown(2)[OF f])
  }
next
  show "resnik_sim c A B sm ct fa = resnik_sim c A B sm ct fb"
    by (rule similarity_ignores_format)
  show "jiang_conrath_dist c A B sm ct fa = jiang_conrath_dist c A B sm ct fb"
    by (rule similarity_ignores_format)
  show "jiang_conrath_sim c A B sm ct fa = jiang_conrath_sim c A B sm ct fb"
    by (rule similarity_ignores_format)
  show "lin_sim c A B sm ct fa = lin_sim c A B sm ct fb"
    by (rule similarity_ignores_format)
next
  assume d: "d = None \<or> d = Some []"
  note o = operations_default[OF d]
  show "selected_format c d = output_format c" by (rule selected_format_default[OF d])
  show "get_lex_units c spec d = get_lex_units c spec (Some (output_format c))" by (rule o)
  show "get_related_lex_units c spec rel_spec d =
        get_related_lex_units c spec rel_spec (Some (output_format c))" by (rule o)
  show "test_lex_units_relation c A rel_spec B d =
        test_lex_units_relation c A rel_spec B (Some (output_format c))" by (rule o)
  show "get_synsets c spec d = get_synsets c spec (Some (output_format c))" by (rule o)
  show "get_related_synsets c spec rn d = get_related_synsets c spec rn (Some (output_format c))"
    by (rule o)
  show "get_lex_unit_by_id c i d = get_lex_unit_by_id c i (Some (output_format c))" by (rule o)
  show "get_synset_by_id c i d = get_synset_by_id c i (Some (output_format c))" by (rule o)
  show "get_lex_unit_from_synset c i lm d =
        get_lex_unit_from_synset c i lm (Some (output_format c))" by (rule o)
  show "all_common_subsumers c A B r d = all_common_subsumers c A B r (Some (output_format c))"
    by (rule o)
  show "least_common_subsumers c A B r d =
        least_common_subsumers c A B r (Some (output_format c))" by (rule o)
  show "get_count c spec sub d = get_count c spec sub (Some (output_format c))" by (rule o)
  show "get_probability c spec sub sm ct d =
        get_probability c spec sub sm ct (Some (output_format c))" by (rule o)
  show "get_info_content c spec sub sm ct d =
        get_info_content c spec sub sm ct (Some (output_format c))" by (rule o)
  show "ask c query d = ask c query (Some (output_format c))" by (rule o)
qed

theorem unknown_format_raised_witness:
  "get_lex_units syn_db ''pin'' (Some ''bogus'') = ([], Inl (unknown_format ''bogus'')) \<and>
   get_synsets syn_db ''pin'' (Some ''bogus'') = ([], Inl (unknown_format ''bogus'')) \<and>
   get_related_synsets syn_db ''pin'' None (Some ''bogus'') = ([], Inl (unknown_format ''bogus'')) \<and>
   get_lex_unit_by_id syn_db ''s1'' (Some ''bogus'') = ([], Inl (unknown_format ''bogus'')) \<and>
   get_synset_by_id syn_db ''s1'' (Some ''bogus'') = ([], Inl (unknown_format ''bogus'')) \<and>
   least_common_subsumers syn_db ''pin'' ''tang'' hyperonym (Some ''bogus'') =
     ([], Inl (unknown_format ''bogus'')) \<and>
   get_info_content syn_db ''pin'' True False False (Some ''bogus'') =
     ([], Inl (unknown_format ''bogus'')) \<and>
   get_related_lex_units syn_db ''pin'' ''synonym'' (Some ''bogus'') =
     ([], Inl (unknown_format ''bogus'')) \<and>
   (\<exists>frm1 frm2. test_lex_units_relation syn_db ''pin'' ''synonym'' ''tang'' (Some ''bogus'') =
      ([FormLookup frm1, FormLookup frm2, PathSearch], Some (Inl (unknown_format ''bogus'')))) \<and>
   get_lex_unit_from_synset syn_db ''s1'' ''tang'' (Some ''bogus'') =
     ([SynsetLookup (Some ''s1'')], Inl (unknown_format ''bogus'')) \<and>
   (\<exists>e. ask syn_db ''pin synonym'' (Some ''bogus'') = ([], Some (Inl e))) \<and>
   (\<exists>frm1 frm2. ask syn_db ''pin synonym tang'' (Some ''bogus'') =
      ([FormLookup frm1, FormLookup frm2, PathSearch], Some (Inl (unknown_format ''bogus'')))) \<and>
   lin_sim syn_db ''pin'' ''tang'' False False (Some ''bogus'') =
     lin_sim syn_db ''pin'' ''tang'' False False None \<and>
   selected_format syn_db None = ''spec'' \<and>
   get_synsets syn_db ''pin'' None = get_synsets syn_db ''pin'' (Some ''spec'') \<and>
   ask syn_db ''pin synonym tang'' None = ask syn_db ''pin synonym tang'' (Some ''spec'')"
proof -
  have o: "output_format syn_db = ''spec''" and s: "c_sy_id2synset syn_db ''s1'' \<noteq> None"
    by (simp_all add: syn_db_def)
  note t = unknown_format_raised[where f = "''bogus''" and c = syn_db and spec = "''pin''"
      and rn = None and i = "''s1''" and A = "''pin''" and B = "''tang''" and r = hyperonym
      and sub = True and sm = False and ct = False and rel_name = "[]" and depth = 1
      and rel_spec = "''synonym''" and lm = "''tang''"
      and fa = "Some ''bogus''" and fb = None and d = None]
  from t[where query = "''pin synonym''"] t[where query = "''pin synonym tang''"]
  show ?thesis
    by (simp add: o s query_two query_three)
qed

text \<open>
  Against C9 as it is stated: \<^verbatim>\<open>test_lex_units_relation\<close> with the format \<^verbatim>\<open>bogus\<close> has
  started its bidirectional search before it raises; \<^verbatim>\<open>get_lex_unit_from_synset\<close> with
  the format \<^verbatim>\<open>bogus\<close> returns \<^verbatim>\<open>None\<close> for a synset that does not exist; \<^verbatim>\<open>resnik_sim\<close>
  with the format \<^verbatim>\<open>bogus\<close> returns a similarity.
\<close>

theorem unknown_format_after_search_counterexample:
  "test_lex_units_relation lamp_db ''lamp'' ''HAS_HYPONYM'' ''gloeilamp'' (Some ''bogus'') =
     ([FormLookup ''lamp'', FormLookup ''gloeilamp'', PathSearch],
      Some (Inl (ValueError ''unknown output format: bogus''))) \<and>
   get_lex_unit_from_synset syn_db ''s9'' ''pin'' (Some ''bogus'') =
     ([SynsetLookup (Some ''s9'')], Inr None) \<and>
   resnik_sim sim_db ''a'' ''b'' False False (Some ''bogus'') = Inr (Some 1)"
proof -
  have "test_lex_units_relation lamp_db ''lamp'' ''HAS_HYPONYM'' ''gloeilamp'' (Some ''bogus'') =
     ([FormLookup ''lamp'', FormLookup ''gloeilamp'', PathSearch],
      Some (Inl (ValueError ''unknown output format: bogus'')))"
    by code_simp
  moreover have "get_lex_unit_from_synset syn_db ''s9'' ''pin'' (Some ''bogus'') =
     ([SynsetLookup (Some ''s9'')], Inr None)"
    by code_simp
  ultimately show ?thesis using resnik_a_b by simp
qed

section \<open>The distance of Jiang and Conrath: properties\<close>

lemma lower_all_append: "lower_all (xs @ ys) m = lower_all ys (lower_all xs m)"
  by (simp add: lower_all_def)

lemma lower_all_Nil: "lower_all [] m = m"
  by (simp add: lower_all_def)

lemma lower_all_Cons: "lower_all (x # xs) m = lower_all xs (lower_dist x m)"
  by (simp add: lower_all_def)

lemma lower_all_Some: "lower_all xs (Some v) = Some (Min (insert v (set xs)))"
proof (induction xs arbitrary: v)
  case Nil
  then show ?case by (simp add: lower_all_Nil)
next
  case (Cons x xs)
  have "lower_dist x (Some v) = Some (min x v)"
    by (simp add: lower_dist_def min_def)
  then have "lower_all (x # xs) (Some v) = Some (Min (insert (min x v) (set xs)))"
    by (simp add: lower_all_Cons Cons.IH)
  also have "Min (insert (min x v) (set xs)) = Min (insert v (set (x # xs)))"
  proof (cases "xs = []")
    case True
    then show ?thesis by (simp add: min.commute)
  next
    case False
    then have "Min (insert (min x v) (set xs)) = min (min x v) (Min (set xs))" by simp
    also have "\<dots> = min v (min x (Min (set xs)))" by (simp add: min.assoc min.commute)
    also have "\<dots> = Min (insert v (set (x # xs)))" using False by simp
    finally show ?thesis .
  qed
  finally show ?case .
qed

lemma lower_all_None: "lower_all xs None = least xs"
proof (cases xs)
  case Nil
  then show ?thesis by (simp add: lower_all_Nil least_def)
next
  case (Cons x ys)
  have "lower_dist x None = Some x" by (simp add: lower_dist_def)
  then show ?thesis using Cons
    by (simp add: lower_all_Cons lower_all_Some least_def)
qed

lemma ic_of_Inr: "IC c l True smooth cat_totals = Inr v \<Longrightarrow> ic_of c smooth cat_totals l = v"
  by (simp add: ic_of_def)

lemma jc_lcs_loop_lower:
  assumes "jc_lcs_loop c smooth cat_totals ic1 ic2 lcss m = Inr m'"
  shows "m' = lower_all (map (\<lambda>x. ic1 + ic2 - 2 * x)
                (List.map_filter (ic_of c smooth cat_totals) lcss)) m"
  using assms
proof (induction lcss arbitrary: m)
  case Nil
  then show ?case by (simp add: lower_all_Nil List.map_filter_simps)
next
  case (Cons lcs rest)
  show ?case
  proof (cases "IC c lcs True smooth cat_totals")
    case (Inl e)
    with Cons.prems show ?thesis by simp
  next
    case (Inr v)
    note i = ic_of_Inr[OF Inr]
    show ?thesis
    proof (cases v)
      case None
      with Inr Cons.prems have "jc_lcs_loop c smooth cat_totals ic1 ic2 rest m = Inr m'" by simp
      from Cons.IH[OF this] i None show ?thesis by (simp add: List.map_filter_simps)
    next
      case (Some x)
      with Inr Cons.prems have "jc_lcs_loop c smooth cat_totals ic1 ic2 rest
          (lower_dist (ic1 + ic2 - 2 * x) m) = Inr m'" by simp
      from Cons.IH[OF this] i Some show ?thesis
        by (simp add: List.map_filter_simps lower_all_Cons)
    qed
  qed
qed

lemma get_lex_units_snd_raw:
  assumes "snd (get_lex_units c spec (Some ''raw'')) = Inr xs"
  shows "\<exists>frm. get_lex_units c spec (Some ''raw'') = ([FormLookup frm], Inr (map OutLu (raw_lus xs)))"
proof -
  obtain frm ls where g: "get_lex_units c spec (Some ''raw'') = ([FormLookup frm], Inr (map OutLu ls))"
    using get_lex_units_raw by blast
  with assms have "xs = map OutLu ls" by simp
  with g show ?thesis by (auto simp: raw_lus_map)
qed

lemma upper_hyperonym: "upper hyperonym = hyperonym"
  by (simp add: hyperonym_def upper_def upper_char_def)

lemma pair_lcs_roundtrip:
  assumes r1: "snd (get_lex_units c (lu_to_spec u1) (Some ''raw'')) = Inr [OutLu u1]"
    and r2: "snd (get_lex_units c (lu_to_spec u2) (Some ''raw'')) = Inr [OutLu u2]"
    and l: "snd (least_common_subsumers c (lu_to_spec u1) (lu_to_spec u2) hyperonym (Some ''raw''))
              = Inr lcss"
  shows "raw_lus lcss = unit_lcs c u1 u2"
proof -
  obtain f1 where g1: "get_lex_units c (lu_to_spec u1) (Some ''raw'') = ([FormLookup f1], Inr (map OutLu [u1]))"
    using get_lex_units_snd_raw[OF r1] by (auto simp: raw_lus_def List.map_filter_simps)
  obtain f2 where g2: "get_lex_units c (lu_to_spec u2) (Some ''raw'') = ([FormLookup f2], Inr (map OutLu [u2]))"
    using get_lex_units_snd_raw[OF r2] by (auto simp: raw_lus_def List.map_filter_simps)
  have f: "get_lex_unit_formatter c (Some ''raw'') = Inr OutLu"
    by (simp add: get_lex_unit_formatter_def selected_format_def)
  have shape: "all_common_subsumers c (lu_to_spec u1) (lu_to_spec u2) hyperonym (Some ''raw'') =
      ([FormLookup f1] @ ClosureSearch # [FormLookup f2] @ [ClosureSearch], Inr (unit_acs c u1 u2))"
    using all_common_subsumers_shape[OF f g1 g2, of hyperonym]
    by (simp add: unit_acs_def upper_hyperonym)
  show ?thesis
  proof (cases "unit_acs c u1 u2 = []")
    case True
    with least_common_subsumers_of[OF shape] l show ?thesis
      by (simp add: unit_lcs_def raw_lus_def List.map_filter_simps)
  next
    case False
    from min_key_present[OF False] obtain g where
      m: "min_list (map fst (unit_acs c u1 u2)) = Min (keys (unit_acs c u1 u2))"
      and g: "map_of (unit_acs c u1 u2) (Min (keys (unit_acs c u1 u2))) = Some g" by blast
    with least_common_subsumers_of[OF shape] l False show ?thesis
      by (simp add: unit_lcs_def)
  qed
qed

lemma jc_lu2_loop_lower:
  assumes r1: "snd (get_lex_units c (lu_to_spec u1) (Some ''raw'')) = Inr [OutLu u1]"
    and r2: "\<forall>u \<in> set lus2. snd (get_lex_units c (lu_to_spec u) (Some ''raw'')) = Inr [OutLu u]"
    and i1: "ic_of c smooth cat_totals u1 = Some ic1"
    and run: "jc_lu2_loop c smooth cat_totals u1 ic1 lus2 m = Inr m'"
  shows "m' = lower_all (concat (map (pair_candidates c smooth cat_totals u1) lus2)) m"
  using r2 run
proof (induction lus2 arbitrary: m)
  case Nil
  then show ?case by (simp add: lower_all_Nil)
next
  case (Cons u2 rest)
  from Cons.prems(1) have rr: "\<forall>u \<in> set rest. snd (get_lex_units c (lu_to_spec u) (Some ''raw'')) = Inr [OutLu u]"
    and ru2: "snd (get_lex_units c (lu_to_spec u2) (Some ''raw'')) = Inr [OutLu u2]" by auto
  show ?case
  proof (cases "IC c u2 True smooth cat_totals")
    case (Inl e)
    with Cons.prems(2) show ?thesis by simp
  next
    case (Inr v)
    note i = ic_of_Inr[OF Inr]
    show ?thesis
    proof (cases v)
      case None
      with Inr Cons.prems(2) have "jc_lu2_loop c smooth cat_totals u1 ic1 rest m = Inr m'" by simp
      from Cons.IH[OF rr this] i None i1 show ?thesis by (simp add: pair_candidates_def)
    next
      case (Some ic2)
      show ?thesis
      proof (cases "snd (least_common_subsumers c (lu_to_spec u1) (lu_to_spec u2) hyperonym (Some ''raw''))")
        case (Inl e)
        with Inr Some Cons.prems(2) show ?thesis by simp
      next
        case lc: (Inr lcss)
        note eq = pair_lcs_roundtrip[OF r1 ru2 lc]
        show ?thesis
        proof (cases "jc_lcs_loop c smooth cat_totals ic1 ic2 (raw_lus lcss) m")
          case (Inl e)
          with Inr Some lc Cons.prems(2) show ?thesis by simp
        next
          case md: (Inr m1)
          from jc_lcs_loop_lower[OF md] eq
          have m1: "m1 = lower_all (lcs_dists c smooth cat_totals u1 u2 ic1 ic2) m"
            by (simp add: lcs_dists_def)
          from Inr Some lc md Cons.prems(2)
          have "jc_lu2_loop c smooth cat_totals u1 ic1 rest (lower_dist (ic1 + ic2) m1) = Inr m'"
            by simp
          from Cons.IH[OF rr this] m1 i Some i1 show ?thesis
            by (simp add: pair_candidates_def lower_all_append lower_all_Cons lower_all_Nil)
        qed
      qed
    qed
  qed
qed

lemma jc_lu1_loop_lower:
  assumes r1: "\<forall>u \<in> set lus1. snd (get_lex_units c (lu_to_spec u) (Some ''raw'')) = Inr [OutLu u]"
    and r2: "\<forall>u \<in> set lus2. snd (get_lex_units c (lu_to_spec u) (Some ''raw'')) = Inr [OutLu u]"
    and run: "jc_lu1_loop c smooth cat_totals lus1 lus2 m = Inr m'"
  shows "m' = lower_all (over_pairs (pair_candidates c smooth cat_totals) lus1 lus2) m"
  using r1 run
proof (induction lus1 arbitrary: m)
  case Nil
  then show ?case by (simp add: lower_all_Nil over_pairs_def)
next
  case (Cons u1 rest)
  from Cons.prems(1) have rr: "\<forall>u \<in> set rest. snd (get_lex_units c (lu_to_spec u) (Some ''raw'')) = Inr [OutLu u]"
    and ru1: "snd (get_lex_units c (lu_to_spec u1) (Some ''raw'')) = Inr [OutLu u1]" by auto
  show ?case
  proof (cases "IC c u1 True smooth cat_totals")
    case (Inl e)
    with Cons.prems(2) show ?thesis by simp
  next
    case (Inr v)
    note i = ic_of_Inr[OF Inr]
    show ?thesis
    proof (cases v)
      case None
      have nil: "concat (map (pair_candidates c smooth cat_totals u1) lus2) = []"
        using i None by (simp add: pair_candidates_def)
      from None Inr Cons.prems(2) have "jc_lu1_loop c smooth cat_totals rest lus2 m = Inr m'" by simp
      from Cons.IH[OF rr this] show ?thesis by (simp add: over_pairs_def nil)
    next
      case (Some ic1)
      with i have i1: "ic_of c smooth cat_totals u1 = Some ic1" by simp
      show ?thesis
      proof (cases "jc_lu2_loop c smooth cat_totals u1 ic1 lus2 m")
        case (Inl e)
        with Inr Some Cons.prems(2) show ?thesis by simp
      next
        case md: (Inr m1)
        from jc_lu2_loop_lower[OF ru1 r2 i1 md]
        have m1: "m1 = lower_all (concat (map (pair_candidates c smooth cat_totals u1) lus2)) m" .
        from Inr Some md Cons.prems(2) have "jc_lu1_loop c smooth cat_totals rest lus2 m1 = Inr m'"
          by simp
        from Cons.IH[OF rr this] m1 show ?thesis
          by (simp add: over_pairs_def lower_all_append)
      qed
    qed
  qed
qed

lemma over_pairs_empty_iff:
  "over_pairs (pair_candidates c smooth cat_totals) lus1 lus2 = [] \<longleftrightarrow>
   \<not> (\<exists>u1 \<in> set lus1. \<exists>u2 \<in> set lus2.
        ic_of c smooth cat_totals u1 \<noteq> None \<and> ic_of c smooth cat_totals u2 \<noteq> None)"
  by (auto simp: over_pairs_def pair_candidates_def split: option.splits)

text \<open>
  What \<^verbatim>\<open>jiang_conrath_dist\<close> computes where the specification \<^verbatim>\<open>form:cat:sense\<close> of every
  resolved unit resolves to that unit only: when it returns, the result is the minimum of
  the candidates of all pairs of resolved units whose information contents are both
  defined, where the candidates of a pair are the sum of the two information contents,
  for every pair, and that sum less twice the information content of each least common
  subsumer of the pair whose information content is defined.
\<close>

lemma jiang_conrath_dist_candidates:
  "(\<forall>u \<in> set lus1 \<union> set lus2.
      snd (get_lex_units c (lu_to_spec u) (Some ''raw'')) = Inr [OutLu u]) \<and>
   snd (get_lex_units c lu_spec1 (Some ''raw'')) = Inr (map OutLu lus1) \<and>
   snd (get_lex_units c lu_spec2 (Some ''raw'')) = Inr (map OutLu lus2) \<and>
   jiang_conrath_dist c lu_spec1 lu_spec2 smooth cat_totals fmt = Inr r \<longrightarrow>
     r = least (over_pairs (pair_candidates c smooth cat_totals) lus1 lus2) \<and>
     (r = None \<longleftrightarrow>
        \<not> (\<exists>u1 \<in> set lus1. \<exists>u2 \<in> set lus2.
             ic_of c smooth cat_totals u1 \<noteq> None \<and> ic_of c smooth cat_totals u2 \<noteq> None))"
proof (intro impI)
  assume h: "(\<forall>u \<in> set lus1 \<union> set lus2.
      snd (get_lex_units c (lu_to_spec u) (Some ''raw'')) = Inr [OutLu u]) \<and>
   snd (get_lex_units c lu_spec1 (Some ''raw'')) = Inr (map OutLu lus1) \<and>
   snd (get_lex_units c lu_spec2 (Some ''raw'')) = Inr (map OutLu lus2) \<and>
   jiang_conrath_dist c lu_spec1 lu_spec2 smooth cat_totals fmt = Inr r"
  then have r1: "\<forall>u \<in> set lus1. snd (get_lex_units c (lu_to_spec u) (Some ''raw'')) = Inr [OutLu u]"
    and r2: "\<forall>u \<in> set lus2. snd (get_lex_units c (lu_to_spec u) (Some ''raw'')) = Inr [OutLu u]"
    by auto
  from h have g1: "snd (get_lex_units c lu_spec1 (Some ''raw'')) = Inr (map OutLu lus1)"
    and g2: "snd (get_lex_units c lu_spec2 (Some ''raw'')) = Inr (map OutLu lus2)"
    and run: "jiang_conrath_dist c lu_spec1 lu_spec2 smooth cat_totals fmt = Inr r"
    by auto
  from run have "jc_lu1_loop c smooth cat_totals lus1 lus2 None = Inr r"
    by (simp add: jiang_conrath_dist_def g1 g2 raw_lus_map)
  from jc_lu1_loop_lower[OF r1 r2 this]
  have r: "r = least (over_pairs (pair_candidates c smooth cat_totals) lus1 lus2)"
    by (simp add: lower_all_None)
  moreover have "r = None \<longleftrightarrow> over_pairs (pair_candidates c smooth cat_totals) lus1 lus2 = []"
    using r by (simp add: least_def)
  ultimately show "r = least (over_pairs (pair_candidates c smooth cat_totals) lus1 lus2) \<and>
     (r = None \<longleftrightarrow>
        \<not> (\<exists>u1 \<in> set lus1. \<exists>u2 \<in> set lus2.
             ic_of c smooth cat_totals u1 \<noteq> None \<and> ic_of c smooth cat_totals u2 \<noteq> None))"
    using over_pairs_empty_iff by simp
qed

lemma ic_unit_1: "IC sim_db (counted_noun i s n 1) True False False = Inr (Some 2)"
  by (simp add: IC_def p_lu_def get_lu_count_def sim_db_def counted_noun_def log2_quarter)

lemma ic_a1: "IC sim_db a1 True False False = Inr (Some 2)"
  and ic_a2: "IC sim_db a2 True False False = Inr (Some 2)"
  and ic_b1: "IC sim_db b1 True False False = Inr (Some 2)"
  by (simp_all add: a1_def a2_def b1_def ic_unit_1)

lemma lcs_a1_b1: "snd (least_common_subsumers sim_db (lu_to_spec a1) (lu_to_spec b1) hyperonym (Some ''raw'')) = Inr [OutLu h1]"
  by code_simp

lemma units_raw_a: "snd (get_lex_units sim_db ''a'' (Some ''raw'')) = Inr (map OutLu [a1, a2])"
  by code_simp

lemma units_raw_b: "snd (get_lex_units sim_db ''b'' (Some ''raw'')) = Inr (map OutLu [b1])"
  by code_simp

lemma roundtrip_sim:
  "\<forall>u \<in> set [a1, a2] \<union> set [b1]. snd (get_lex_units sim_db (lu_to_spec u) (Some ''raw'')) = Inr [OutLu u]"
proof -
  have "snd (get_lex_units sim_db (lu_to_spec a1) (Some ''raw'')) = Inr [OutLu a1]" by code_simp
  moreover have "snd (get_lex_units sim_db (lu_to_spec a2) (Some ''raw'')) = Inr [OutLu a2]" by code_simp
  moreover have "snd (get_lex_units sim_db (lu_to_spec b1) (Some ''raw'')) = Inr [OutLu b1]" by code_simp
  ultimately show ?thesis by simp
qed

lemma jc_sim: "jiang_conrath_dist sim_db ''a'' ''b'' False False None = Inr (Some 0)"
  using units_raw_a units_raw_b
  by (simp add: jiang_conrath_dist_def raw_lus_map ic_a1 ic_a2 ic_b1 ic_h1 ic_k1
      lcs_a1_b1 lcs_a2_b raw_lus_def List.map_filter_simps lower_dist_def)

lemma jiang_conrath_dist_candidates_example:
  "jiang_conrath_dist sim_db ''a'' ''b'' False False None = Inr (Some 0) \<and>
   least (over_pairs (pair_candidates sim_db False False) [a1, a2] [b1]) = Some 0 \<and>
   (\<exists>u1 \<in> set [a1, a2]. \<exists>u2 \<in> set [b1].
      ic_of sim_db False False u1 \<noteq> None \<and> ic_of sim_db False False u2 \<noteq> None)"
  using jiang_conrath_dist_candidates[of "[a1, a2]" "[b1]" sim_db "''a''" "''b''" False False None "Some 0"]
    roundtrip_sim units_raw_a units_raw_b jc_sim
  by simp

text \<open>
  The two nouns \<^verbatim>\<open>x\<close> without sense number: both have the specification \<^verbatim>\<open>x:noun:\<close>, which
  resolves to both.
\<close>

lemma ic_x1: "IC nosense_db x1 True False False = Inr (Some 1)"
  by (simp add: IC_def p_lu_def get_lu_count_def nosense_db_def x1_def senseless_noun_def log2_half)

lemma ic_x2: "IC nosense_db x2 True False False = Inr (Some 2)"
  by (simp add: IC_def p_lu_def get_lu_count_def nosense_db_def x2_def senseless_noun_def
      log2_quarter)

lemma units_raw_x: "snd (get_lex_units nosense_db ''x'' (Some ''raw'')) = Inr [OutLu x1, OutLu x2]"
  by code_simp

lemma spec_x: "lu_to_spec x1 = ''x:noun:''" "lu_to_spec x2 = ''x:noun:''"
  by code_simp+

lemma units_raw_x_noun:
  "snd (get_lex_units nosense_db ''x:noun:'' (Some ''raw'')) = Inr [OutLu x1, OutLu x2]"
  by code_simp

lemma lcs_x:
  "snd (least_common_subsumers nosense_db ''x:noun:'' ''x:noun:'' hyperonym (Some ''raw'')) =
     Inr [OutLu x1, OutLu x2]"
  by code_simp

lemma unit_lcs_x:
  "unit_lcs nosense_db x1 x1 = [x1]" "unit_lcs nosense_db x1 x2 = []"
  "unit_lcs nosense_db x2 x1 = []" "unit_lcs nosense_db x2 x2 = [x2]"
  by code_simp+

lemma jc_x: "jiang_conrath_dist nosense_db ''x'' ''x'' False False None = Inr (Some (- 2))"
  by (simp add: jiang_conrath_dist_def units_raw_x raw_lus_def List.map_filter_simps ic_x1 ic_x2
      spec_x lcs_x lower_dist_def)

lemma claimed_x:
  "least (over_pairs (pair_claimed nosense_db False False) [x1, x2] [x1, x2]) = Some 0"
proof -
  have "ic_of nosense_db False False x1 = Some 1" "ic_of nosense_db False False x2 = Some 2"
    by (simp_all add: ic_of_def ic_x1 ic_x2)
  then have "over_pairs (pair_claimed nosense_db False False) [x1, x2] [x1, x2] = [0, 3, 3, 0]"
    by (simp add: over_pairs_def pair_claimed_def unit_lcs_x lcs_dists_def List.map_filter_simps)
  then show ?thesis by (simp add: least_def)
qed

text \<open>The unit whose subsumed count is larger than the total count.\<close>

lemma ic_n1: "IC neg_db n1 True False False = Inr (Some (- 1))"
  by (simp add: IC_def p_lu_def get_lu_count_def neg_db_def n1_def counted_noun_def)

lemma lcs_n1: "snd (least_common_subsumers neg_db (lu_to_spec n1) (lu_to_spec n1) hyperonym (Some ''raw'')) = Inr [OutLu n1]"
  by code_simp

lemma units_raw_u: "snd (get_lex_units neg_db ''u'' (Some ''raw'')) = Inr [OutLu n1]"
  by code_simp

lemma unit_lcs_n1: "unit_lcs neg_db n1 n1 = [n1]"
  by code_simp

lemma jc_n: "jiang_conrath_dist neg_db ''u'' ''u'' False False None = Inr (Some (- 2))"
  by (simp add: jiang_conrath_dist_def units_raw_u raw_lus_def List.map_filter_simps ic_n1 lcs_n1
      lower_dist_def)

lemma claimed_n: "least (over_pairs (pair_claimed neg_db False False) [n1] [n1]) = Some 0"
proof -
  have "ic_of neg_db False False n1 = Some (- 1)" by (simp add: ic_of_def ic_n1)
  then have "over_pairs (pair_claimed neg_db False False) [n1] [n1] = [0]"
    by (simp add: over_pairs_def pair_claimed_def unit_lcs_n1 lcs_dists_def List.map_filter_simps)
  then show ?thesis by (simp add: least_def)
qed

text \<open>
  The unit of category \<^verbatim>\<open>NOUN\<close>: its specification \<^verbatim>\<open>a:NOUN:1\<close> resolves to no unit,
  because a category is compared in lower case with the category of the specification as
  it is written.
\<close>

lemma ic_big1: "IC case_db big1 True False False = Inr (Some 2)"
  by (simp add: IC_def p_lu_def get_lu_count_def case_db_def big1_def log2_quarter)

lemma units_raw_big: "snd (get_lex_units case_db ''a'' (Some ''raw'')) = Inr [OutLu big1]"
  by code_simp

lemma spec_big: "lu_to_spec big1 = ''a:NOUN:1''"
  by code_simp

lemma units_raw_big_spec: "snd (get_lex_units case_db ''a:NOUN:1'' (Some ''raw'')) = Inr []"
  by code_simp

lemma lcs_big:
  "snd (least_common_subsumers case_db (lu_to_spec big1) (lu_to_spec big1) hyperonym
          (Some ''raw'')) = Inr []"
  by code_simp

lemma unit_lcs_big: "unit_lcs case_db big1 big1 = [big1]"
  by code_simp

lemma jc_big: "jiang_conrath_dist case_db ''a'' ''a'' False False None = Inr (Some 4)"
  by (simp add: jiang_conrath_dist_def units_raw_big raw_lus_def List.map_filter_simps ic_big1
      lcs_big lower_dist_def)

lemma claimed_big: "least (over_pairs (pair_claimed case_db False False) [big1] [big1]) = Some 0"
proof -
  have "ic_of case_db False False big1 = Some 2" by (simp add: ic_of_def ic_big1)
  then have "over_pairs (pair_claimed case_db False False) [big1] [big1] = [0]"
    by (simp add: over_pairs_def pair_claimed_def unit_lcs_big lcs_dists_def List.map_filter_simps)
  then show ?thesis by (simp add: least_def)
qed

text \<open>
  C6, where the code departs from it. The two nouns \<^verbatim>\<open>x\<close> without sense number have the
  information contents 1 and 2, from the subsumed counts 2 and 1 of a total of 4; each is
  its own and only least common subsumer and the two have none in common, so that the
  minimum of the claim, \<open>least\<close> of \<open>pair_claimed\<close> over the pairs, is 0. The code returns
  -2: it looks for the least common subsumers of a pair through the specifications of
  its two units, and \<^verbatim>\<open>x:noun:\<close> resolves to both units. For the unit \<^verbatim>\<open>u:noun:1\<close> of
  information content -1 the minimum of the claim is 0 and the code returns -2, the sum of
  the two information contents, which it takes as a candidate also for a pair that has a
  least common subsumer. For the unit \<^verbatim>\<open>a:NOUN:1\<close> of information content 2 the minimum of
  the claim is 0 and the code returns 4: the specification of the unit resolves to no
  unit, so the code finds no least common subsumer.
\<close>

theorem jiang_conrath_dist_not_least:
  "snd (get_lex_units nosense_db ''x'' (Some ''raw'')) = Inr [OutLu x1, OutLu x2] \<and>
   IC nosense_db x1 True False False = Inr (Some 1) \<and>
   IC nosense_db x2 True False False = Inr (Some 2) \<and>
   unit_lcs nosense_db x1 x1 = [x1] \<and> unit_lcs nosense_db x1 x2 = [] \<and>
   unit_lcs nosense_db x2 x1 = [] \<and> unit_lcs nosense_db x2 x2 = [x2] \<and>
   least (over_pairs (pair_claimed nosense_db False False) [x1, x2] [x1, x2]) = Some 0 \<and>
   lu_to_spec x1 = ''x:noun:'' \<and>
   snd (get_lex_units nosense_db ''x:noun:'' (Some ''raw'')) = Inr [OutLu x1, OutLu x2] \<and>
   jiang_conrath_dist nosense_db ''x'' ''x'' False False None = Inr (Some (- 2)) \<and>
   snd (get_lex_units neg_db ''u'' (Some ''raw'')) = Inr [OutLu n1] \<and>
   IC neg_db n1 True False False = Inr (Some (- 1)) \<and>
   unit_lcs neg_db n1 n1 = [n1] \<and>
   least (over_pairs (pair_claimed neg_db False False) [n1] [n1]) = Some 0 \<and>
   jiang_conrath_dist neg_db ''u'' ''u'' False False None = Inr (Some (- 2)) \<and>
   snd (get_lex_units case_db ''a'' (Some ''raw'')) = Inr [OutLu big1] \<and>
   IC case_db big1 True False False = Inr (Some 2) \<and>
   unit_lcs case_db big1 big1 = [big1] \<and>
   least (over_pairs (pair_claimed case_db False False) [big1] [big1]) = Some 0 \<and>
   lu_to_spec big1 = ''a:NOUN:1'' \<and>
   snd (get_lex_units case_db ''a:NOUN:1'' (Some ''raw'')) = Inr [] \<and>
   jiang_conrath_dist case_db ''a'' ''a'' False False None = Inr (Some 4)"
  using units_raw_x ic_x1 ic_x2 unit_lcs_x claimed_x spec_x(1) units_raw_x_noun jc_x
    units_raw_u ic_n1 unit_lcs_n1 claimed_n jc_n
    units_raw_big ic_big1 unit_lcs_big claimed_big spec_big units_raw_big_spec jc_big
  by simp

section \<open>Building the graph: properties\<close>

lemma add_node_edges: "edges (add_node g n) = edges g"
  by (simp add: add_node_def)

lemma add_edge_simple: "simple_edges g \<Longrightarrow> simple_edges (add_edge g u v r)"
  by (auto simp: simple_edges_def add_edge_def nx_add_edge_def add_node_edges Let_def)

lemma synonym_edges_from_simple: "simple_edges g \<Longrightarrow> simple_edges (synonym_edges_from nds g u)"
  unfolding synonym_edges_from_def
  by (induction nds arbitrary: g) (simp_all add: add_edge_simple)

lemma relation_edges_inner_simple:
  "simple_edges g \<Longrightarrow> simple_edges (foldl (\<lambda>g2 to_node. add_edge g2 u to_node r) g tos)"
  by (induction tos arbitrary: g) (simp_all add: add_edge_simple)

lemma relation_edges_simple: "simple_edges g \<Longrightarrow> simple_edges (relation_edges fs tos r g)"
  unfolding relation_edges_def
  by (induction fs arbitrary: g) (simp_all add: relation_edges_inner_simple)

lemma synonym_fold_simple:
  assumes "simple_edges g"
  shows "simple_edges (snd (foldl (\<lambda>(ids, g) from_node.
            (AList.map_entry from_node f ids, synonym_edges_from nds g from_node)) (ids, g) xs))"
  using assms
  by (induction xs arbitrary: ids g) (simp_all add: synonym_edges_from_simple)

lemma synonym_relations_simple:
  assumes "simple_edges g" "synonym_relations_to_edges s s2l (ids, g) = Inr (ids', g')"
  shows "simple_edges g'"
proof -
  from assms(2) obtain nds where
    "foldl (\<lambda>(ids, g) from_node.
        (AList.map_entry from_node (append_c_sy_id (the (syn_c_sy_id s))) ids,
         synonym_edges_from nds g from_node)) (ids, g) nds = (ids', g')"
    by (auto simp: synonym_relations_to_edges_def split: option.splits)
  then have "g' = snd (foldl (\<lambda>(ids, g) from_node.
        (AList.map_entry from_node (append_c_sy_id (the (syn_c_sy_id s))) ids,
         synonym_edges_from nds g from_node)) (ids, g) nds)"
    by simp
  with synonym_fold_simple[OF assms(1)] show ?thesis by simp
qed

lemma distinct_count_list: "distinct xs \<Longrightarrow> count_list xs x \<le> 1"
  by (induction xs) (auto simp: count_list_0_iff)

lemma wn_fold_simple:
  assumes "simple_edges g"
  shows "simple_edges (foldl (\<lambda>g' relation_el.
            case (case target relation_el of None \<Rightarrow> None | Some t \<Rightarrow> map_of s2l t) of
              None \<Rightarrow> g'
            | Some to_nodes \<Rightarrow> relation_edges fs to_nodes (relation_name relation_el) g') g rels)"
  using assms
  by (induction rels arbitrary: g) (auto simp: relation_edges_simple split: option.splits)

lemma wn_internal_simple:
  assumes "simple_edges g" "wn_internal_relations_to_edges s s2l g = Inr g'"
  shows "simple_edges g'"
  using assms wn_fold_simple[OF assms(1)]
  by (auto simp: wn_internal_relations_to_edges_def split: option.splits)

lemma relations_step_simple:
  assumes "simple_edges g" "relations_step s2l (Inr (ids, g)) s = Inr (ids', g')"
  shows "simple_edges g'"
proof -
  from assms(2) obtain ids1 g1 where
    a: "synonym_relations_to_edges s s2l (ids, g) = Inr (ids1, g1)"
    and b: "wn_internal_relations_to_edges s s2l g1 = Inr g'"
    by (auto simp: relations_step_def split: sum.splits prod.splits)
  from synonym_relations_simple[OF assms(1) a] wn_internal_simple[OF _ b] show ?thesis by blast
qed

lemma relations_step_Inl: "foldl (relations_step s2l) (Inl e) ss = Inl e"
  by (induction ss) (simp_all add: relations_step_def)

lemma relations_fold_simple:
  assumes "simple_edges g" "foldl (relations_step s2l) (Inr (ids, g)) ss = Inr (ids', g')"
  shows "simple_edges g'"
  using assms
proof (induction ss arbitrary: ids g)
  case Nil
  then show ?case by simp
next
  case (Cons s ss)
  show ?case
  proof (cases "relations_step s2l (Inr (ids, g)) s")
    case (Inl e)
    with Cons.prems(2) show ?thesis by (simp add: relations_step_Inl)
  next
    case (Inr st)
    obtain ids1 g1 where st: "st = (ids1, g1)" by (cases st)
    from relations_step_simple[OF Cons.prems(1) Inr[unfolded st]] have "simple_edges g1" .
    moreover from Cons.prems(2) Inr st
    have "foldl (relations_step s2l) (Inr (ids1, g1)) ss = Inr (ids', g')" by simp
    ultimately show ?thesis by (rule Cons.IH)
  qed
qed

lemma lex_unit_step_edges:
  assumes "lex_unit_step (Inr (f2l, ids, g, fe)) ev = Inr (f2l', ids', g', fe')"
  shows "edges g' = edges g"
  using assms
  by (auto simp: lex_unit_step_def add_node_edges split: lu_event.splits if_splits option.splits)

lemma lex_unit_step_Inl: "foldl lex_unit_step (Inl e) evs = Inl e"
  by (induction evs) (simp_all add: lex_unit_step_def)

lemma lex_fold_edges:
  assumes "foldl lex_unit_step (Inr (f2l, ids, g, fe)) evs = Inr (f2l', ids', g', fe')"
  shows "edges g' = edges g"
  using assms
proof (induction evs arbitrary: f2l ids g fe)
  case Nil
  then show ?case by simp
next
  case (Cons ev evs)
  show ?case
  proof (cases "lex_unit_step (Inr (f2l, ids, g, fe)) ev")
    case (Inl e)
    with Cons.prems show ?thesis by (simp add: lex_unit_step_Inl)
  next
    case (Inr st)
    obtain a b c d where st: "st = (a, b, c, d)" by (cases st)
    from lex_unit_step_edges[OF Inr[unfolded st]] have e: "edges c = edges g" .
    from Cons.prems Inr st have "foldl lex_unit_step (Inr (a, b, c, d)) evs = Inr (f2l', ids', g', fe')"
      by simp
    from Cons.IH[OF this] e show ?thesis by simp
  qed
qed

lemma parse_lex_units_simple:
  assumes "parse_lex_units evs \<lparr>nodes = [], edges = []\<rparr> = Inr (f2l, ids, g)"
  shows "simple_edges g"
proof -
  from assms obtain fe where
    "foldl lex_unit_step (Inr ([], [], \<lparr>nodes = [], edges = []\<rparr>, None)) evs = Inr (f2l, ids, g, fe)"
    by (auto simp: parse_lex_units_def split: sum.splits prod.splits)
  from lex_fold_edges[OF this] show ?thesis by (simp add: simple_edges_def)
qed

lemma lex_parsed:
  "parse_lex_units demo_cdb_lu \<lparr>nodes = [], edges = []\<rparr> =
     Inr ([(''a'', [''1'']), (''b'', [''2''])],
          [(''1'', demo_unit ''1'' ''a''), (''2'', demo_unit ''2'' ''b'')],
          \<lparr>nodes = [''1'', ''2''], edges = []\<rparr>)"
  by (simp add: parse_lex_units_def demo_cdb_lu_def lex_unit_step_def truthy_def demo_unit_def
      demo_form_def has_key_def setdefault_append_def add_node_def)

lemma syn_parsed:
  "parse_cdb_syn demo_cdb_syn [(''1'', demo_unit ''1'' ''a''), (''2'', demo_unit ''2'' ''b'')] =
     Inr ([(''s1'', demo_synset), (''d1'', demo_synset)],
          [(''s1'', [''1'', ''2'']), (''d1'', [''1'', ''2''])])"
  by (simp add: parse_cdb_syn_def demo_cdb_syn_def syn_step_def truthy_def has_key_def
      demo_synset_def)

lemma demo_edges:
  "\<exists>ids'. relations_step [(''s1'', [''1'', ''2'']), (''d1'', [''1'', ''2''])]
            (Inr (ids, \<lparr>nodes = [''1'', ''2''], edges = []\<rparr>)) demo_synset = Inr (ids', demo_graph)"
  by (simp add: relations_step_def synonym_relations_to_edges_def
      wn_internal_relations_to_edges_def relation_edges_def synonym_edges_from_def add_edge_def
      nx_add_edge_def add_node_def demo_synset_def demo_graph_def)

lemma demo_parsed:
  "\<exists>f2l ids s2s. parse_cdb remdups demo_cdb_lu demo_cdb_syn = Inr (f2l, ids, s2s, demo_graph)"
proof -
  obtain ids' where
    "relations_step [(''s1'', [''1'', ''2'']), (''d1'', [''1'', ''2''])]
       (Inr ([(''1'', demo_unit ''1'' ''a''), (''2'', demo_unit ''2'' ''b'')],
             \<lparr>nodes = [''1'', ''2''], edges = []\<rparr>)) demo_synset = Inr (ids', demo_graph)"
    using demo_edges by blast
  then show ?thesis
    by (simp add: parse_cdb_def lex_parsed syn_parsed relations_to_edges_def)
qed

text \<open>
  C3. When \<open>parse_cdb\<close> returns a graph, whatever the two input files are and in
  whatever order the synsets are visited, no edge of the graph connects a node to itself,
  and for every ordered pair of nodes and every relation name the graph has at most one
  edge of that name from the first node to the second.
\<close>

theorem parse_cdb_simple_graph:
  "parse_cdb set_order cdb_lu cdb_syn = Inr (f2l, ids, sy_id2synset, g) \<longrightarrow>
     (\<forall>u v r. (u, v, r) \<in> set (edges g) \<longrightarrow> u \<noteq> v) \<and>
     (\<forall>u v r. count_list (edges g) (u, v, r) \<le> 1)"
proof
  assume p: "parse_cdb set_order cdb_lu cdb_syn = Inr (f2l, ids, sy_id2synset, g)"
  then obtain ids0 g0 s2l where
    a: "parse_lex_units cdb_lu \<lparr>nodes = [], edges = []\<rparr> = Inr (f2l, ids0, g0)"
    and c: "relations_to_edges set_order ids0 sy_id2synset s2l g0 = Inr (ids, g)"
    by (auto simp: parse_cdb_def split: sum.splits prod.splits)
  from parse_lex_units_simple[OF a] have "simple_edges g0" .
  from relations_fold_simple[OF this c[unfolded relations_to_edges_def]]
  have s: "simple_edges g" .
  then have d: "distinct (edges g)" and l: "\<forall>e \<in> set (edges g). fst e \<noteq> fst (snd e)"
    by (auto simp: simple_edges_def)
  have "\<forall>u v r. (u, v, r) \<in> set (edges g) \<longrightarrow> u \<noteq> v" using l by fastforce
  moreover have "\<forall>u v r. count_list (edges g) (u, v, r) \<le> 1"
    using distinct_count_list[OF d] by blast
  ultimately show "(\<forall>u v r. (u, v, r) \<in> set (edges g) \<longrightarrow> u \<noteq> v) \<and>
     (\<forall>u v r. count_list (edges g) (u, v, r) \<le> 1)" by blast
qed

theorem parse_cdb_simple_graph_witness:
  "\<exists>f2l ids s2s g. parse_cdb remdups demo_cdb_lu demo_cdb_syn = Inr (f2l, ids, s2s, g) \<and>
     g = demo_graph \<and>
     (''1'', ''1'', Some ''NEAR'') \<notin> set (edges g) \<and>
     count_list (edges g) (''1'', ''2'', Some ''NEAR'') = 1"
proof -
  obtain f2l ids s2s where
    p: "parse_cdb remdups demo_cdb_lu demo_cdb_syn = Inr (f2l, ids, s2s, demo_graph)"
    using demo_parsed by blast
  from parse_cdb_simple_graph[of remdups demo_cdb_lu demo_cdb_syn f2l ids s2s demo_graph] p
  have a: "\<forall>u v r. (u, v, r) \<in> set (edges demo_graph) \<longrightarrow> u \<noteq> v"
    and b: "\<forall>u v r. count_list (edges demo_graph) (u, v, r) \<le> 1" by blast+
  from a have "(''1'', ''1'', Some ''NEAR'') \<notin> set (edges demo_graph)" by blast
  moreover have "(''1'', ''2'', Some ''NEAR'') \<in> set (edges demo_graph)"
    by (simp add: demo_graph_def)
  then have "count_list (edges demo_graph) (''1'', ''2'', Some ''NEAR'') \<noteq> 0"
    by (simp add: count_list_0_iff)
  with b have "count_list (edges demo_graph) (''1'', ''2'', Some ''NEAR'') = 1"
    by (metis le_antisym less_one not_le_imp_less)
  ultimately show ?thesis using p by blast
qed

end
